theory Spec2Isabelle
  imports Main "HOL-Library.Sublist"
begin

section \<open>Python values shared by the whole development\<close>

text \<open>
  Exceptions of the Python source are values: every function of the source that can raise
  returns \<open>py_error + 'a\<close>, with \<open>Inl\<close> for the exception.
\<close>

datatype py_error =
  ArgumentTypeError | NameError | IndexError | KeyError | AttributeError | StopIteration

section \<open>HelperFunctions.py: the command line parser of booleans\<close>

text \<open>
  \<open>str.upper\<close> on the ASCII letters. A \<open>char\<close> is a byte, so the model covers the
  arguments written in ASCII; every other byte is left as it is.
\<close>

definition upper_char :: "char \<Rightarrow> char" where
  "upper_char c =
     (case map_of (zip ''abcdefghijklmnopqrstuvwxyz'' ''ABCDEFGHIJKLMNOPQRSTUVWXYZ'') c of
        None \<Rightarrow> c
      | Some u \<Rightarrow> u)"

definition upper :: "string \<Rightarrow> string" where
  "upper s = map upper_char s"

text \<open>
  \<^verbatim>\<open>
  def t_or_f(arg):
      ua = str(arg).upper()
      if 'TRUE'.startswith(ua):
          return True
      elif 'FALSE'.startswith(ua):
          return False
      else:
          raise argparse.ArgumentTypeError('Boolean value expected.')
  \<close>
  \<open>'TRUE'.startswith(ua)\<close> holds when \<open>ua\<close> is a prefix of \<open>'TRUE'\<close>.
\<close>

definition t_or_f :: "string \<Rightarrow> py_error + bool" where
  "t_or_f arg =
     (let ua = upper arg in
      if prefix ua ''TRUE'' then Inr True
      else if prefix ua ''FALSE'' then Inr False
      else Inl ArgumentTypeError)"

section \<open>The entities (Timeslot.py, Teacher.py, Course.py, Lesson.py)\<close>

text \<open>
  The entities are rows of the database, each with its primary key. A reference to a row
  that the source never changes (the course of a lesson, the timeslot under which a solution
  files a lesson) is the row itself; a reference to a lesson or a teacher is the primary
  key, resolved against the lists of the ORM. Two objects of the source are the same object
  exactly when they are rows of one table with one primary key.
\<close>

record timeslot =
  ts_id :: int
  weekday :: string
  weekday_number :: int
  number :: int

record teacher =
  teacher_id :: nat
  study_day_1 :: "string option"
  study_day_2 :: "string option"
  max_lessons_per_day :: int
  max_lectures_per_day :: int
  max_lectures_as_block :: int
  avoid_free_day_gaps :: bool

record course =
  course_id :: nat
  only_forenoon :: bool
  all_in_one_block :: bool
  is_lecture :: bool
  one_per_day_per_teacher :: bool
  possible_rooms :: "nat list"
  semester_groups :: "nat list"
  lessons :: "nat list"

record lesson =
  lesson_id :: nat
  whole_semester_group :: bool
  timeslot_size :: int
  course :: course
  teachers :: "nat list"
  lessons_at_same_time :: "nat list"
  lessons_consecutive :: "nat list"
  availableTimeslotsFiltered :: "timeslot list"

text \<open>
  ORM.py is not among the sources. What the functions below read of it is a parameter:
  the entity lists, the timeslots grouped by weekday, the same-time sets and the two
  constants.
\<close>

record orm =
  getTeachers :: "teacher list"
  getCourses :: "course list"
  getLessons :: "lesson list"
  getTimeslots :: "timeslot list"
  getTimeslotsPerDay :: "timeslot list list"
  getLessonsAtSameTimeSets :: "nat list list"
  TIMESLOTS_PER_DAY :: int
  WEEKDAYS :: nat

definition lesson_by_id :: "orm \<Rightarrow> nat \<Rightarrow> lesson option" where
  "lesson_by_id om i = find (\<lambda>l. lesson_id l = i) (getLessons om)"

text \<open>The lesson objects behind a list of references, in the order of the list.\<close>

definition resolve :: "orm \<Rightarrow> nat list \<Rightarrow> lesson list" where
  "resolve om ids = List.map_filter (lesson_by_id om) ids"

section \<open>Solution.py\<close>

text \<open>
  \<open>timeslotMap\<close> is a dictionary from timeslot to the list of (lesson, room) pairs; a
  Python dictionary keeps the order in which its keys were entered, so it is an association
  list. Rooms are primary keys.
\<close>

record solution =
  solutionIndex :: int
  objectiveValue :: int
  timeslotMap :: "(timeslot \<times> (lesson \<times> nat) list) list"

fun lookup_ts :: "(timeslot \<times> 'v) list \<Rightarrow> timeslot \<Rightarrow> py_error + 'v" where
  "lookup_ts [] t = Inl KeyError"
| "lookup_ts ((k, v) # m) t = (if ts_id k = ts_id t then Inr v else lookup_ts m t)"

definition getLessonsAtTimeslot :: "solution \<Rightarrow> timeslot \<Rightarrow> py_error + lesson list" where
  "getLessonsAtTimeslot sol t =
     (case lookup_ts (timeslotMap sol) t of
        Inl e \<Rightarrow> Inl e
      | Inr tus \<Rightarrow> Inr (map fst tus))"

text \<open>
  \<^verbatim>\<open>
  def getTimeslotsOfLesson(self, lesson):
      timeslots = []
      for item in self.timeslotMap.items():
          for tu in item[1]:
              if tu[LESSON_IDX] == lesson:
                  timeslots.append(item[0])
      return timeslots
  \<close>
\<close>

definition getTimeslotsOfLesson :: "solution \<Rightarrow> lesson \<Rightarrow> timeslot list" where
  "getTimeslotsOfLesson sol l =
     concat (map (\<lambda>item. map (\<lambda>tu. fst item)
                          (filter (\<lambda>tu. lesson_id (fst tu) = lesson_id l) (snd item)))
                 (timeslotMap sol))"

section \<open>Python helpers\<close>

text \<open>A loop body that can raise, run over a list: the first exception ends the loop.\<close>

fun mapE :: "('a \<Rightarrow> py_error + 'b) \<Rightarrow> 'a list \<Rightarrow> py_error + 'b list" where
  "mapE f [] = Inr []"
| "mapE f (x # xs) =
     (case f x of
        Inl e \<Rightarrow> Inl e
      | Inr y \<Rightarrow> (case mapE f xs of Inl e \<Rightarrow> Inl e | Inr ys \<Rightarrow> Inr (y # ys)))"

text \<open>\<open>set(xs)\<close> of lessons, listed in the order of first occurrence.\<close>

fun lesson_set :: "lesson list \<Rightarrow> lesson list" where
  "lesson_set [] = []"
| "lesson_set (l # ls) = l # lesson_set (filter (\<lambda>x. lesson_id x \<noteq> lesson_id l) ls)"

definition lesson_in :: "lesson \<Rightarrow> lesson list \<Rightarrow> bool" where
  "lesson_in l ls = (lesson_id l \<in> lesson_id ` set ls)"

text \<open>\<open>max(xs)\<close> of a non-empty list; the callers below never pass an empty one.\<close>

fun max_list :: "int list \<Rightarrow> int" where
  "max_list [] = 0"
| "max_list [x] = x"
| "max_list (x # y # ys) = max x (max_list (y # ys))"

text \<open>
  \<^verbatim>\<open>
  def getSameTimeLessonSets(lessons, teacher=None, semesterGroup=None, lecture=False,
                            filterForLessonsList=False):
      sameTimeSetList = []
      for lesson in lessons:
          if lesson.lessons_at_same_time:
              if not any(lesson in sameTimeSet for sameTimeSet in sameTimeSetList):
                  newSet = set()
                  newSet.update(filter(lambda l: (not lecture or l.course.is_lecture) and
                                                 (not teacher or teacher in l.teachers) and
                                                 (not semesterGroup or
                                                  semesterGroup in l.course.semester_groups),
                                       [lesson] + lesson.lessons_at_same_time))
                  if newSet:
                      sameTimeSetList.append(newSet)
      if filterForLessonsList:
          for sameTimeSet in sameTimeSetList:
              sameTimeSet.intersection_update(lessons)
          sameTimeSetList = [x for x in sameTimeSetList if len(x) > 1]
      return sameTimeSetList
  \<close>
\<close>

fun sameTimeSets_loop ::
  "orm \<Rightarrow> teacher option \<Rightarrow> nat option \<Rightarrow> bool \<Rightarrow> lesson list \<Rightarrow> lesson list list
     \<Rightarrow> lesson list list" where
  "sameTimeSets_loop om te sg lecture [] sameTimeSetList = sameTimeSetList"
| "sameTimeSets_loop om te sg lecture (l # ls) sameTimeSetList =
     (if lessons_at_same_time l \<noteq> [] \<and>
         \<not> list_ex (\<lambda>sameTimeSet. lesson_in l sameTimeSet) sameTimeSetList
      then
        (let newSet = lesson_set (filter
               (\<lambda>x. (\<not> lecture \<or> is_lecture (course x)) \<and>
                    (case te of None \<Rightarrow> True | Some t \<Rightarrow> teacher_id t \<in> set (teachers x)) \<and>
                    (case sg of None \<Rightarrow> True | Some g \<Rightarrow> g \<in> set (semester_groups (course x))))
               (l # resolve om (lessons_at_same_time l)))
         in sameTimeSets_loop om te sg lecture ls
              (if newSet \<noteq> [] then sameTimeSetList @ [newSet] else sameTimeSetList))
      else sameTimeSets_loop om te sg lecture ls sameTimeSetList)"

definition getSameTimeLessonSets ::
  "orm \<Rightarrow> lesson list \<Rightarrow> teacher option \<Rightarrow> nat option \<Rightarrow> bool \<Rightarrow> bool \<Rightarrow> lesson list list" where
  "getSameTimeLessonSets om ls te sg lecture filterForLessonsList =
     (let sameTimeSetList = sameTimeSets_loop om te sg lecture ls [] in
      if filterForLessonsList
      then filter (\<lambda>x. length x > 1)
             (map (\<lambda>sameTimeSet. filter (\<lambda>x. lesson_in x ls) sameTimeSet) sameTimeSetList)
      else sameTimeSetList)"

section \<open>SolutionValidation.py\<close>

subsection \<open>validateMaxLecturesAsBlockForTeacher\<close>

text \<open>
  The objects a Python list can hold here, and membership \<open>x in xs\<close>: some element is the
  same object as \<open>x\<close>. The entity classes define no \<open>__eq__\<close>, so an object of one class
  never equals an object of another.
\<close>

datatype py_obj = TeacherObj teacher | LessonObj lesson

fun obj_eq :: "py_obj \<Rightarrow> py_obj \<Rightarrow> bool" where
  "obj_eq (TeacherObj a) (TeacherObj b) = (teacher_id a = teacher_id b)"
| "obj_eq (LessonObj a) (LessonObj b) = (lesson_id a = lesson_id b)"
| "obj_eq (TeacherObj a) (LessonObj b) = False"
| "obj_eq (LessonObj a) (TeacherObj b) = False"

definition obj_in :: "py_obj \<Rightarrow> py_obj list \<Rightarrow> bool" where
  "obj_in x xs = list_ex (obj_eq x) xs"

text \<open>
  \<^verbatim>\<open>
  def validateMaxLecturesAsBlockForTeacher(solution: Solution, orm: ORM) -> bool:
      isValid = True
      for teacher in orm.getTeachers():
          blocksize = 0
          for timeslot in orm.getTimeslots():
              if timeslot.number == 1:  # reset blocksize on first lesson of a day
                  blocksize = 0
              if teacher in list(filter(lambda l: l.course.is_lecture and teacher in l.teachers,
                                        solution.getLessonsAtTimeslot(timeslot))):
                  blocksize += 1
                  if blocksize > teacher.max_lectures_as_block:
                      isValid = False
              else:
                  blocksize = 0
      return isValid
  \<close>
  The inner loop carries \<open>blocksize\<close> and \<open>isValid\<close>; the outer loop carries \<open>isValid\<close>.
\<close>

fun block_timeslots ::
  "solution \<Rightarrow> teacher \<Rightarrow> timeslot list \<Rightarrow> int \<Rightarrow> bool \<Rightarrow> py_error + bool" where
  "block_timeslots sol te [] blocksize isValid = Inr isValid"
| "block_timeslots sol te (t # ts) blocksize isValid =
     (let blocksize = (if number t = 1 then 0 else blocksize) in
      case getLessonsAtTimeslot sol t of
        Inl e \<Rightarrow> Inl e
      | Inr ls \<Rightarrow>
          if obj_in (TeacherObj te)
               (map LessonObj
                 (filter (\<lambda>l. is_lecture (course l) \<and> teacher_id te \<in> set (teachers l)) ls))
          then
            (let blocksize = blocksize + 1 in
             block_timeslots sol te ts blocksize
               (if blocksize > max_lectures_as_block te then False else isValid))
          else block_timeslots sol te ts 0 isValid)"

fun block_teachers ::
  "solution \<Rightarrow> timeslot list \<Rightarrow> teacher list \<Rightarrow> bool \<Rightarrow> py_error + bool" where
  "block_teachers sol tss [] isValid = Inr isValid"
| "block_teachers sol tss (te # tes) isValid =
     (case block_timeslots sol te tss 0 isValid of
        Inl e \<Rightarrow> Inl e
      | Inr v \<Rightarrow> block_teachers sol tss tes v)"

definition validateMaxLecturesAsBlockForTeacher :: "solution \<Rightarrow> orm \<Rightarrow> py_error + bool" where
  "validateMaxLecturesAsBlockForTeacher sol om =
     block_teachers sol (getTimeslots om) (getTeachers om) True"

subsection \<open>validateMaxLecturesPerDayPerTeacher\<close>

text \<open>
  \<^verbatim>\<open>
  def validateMaxLecturesPerDayPerTeacher(solution: Solution, orm: ORM) -> bool:
      isValid = True
      for teacher in orm.getTeachers():
          for day in orm.getTimeslotsPerDay():
              timeCount = 0
              lecturesWithTeacher = set(filter(lambda l: l.course.is_lecture and teacher in l.teachers,
                                        flatMap(lambda t: solution.getLessonsAtTimeslot(t), day)))
              lessonSetList = getSameTimeLessonSets(lecturesWithTeacher, teacher=teacher, lecture=True)
              for lesson in lecturesWithTeacher:
                  if not lesson.lessons_at_same_time:
                      timeCount += lesson.timeslot_size
              for lessonSet in lessonSetList:
                  timeCount += max(map(lambda l: l.timeslot_size, lessonSet))
              isValid &= timeCount <= teacher.max_lessons_per_day
      return isValid
  \<close>
  \<open>lecture_timeCount\<close> is the value of \<open>timeCount\<close> at the end of one round of the inner
  loop.
\<close>

definition lecture_timeCount :: "solution \<Rightarrow> orm \<Rightarrow> teacher \<Rightarrow> timeslot list \<Rightarrow> py_error + int" where
  "lecture_timeCount sol om te day =
     (case mapE (getLessonsAtTimeslot sol) day of
        Inl e \<Rightarrow> Inl e
      | Inr lss \<Rightarrow>
          (let lecturesWithTeacher = lesson_set
                 (filter (\<lambda>l. is_lecture (course l) \<and> teacher_id te \<in> set (teachers l))
                    (concat lss));
               lessonSetList =
                 getSameTimeLessonSets om lecturesWithTeacher (Some te) None True False
           in Inr (sum_list (map timeslot_size
                      (filter (\<lambda>l. lessons_at_same_time l = []) lecturesWithTeacher))
                   + sum_list (map (\<lambda>lessonSet. max_list (map timeslot_size lessonSet))
                      lessonSetList))))"

fun lectures_days ::
  "solution \<Rightarrow> orm \<Rightarrow> teacher \<Rightarrow> timeslot list list \<Rightarrow> bool \<Rightarrow> py_error + bool" where
  "lectures_days sol om te [] isValid = Inr isValid"
| "lectures_days sol om te (day # days) isValid =
     (case lecture_timeCount sol om te day of
        Inl e \<Rightarrow> Inl e
      | Inr timeCount \<Rightarrow>
          lectures_days sol om te days (isValid \<and> timeCount \<le> max_lessons_per_day te))"

fun lectures_teachers :: "solution \<Rightarrow> orm \<Rightarrow> teacher list \<Rightarrow> bool \<Rightarrow> py_error + bool" where
  "lectures_teachers sol om [] isValid = Inr isValid"
| "lectures_teachers sol om (te # tes) isValid =
     (case lectures_days sol om te (getTimeslotsPerDay om) isValid of
        Inl e \<Rightarrow> Inl e
      | Inr v \<Rightarrow> lectures_teachers sol om tes v)"

definition validateMaxLecturesPerDayPerTeacher :: "solution \<Rightarrow> orm \<Rightarrow> py_error + bool" where
  "validateMaxLecturesPerDayPerTeacher sol om = lectures_teachers sol om (getTeachers om) True"

subsection \<open>validateOnlyOneNotAllInOneBlockLessonPerDay\<close>

text \<open>
  \<^verbatim>\<open>
  def validateOnlyOneNotAllInOneBlockLessonPerDay(solution: Solution, orm: ORM) -> bool:
      isValid = True
      for course in [c for c in orm.getCourses() if not c.all_in_one_block]:
          weekdaySet = set()
          relevantLessons = [x for x in course.lessons
                             if x.whole_semester_group and not x.lessons_at_same_time]
          for lesson in relevantLessons:
              weekdaySet.add(solution.getTimeslotsOfLesson(lesson)[0].weekday)
          courseValid = len(weekdaySet)  == len(relevantLessons)
          if not courseValid:
              logger.error("... %i != %i" % (course.id, weekdaySet,
                           len(weekdaySet) + sameDayCorrection, len(lessonsWithWholeSG)))
          isValid &= courseValid
      return isValid
  \<close>
  Neither \<open>sameDayCorrection\<close> nor \<open>lessonsWithWholeSG\<close> is a name of the function or of its
  module: Python evaluates the arguments of \<open>logger.error\<close> before the call, so the branch
  raises NameError. \<open>[0]\<close> of an empty list raises IndexError.
\<close>

definition first_weekday :: "solution \<Rightarrow> lesson \<Rightarrow> py_error + string" where
  "first_weekday sol l =
     (case getTimeslotsOfLesson sol l of
        [] \<Rightarrow> Inl IndexError
      | t # ts \<Rightarrow> Inr (weekday t))"

definition relevantLessons :: "orm \<Rightarrow> course \<Rightarrow> lesson list" where
  "relevantLessons om c =
     filter (\<lambda>x. whole_semester_group x \<and> lessons_at_same_time x = []) (resolve om (lessons c))"

definition course_one_per_day :: "solution \<Rightarrow> orm \<Rightarrow> course \<Rightarrow> py_error + bool" where
  "course_one_per_day sol om c =
     (case mapE (first_weekday sol) (relevantLessons om c) of
        Inl e \<Rightarrow> Inl e
      | Inr weekdays \<Rightarrow>
          (let courseValid = (length (remdups weekdays) = length (relevantLessons om c)) in
           if \<not> courseValid then Inl NameError else Inr courseValid))"

fun one_per_day_courses :: "solution \<Rightarrow> orm \<Rightarrow> course list \<Rightarrow> bool \<Rightarrow> py_error + bool" where
  "one_per_day_courses sol om [] isValid = Inr isValid"
| "one_per_day_courses sol om (c # cs) isValid =
     (case course_one_per_day sol om c of
        Inl e \<Rightarrow> Inl e
      | Inr courseValid \<Rightarrow> one_per_day_courses sol om cs (isValid \<and> courseValid))"

definition validateOnlyOneNotAllInOneBlockLessonPerDay :: "solution \<Rightarrow> orm \<Rightarrow> py_error + bool" where
  "validateOnlyOneNotAllInOneBlockLessonPerDay sol om =
     one_per_day_courses sol om (filter (\<lambda>c. \<not> all_in_one_block c) (getCourses om)) True"

subsection \<open>validateSolution\<close>

text \<open>
  \<open>validateSolution\<close> runs twenty-one checks, each in the shape
  \<^verbatim>\<open>
      if not validateTeacherTimeConstraints(solution):
          logger.debug("Solution: %4i, TeacherTime Constraint Fail!" % solution.solutionIndex)
          isValid = False
  \<close>
  and returns \<open>isValid\<close>. The checks are listed in the order of the source. The three
  checks modelled above are run on the solution; the result of every other check is the
  parameter \<open>ext\<close>.
\<close>

datatype rule =
    TeacherTimeConstraints | RoomTimeConstraints | SemesterGroupTimeConstraints | StudyDays
  | AllLessonsAsBlockCourses | BlocksOnlyInSameRoom | ConsecutiveLessons | ForenoonLessons
  | GivenTimeslots | LessonTakePlaceOnOneDay | LessonTime | MaxLessonsPerDayPerTeacher
  | MaxLessonsPerDayPerSemesterGroup | MaxLecturesPerDayPerTeacher
  | MaxLecturesAsBlockForTeacher | OneCoursePerDayPerTeacher
  | OnlyOneNotAllInOneBlockLessonPerDay | RoomNotAvailableTimes | TeacherNotAvailableTimes
  | SameTimeLessons | TimeslotVarHelperVariables

definition rules_in_order :: "rule list" where
  "rules_in_order =
     [TeacherTimeConstraints, RoomTimeConstraints, SemesterGroupTimeConstraints, StudyDays,
      AllLessonsAsBlockCourses, BlocksOnlyInSameRoom, ConsecutiveLessons, ForenoonLessons,
      GivenTimeslots, LessonTakePlaceOnOneDay, LessonTime, MaxLessonsPerDayPerTeacher,
      MaxLessonsPerDayPerSemesterGroup, MaxLecturesPerDayPerTeacher,
      MaxLecturesAsBlockForTeacher, OneCoursePerDayPerTeacher,
      OnlyOneNotAllInOneBlockLessonPerDay, RoomNotAvailableTimes, TeacherNotAvailableTimes,
      SameTimeLessons, TimeslotVarHelperVariables]"

definition run_rule ::
  "(rule \<Rightarrow> py_error + bool) \<Rightarrow> solution \<Rightarrow> orm \<Rightarrow> rule \<Rightarrow> py_error + bool" where
  "run_rule ext sol om r =
     (if r = MaxLecturesPerDayPerTeacher then validateMaxLecturesPerDayPerTeacher sol om
      else if r = MaxLecturesAsBlockForTeacher then validateMaxLecturesAsBlockForTeacher sol om
      else if r = OnlyOneNotAllInOneBlockLessonPerDay
        then validateOnlyOneNotAllInOneBlockLessonPerDay sol om
      else ext r)"

fun validate_rules ::
  "(rule \<Rightarrow> py_error + bool) \<Rightarrow> solution \<Rightarrow> orm \<Rightarrow> rule list \<Rightarrow> bool \<Rightarrow> py_error + bool" where
  "validate_rules ext sol om [] isValid = Inr isValid"
| "validate_rules ext sol om (r # rs) isValid =
     (case run_rule ext sol om r of
        Inl e \<Rightarrow> Inl e
      | Inr ok \<Rightarrow> validate_rules ext sol om rs (if \<not> ok then False else isValid))"

definition validateSolution ::
  "(rule \<Rightarrow> py_error + bool) \<Rightarrow> solution \<Rightarrow> orm \<Rightarrow> py_error + bool" where
  "validateSolution ext sol om = validate_rules ext sol om rules_in_order True"

subsection \<open>What the lecture checks are meant to decide\<close>

text \<open>
  The length of the longest run of occupied slots in a day, and the rule of the lecture
  block in the words of the specification: no teacher has, on one weekday, a run of
  consecutive timeslots, each with a lecture lesson of the teacher, longer than the
  teacher's \<open>max_lectures_as_block\<close>.
\<close>

fun longest_run :: "bool list \<Rightarrow> nat \<Rightarrow> nat" where
  "longest_run [] cur = cur"
| "longest_run (b # bs) cur =
     (if b then longest_run bs (Suc cur) else max cur (longest_run bs 0))"

definition teaches_lecture_at :: "solution \<Rightarrow> teacher \<Rightarrow> timeslot \<Rightarrow> bool" where
  "teaches_lecture_at sol te t =
     (case getLessonsAtTimeslot sol t of
        Inl e \<Rightarrow> False
      | Inr ls \<Rightarrow> list_ex (\<lambda>l. is_lecture (course l) \<and> teacher_id te \<in> set (teachers l)) ls)"

definition spec_lecture_block_exceeded :: "solution \<Rightarrow> orm \<Rightarrow> bool" where
  "spec_lecture_block_exceeded sol om =
     list_ex (\<lambda>te. list_ex
        (\<lambda>day. int (longest_run (map (teaches_lecture_at sol te) day) 0) > max_lectures_as_block te)
        (getTimeslotsPerDay om)) (getTeachers om)"

section \<open>A week of thirty timeslots and two timetables\<close>

text \<open>
  Five weekdays of six timeslots, with the ids 1 to 30 in the order
  \<open>(weekday_number - 1) * 6 + number\<close>.
\<close>

definition week_timeslot :: "int \<Rightarrow> timeslot" where
  "week_timeslot i =
     \<lparr>ts_id = i,
      weekday = [''MO'', ''TU'', ''WE'', ''TH'', ''FR''] ! nat ((i - 1) div 6),
      weekday_number = (i - 1) div 6 + 1,
      number = (i - 1) mod 6 + 1\<rparr>"

definition week_slots :: "timeslot list" where
  "week_slots = map week_timeslot [1..30]"

definition week_days :: "timeslot list list" where
  "week_days = map (\<lambda>d. map week_timeslot [6 * d + 1..6 * d + 6]) [0..4]"

definition default_teacher :: teacher where
  "default_teacher =
     \<lparr>teacher_id = 1, study_day_1 = None, study_day_2 = None, max_lessons_per_day = 5,
      max_lectures_per_day = 3, max_lectures_as_block = 2, avoid_free_day_gaps = False\<rparr>"

text \<open>
  Timetable A: one teacher with the default limits (five lessons and three lectures a day,
  two lectures in a row) and four lecture courses of one single-slot lesson each, held on
  Monday in the hours 1 to 4.
\<close>

definition lecture_course :: "nat \<Rightarrow> course" where
  "lecture_course i =
     \<lparr>course_id = i, only_forenoon = False, all_in_one_block = False, is_lecture = True,
      one_per_day_per_teacher = False, possible_rooms = [1], semester_groups = [1],
      lessons = [i]\<rparr>"

definition lecture_lesson :: "nat \<Rightarrow> lesson" where
  "lecture_lesson i =
     \<lparr>lesson_id = i, whole_semester_group = True, timeslot_size = 1,
      course = lecture_course i, teachers = [1], lessons_at_same_time = [],
      lessons_consecutive = [], availableTimeslotsFiltered = week_slots\<rparr>"

definition orm_A :: orm where
  "orm_A =
     \<lparr>getTeachers = [default_teacher],
      getCourses = map lecture_course [1, 2, 3, 4],
      getLessons = map lecture_lesson [1, 2, 3, 4],
      getTimeslots = week_slots,
      getTimeslotsPerDay = week_days,
      getLessonsAtSameTimeSets = [],
      TIMESLOTS_PER_DAY = 6,
      WEEKDAYS = 5\<rparr>"

definition solution_A :: solution where
  "solution_A =
     \<lparr>solutionIndex = 1, objectiveValue = 0,
      timeslotMap = map (\<lambda>t. (t, if ts_id t \<le> 4 then [(lecture_lesson (nat (ts_id t)), 1)] else []))
                      week_slots\<rparr>"

text \<open>
  Timetable B: one course that is neither a lecture nor all-in-one-block, with two
  single-slot lessons for the whole semester group, both held on Monday (hours 1 and 2).
\<close>

definition seminar_course :: course where
  "seminar_course =
     \<lparr>course_id = 1, only_forenoon = False, all_in_one_block = False, is_lecture = False,
      one_per_day_per_teacher = False, possible_rooms = [1], semester_groups = [1],
      lessons = [1, 2]\<rparr>"

definition seminar_lesson :: "nat \<Rightarrow> lesson" where
  "seminar_lesson i =
     \<lparr>lesson_id = i, whole_semester_group = True, timeslot_size = 1,
      course = seminar_course, teachers = [1], lessons_at_same_time = [],
      lessons_consecutive = [], availableTimeslotsFiltered = week_slots\<rparr>"

definition orm_B :: orm where
  "orm_B =
     \<lparr>getTeachers = [default_teacher],
      getCourses = [seminar_course],
      getLessons = map seminar_lesson [1, 2],
      getTimeslots = week_slots,
      getTimeslotsPerDay = week_days,
      getLessonsAtSameTimeSets = [],
      TIMESLOTS_PER_DAY = 6,
      WEEKDAYS = 5\<rparr>"

definition solution_B :: solution where
  "solution_B =
     \<lparr>solutionIndex = 1, objectiveValue = 0,
      timeslotMap = map (\<lambda>t. (t, if ts_id t \<le> 2 then [(seminar_lesson (nat (ts_id t)), 1)] else []))
                      week_slots\<rparr>"

section \<open>The constraint model (the part of OR-Tools' CpModel the builder uses)\<close>

text \<open>
  A variable of the model is its index in the list of domains: two variables are the same
  object exactly when they have the same index. A domain is the list of the values it
  holds. A literal is a Boolean variable or its negation (\<open>b.Not()\<close>).
\<close>

type_synonym var = nat

datatype lit = Pos var | Neg var

text \<open>A linear expression: a sum of products of a coefficient with a variable, and a constant.\<close>

datatype linexpr = Lin "(int \<times> var) list" int

datatype constr =
    LinEq linexpr linexpr
  | LinNe linexpr linexpr
  | LinLe linexpr linexpr
  | InRange linexpr int int
  | BoolOr "lit list"
  | ForbiddenAssignments "var list" "int list list"
  | OnlyEnforceIf constr lit

fun eval_lin :: "(var \<Rightarrow> int) \<Rightarrow> linexpr \<Rightarrow> int" where
  "eval_lin a (Lin ts k) = sum_list (map (\<lambda>(c, v). c * a v) ts) + k"

fun lit_true :: "(var \<Rightarrow> int) \<Rightarrow> lit \<Rightarrow> bool" where
  "lit_true a (Pos v) = (a v = 1)"
| "lit_true a (Neg v) = (a v = 0)"

text \<open>
  When an assignment of values to the variables satisfies a constraint. A constraint with
  an enforcement literal binds only where the literal is true.
\<close>

fun holds :: "(var \<Rightarrow> int) \<Rightarrow> constr \<Rightarrow> bool" where
  "holds a (LinEq l r) = (eval_lin a l = eval_lin a r)"
| "holds a (LinNe l r) = (eval_lin a l \<noteq> eval_lin a r)"
| "holds a (LinLe l r) = (eval_lin a l \<le> eval_lin a r)"
| "holds a (InRange e lb ub) = (lb \<le> eval_lin a e \<and> eval_lin a e \<le> ub)"
| "holds a (BoolOr ls) = list_ex (lit_true a) ls"
| "holds a (ForbiddenAssignments vs tuples) = (map a vs \<notin> set tuples)"
| "holds a (OnlyEnforceIf c l) = (if lit_true a l then holds a c else True)"

text \<open>
  The state of the builder: the model (domains and constraints, both in the order in which
  they were added) and the variables that the source attaches to the entities as new
  attributes, keyed by the primary key of the lesson or teacher. An attribute that has
  not been set is \<open>None\<close>. The model also remembers the variable it has made for a
  constant (\<open>constant_map\<close>).
\<close>

record build =
  var_domains :: "int list list"
  constraints :: "constr list"
  roomVar :: "nat \<Rightarrow> var option"
  timeVars :: "nat \<Rightarrow> var list option"
  weekdayVar :: "nat \<Rightarrow> var option"
  hourNumberVar :: "nat \<Rightarrow> var option"
  weekdayBoolVars :: "nat \<Rightarrow> var list option"
  timeslotBoolVars :: "nat \<Rightarrow> var list option"
  timeslotLectureBoolMap :: "nat \<Rightarrow> (timeslot \<times> var) list option"
  studyDay1BoolVar :: "nat \<Rightarrow> var option"
  studyDay2BoolVar :: "nat \<Rightarrow> var option"
  constant_map :: "int \<Rightarrow> var option"

definition empty_build :: build where
  "empty_build =
     \<lparr>var_domains = [], constraints = [], roomVar = (\<lambda>i. None), timeVars = (\<lambda>i. None),
      weekdayVar = (\<lambda>i. None), hourNumberVar = (\<lambda>i. None), weekdayBoolVars = (\<lambda>i. None),
      timeslotBoolVars = (\<lambda>i. None), timeslotLectureBoolMap = (\<lambda>i. None),
      studyDay1BoolVar = (\<lambda>i. None), studyDay2BoolVar = (\<lambda>i. None),
      constant_map = (\<lambda>c. None)\<rparr>"

text \<open>\<open>model.NewIntVarFromDomain\<close>, \<open>model.NewIntVar(lb, ub, name)\<close>, \<open>model.NewBoolVar\<close>, \<open>model.Add\<close>.\<close>

definition NewIntVarFromDomain :: "int list \<Rightarrow> build \<Rightarrow> var \<times> build" where
  "NewIntVarFromDomain d b = (length (var_domains b), b\<lparr>var_domains := var_domains b @ [d]\<rparr>)"

definition NewIntVar :: "int \<Rightarrow> int \<Rightarrow> build \<Rightarrow> var \<times> build" where
  "NewIntVar lb ub b = NewIntVarFromDomain [lb..ub] b"

definition NewBoolVar :: "build \<Rightarrow> var \<times> build" where
  "NewBoolVar b = NewIntVarFromDomain [0, 1] b"

definition Add :: "constr \<Rightarrow> build \<Rightarrow> build" where
  "Add c b = b\<lparr>constraints := constraints b @ [c]\<rparr>"

text \<open>
  \<open>model.Add(ct)\<close> where \<open>ct\<close> is a Python Boolean and not a bounded linear expression:
  the library posts \<open>AddBoolOr([True])\<close> when \<open>ct\<close> is true and \<open>AddBoolOr([])\<close> when it is
  false. The literal \<open>True\<close> is the constant 1; the model makes one variable with the
  domain \<open>{1}\<close> for it, at its first use.
\<close>

definition GetOrMakeIndexFromConstant :: "int \<Rightarrow> build \<Rightarrow> var \<times> build" where
  "GetOrMakeIndexFromConstant c b =
     (case constant_map b c of
        Some v \<Rightarrow> (v, b)
      | None \<Rightarrow>
          (case NewIntVarFromDomain [c] b of
             (v, b1) \<Rightarrow> (v, b1\<lparr>constant_map := (constant_map b1)(c \<mapsto> v)\<rparr>)))"

definition Add_py_bool :: "bool \<Rightarrow> build \<Rightarrow> build" where
  "Add_py_bool ct b =
     (if ct then (case GetOrMakeIndexFromConstant 1 b of (v, b1) \<Rightarrow> Add (BoolOr [Pos v]) b1)
      else Add (BoolOr []) b)"

text \<open>A feasible assignment: every variable within its domain, every constraint satisfied.\<close>

definition feasible :: "build \<Rightarrow> (var \<Rightarrow> int) \<Rightarrow> bool" where
  "feasible b a =
     (list_all (\<lambda>v. a v \<in> set (var_domains b ! v)) [0..<length (var_domains b)] \<and>
      list_all (holds a) (constraints b))"

text \<open>Reading an attribute that may not have been set, and \<open>xs[i]\<close> for a Python integer.\<close>

definition getattr :: "'a option \<Rightarrow> py_error + 'a" where
  "getattr x = (case x of None \<Rightarrow> Inl AttributeError | Some v \<Rightarrow> Inr v)"

definition py_index :: "'a list \<Rightarrow> int \<Rightarrow> py_error + 'a" where
  "py_index xs i =
     (if 0 \<le> i \<and> i < int (length xs) then Inr (xs ! nat i)
      else if i < 0 \<and> - int (length xs) \<le> i then Inr (xs ! nat (int (length xs) + i))
      else Inl IndexError)"

definition bindE :: "py_error + 'a \<Rightarrow> ('a \<Rightarrow> py_error + 'b) \<Rightarrow> py_error + 'b" where
  "bindE m f = (case m of Inl e \<Rightarrow> Inl e | Inr x \<Rightarrow> f x)"

text \<open>A loop whose body can raise, over a list, carrying a state.\<close>

fun foldE :: "('a \<Rightarrow> 's \<Rightarrow> py_error + 's) \<Rightarrow> 'a list \<Rightarrow> 's \<Rightarrow> py_error + 's" where
  "foldE f [] s = Inr s"
| "foldE f (x # xs) s = (case f x s of Inl e \<Rightarrow> Inl e | Inr s' \<Rightarrow> foldE f xs s')"

text \<open>\<open>teacher.lessons\<close>, the back reference of \<open>lesson.teachers\<close>.\<close>

definition teacher_lessons :: "orm \<Rightarrow> teacher \<Rightarrow> lesson list" where
  "teacher_lessons om te = filter (\<lambda>l. teacher_id te \<in> set (teachers l)) (getLessons om)"

section \<open>HardConstraints.py: the lecture limits of a teacher\<close>

subsection \<open>addMaxLecturesAsBlockTeacherConstraints\<close>

text \<open>The lists of forbidden day patterns, as the source writes them.\<close>

definition max5_maxblock_4 :: "int list list" where
  "max5_maxblock_4 = [[1, 1, 1, 1, 1, 0], [0, 1, 1, 1, 1, 1]]"

definition max4_maxblock_3 :: "int list list" where
  "max4_maxblock_3 = [[1, 1, 1, 1, 0, 0], [0, 1, 1, 1, 1, 0], [0, 0, 1, 1, 1, 1]]"

definition max5_maxblock_3 :: "int list list" where
  "max5_maxblock_3 =
     [[1, 1, 1, 1, 0, 1], [1, 0, 1, 1, 1, 1]] @ max4_maxblock_3 @ max5_maxblock_4"

definition max3_maxblock_2 :: "int list list" where
  "max3_maxblock_2 =
     [[1, 1, 1, 0, 0, 0], [0, 1, 1, 1, 0, 0], [0, 0, 1, 1, 1, 0], [0, 0, 0, 1, 1, 1]]"

definition max4_maxblock_2 :: "int list list" where
  "max4_maxblock_2 =
     [[1, 1, 1, 0, 1, 0], [1, 1, 1, 0, 0, 1], [0, 1, 1, 1, 0, 1], [1, 0, 1, 1, 1, 0],
      [0, 1, 0, 1, 1, 1], [1, 0, 0, 1, 1, 1], [1, 0, 0, 1, 1, 1]]
     @ max3_maxblock_2 @ max4_maxblock_3"

definition max2_maxblock_1 :: "int list list" where
  "max2_maxblock_1 =
     [[1, 1, 0, 0, 0, 0], [0, 1, 1, 0, 0, 0], [0, 0, 1, 1, 0, 0], [0, 0, 0, 1, 1, 0],
      [0, 0, 0, 0, 1, 1]]"

definition max3_maxblock_1 :: "int list list" where
  "max3_maxblock_1 =
     [[1, 1, 0, 1, 0, 0], [1, 1, 0, 0, 1, 0], [1, 1, 0, 0, 0, 1], [0, 1, 1, 0, 1, 0],
      [0, 1, 1, 0, 0, 1], [1, 0, 1, 1, 0, 0], [0, 0, 1, 1, 0, 1], [0, 1, 0, 1, 1, 0],
      [1, 0, 0, 1, 1, 0], [0, 0, 1, 0, 1, 1], [0, 1, 0, 0, 1, 1], [1, 0, 0, 0, 1, 1]]
     @ max2_maxblock_1 @ max3_maxblock_2"

text \<open>
  The body of the loop over the teachers, up to the posting of the constraints, is a chain
  of \<open>if\<close> statements that change the teacher and choose \<open>forbidden_assignments\<close>:
  \<^verbatim>\<open>
        forbidden_assignments = []
        if teacher.max_lectures_as_block > teacher.max_lectures_per_day:
            teacher.max_lectures_as_block = teacher.max_lectures_per_day
        if teacher.max_lectures_per_day == 6:
            if teacher.max_lectures_as_block != 6:
                teacher.max_lectures_per_day = 5
        if teacher.max_lectures_per_day == 5:
            if teacher.max_lectures_as_block == 4:
                forbidden_assignments = max5_maxblock_4
            elif teacher.max_lectures_as_block == 3:
                forbidden_assignments = max5_maxblock_3
            elif teacher.max_lectures_as_block < 3:
                teacher.max_lectures_per_day = 4
        if teacher.max_lectures_per_day == 4:
            if teacher.max_lectures_as_block == 3:
                forbidden_assignments = max4_maxblock_3
            elif teacher.max_lectures_as_block == 2:
                forbidden_assignments = max4_maxblock_2
            elif teacher.max_lectures_as_block < 2:
                teacher.max_lectures_per_day = 3
        if teacher.max_lectures_per_day == 3:
            if teacher.max_lectures_as_block == 2:
                forbidden_assignments = max3_maxblock_2
            elif teacher.max_lectures_as_block == 1:
                forbidden_assignments = max3_maxblock_1
        if teacher.max_lectures_per_day == 2:
            if teacher.max_lectures_as_block == 1:
                forbidden_assignments = max2_maxblock_1
  \<close>
  Each statement is a function on the pair of the teacher and \<open>forbidden_assignments\<close>.
\<close>

definition reduce_block :: "teacher \<times> int list list \<Rightarrow> teacher \<times> int list list" where
  "reduce_block s =
     (case s of (te, fa) \<Rightarrow>
        if max_lectures_as_block te > max_lectures_per_day te
        then (te\<lparr>max_lectures_as_block := max_lectures_per_day te\<rparr>, fa)
        else (te, fa))"

definition per_day_6 :: "teacher \<times> int list list \<Rightarrow> teacher \<times> int list list" where
  "per_day_6 s =
     (case s of (te, fa) \<Rightarrow>
        if max_lectures_per_day te = 6
        then (if max_lectures_as_block te \<noteq> 6 then (te\<lparr>max_lectures_per_day := 5\<rparr>, fa)
              else (te, fa))
        else (te, fa))"

definition per_day_5 :: "teacher \<times> int list list \<Rightarrow> teacher \<times> int list list" where
  "per_day_5 s =
     (case s of (te, fa) \<Rightarrow>
        if max_lectures_per_day te = 5
        then (if max_lectures_as_block te = 4 then (te, max5_maxblock_4)
              else if max_lectures_as_block te = 3 then (te, max5_maxblock_3)
              else if max_lectures_as_block te < 3 then (te\<lparr>max_lectures_per_day := 4\<rparr>, fa)
              else (te, fa))
        else (te, fa))"

definition per_day_4 :: "teacher \<times> int list list \<Rightarrow> teacher \<times> int list list" where
  "per_day_4 s =
     (case s of (te, fa) \<Rightarrow>
        if max_lectures_per_day te = 4
        then (if max_lectures_as_block te = 3 then (te, max4_maxblock_3)
              else if max_lectures_as_block te = 2 then (te, max4_maxblock_2)
              else if max_lectures_as_block te < 2 then (te\<lparr>max_lectures_per_day := 3\<rparr>, fa)
              else (te, fa))
        else (te, fa))"

definition per_day_3 :: "teacher \<times> int list list \<Rightarrow> teacher \<times> int list list" where
  "per_day_3 s =
     (case s of (te, fa) \<Rightarrow>
        if max_lectures_per_day te = 3
        then (if max_lectures_as_block te = 2 then (te, max3_maxblock_2)
              else if max_lectures_as_block te = 1 then (te, max3_maxblock_1)
              else (te, fa))
        else (te, fa))"

definition per_day_2 :: "teacher \<times> int list list \<Rightarrow> teacher \<times> int list list" where
  "per_day_2 s =
     (case s of (te, fa) \<Rightarrow>
        if max_lectures_per_day te = 2
        then (if max_lectures_as_block te = 1 then (te, max2_maxblock_1) else (te, fa))
        else (te, fa))"

definition reduce_teacher :: "teacher \<Rightarrow> teacher \<times> int list list" where
  "reduce_teacher te =
     per_day_2 (per_day_3 (per_day_4 (per_day_5 (per_day_6 (reduce_block (te, []))))))"

text \<open>
  \<^verbatim>\<open>
        if forbidden_assignments:  # Skip empty list. No Constraint necessary.
            for day in orm.getTimeslotsPerDay():
                boolVarList = list(map(lambda t: teacher.timeslotLectureBoolMap[t], day))
                model.AddForbiddenAssignments(boolVarList, tuple(forbidden_assignments))
  \<close>
  \<open>block_constraints\<close> is the list of the constraints this posts for one teacher.
\<close>

definition boolVarList :: "build \<Rightarrow> teacher \<Rightarrow> timeslot list \<Rightarrow> py_error + var list" where
  "boolVarList b te day =
     mapE (\<lambda>t. bindE (getattr (timeslotLectureBoolMap b (teacher_id te)))
                  (\<lambda>m. lookup_ts m t)) day"

definition block_constraints ::
  "build \<Rightarrow> orm \<Rightarrow> teacher \<Rightarrow> int list list \<Rightarrow> py_error + constr list" where
  "block_constraints b om te forbidden_assignments =
     (if forbidden_assignments \<noteq> []
      then mapE (\<lambda>day. bindE (boolVarList b te day)
                   (\<lambda>vs. Inr (ForbiddenAssignments vs forbidden_assignments)))
             (getTimeslotsPerDay om)
      else Inr [])"

text \<open>
  One round of the loop over the teachers: the teacher as the round leaves it, and the
  model with the constraints of the round. The whole function returns the model and the
  ORM with the teachers as the rounds left them.
\<close>

definition block_teacher_round ::
  "orm \<Rightarrow> teacher \<Rightarrow> build \<times> teacher list \<Rightarrow> py_error + build \<times> teacher list" where
  "block_teacher_round om te s =
     (case s of (b, finished) \<Rightarrow>
        (case reduce_teacher te of (te', forbidden_assignments) \<Rightarrow>
           bindE (block_constraints b om te' forbidden_assignments)
             (\<lambda>cs. Inr (b\<lparr>constraints := constraints b @ cs\<rparr>, finished @ [te']))))"

definition addMaxLecturesAsBlockTeacherConstraints ::
  "build \<Rightarrow> orm \<Rightarrow> py_error + build \<times> orm" where
  "addMaxLecturesAsBlockTeacherConstraints b om =
     bindE (foldE (block_teacher_round om) (getTeachers om) (b, []))
       (\<lambda>(b', tes). Inr (b', om\<lparr>getTeachers := tes\<rparr>))"

subsection \<open>addMaxLecturesPerDayTeacherConstraints\<close>

text \<open>
  \<^verbatim>\<open>
    for teacher in orm.getTeachers():
        lecturesForTeacher = set()
        nonSameTimeLectures = [x for x in teacher.lessons
                               if x.course.is_lecture and not x.lessons_at_same_time]
        lecturesForTeacher.update(nonSameTimeLectures)
        for sameTimeSet in orm.getLessonsAtSameTimeSets():
            lectures = [l for l in sameTimeSet if l in teacher.lessons and l.course.is_lecture]
            if lectures:  # Only if list not empty, append longest lesson.
                lecturesForTeacher.add(max(lectures, key=lambda l: l.timeslot_size))
        for dayIndex in range(orm.WEEKDAYS):
            lessonOccurrenceList = [l.timeslot_size * l.weekdayBoolVars[dayIndex]
                                    for l in lecturesForTeacher]
            model.Add(sum(lessonOccurrenceList) <= teacher.max_lectures_per_day)
  \<close>
  \<open>max(xs, key=f)\<close> returns the first element of \<open>xs\<close> with the greatest key.
\<close>

fun max_by_size :: "lesson \<Rightarrow> lesson list \<Rightarrow> lesson" where
  "max_by_size m [] = m"
| "max_by_size m (l # ls) = max_by_size (if timeslot_size l > timeslot_size m then l else m) ls"

definition lecturesForTeacher :: "orm \<Rightarrow> teacher \<Rightarrow> lesson list" where
  "lecturesForTeacher om te =
     lesson_set
       (filter (\<lambda>x. is_lecture (course x) \<and> lessons_at_same_time x = []) (teacher_lessons om te)
        @ concat (map (\<lambda>sameTimeSet.
             (case filter (\<lambda>l. lesson_in l (teacher_lessons om te) \<and> is_lecture (course l))
                     (resolve om sameTimeSet) of
                [] \<Rightarrow> []
              | l # ls \<Rightarrow> [max_by_size l ls]))
           (getLessonsAtSameTimeSets om)))"

definition lessonOccurrenceList ::
  "build \<Rightarrow> orm \<Rightarrow> teacher \<Rightarrow> nat \<Rightarrow> py_error + (int \<times> var) list" where
  "lessonOccurrenceList b om te dayIndex =
     mapE (\<lambda>l. bindE (getattr (weekdayBoolVars b (lesson_id l)))
                  (\<lambda>vs. bindE (py_index vs (int dayIndex))
                     (\<lambda>v. Inr (timeslot_size l, v))))
       (lecturesForTeacher om te)"

text \<open>
  One round of the loop over \<open>dayIndex\<close>. A product \<open>l.timeslot_size * l.weekdayBoolVars[dayIndex]\<close>
  is a linear expression of the library, but a product with the factor 0 is the integer 0.
  So when there is no product, and when every product is 0, \<open>sum(lessonOccurrenceList)\<close> is
  the Python integer 0 and the comparison with \<open>teacher.max_lectures_per_day\<close> is a Python
  Boolean; otherwise it is a bounded linear expression.
\<close>

definition add_lecture_bound :: "orm \<Rightarrow> teacher \<Rightarrow> nat \<Rightarrow> build \<Rightarrow> py_error + build" where
  "add_lecture_bound om te dayIndex b =
     bindE (lessonOccurrenceList b om te dayIndex)
       (\<lambda>ts. Inr (if list_all (\<lambda>(c, v). c = 0) ts
                  then Add_py_bool (0 \<le> max_lectures_per_day te) b
                  else Add (LinLe (Lin ts 0) (Lin [] (max_lectures_per_day te))) b))"

definition addMaxLecturesPerDayTeacherConstraints :: "build \<Rightarrow> orm \<Rightarrow> py_error + build" where
  "addMaxLecturesPerDayTeacherConstraints b om =
     foldE (\<lambda>te. foldE (add_lecture_bound om te) [0..<WEEKDAYS om]) (getTeachers om) b"

subsection \<open>The reduction of the lecture limits in the words of the specification\<close>

text \<open>
  \<open>max_lectures_as_block\<close> is set to \<open>max_lectures_per_day\<close> when it is greater; then
  \<open>max_lectures_per_day\<close> goes from 6 to 5 when the block limit is not 6, from 5 to 4 when
  the block limit is below 3, and from 4 to 3 when the block limit is below 2.
\<close>

definition spec_reduced_block :: "teacher \<Rightarrow> int" where
  "spec_reduced_block te =
     (if max_lectures_as_block te > max_lectures_per_day te then max_lectures_per_day te
      else max_lectures_as_block te)"

definition spec_reduced_per_day :: "teacher \<Rightarrow> int" where
  "spec_reduced_per_day te =
     (let blk = spec_reduced_block te;
          d6 = (if max_lectures_per_day te = 6 \<and> blk \<noteq> 6 then 5 else max_lectures_per_day te);
          d5 = (if d6 = 5 \<and> blk < 3 then 4 else d6);
          d4 = (if d5 = 4 \<and> blk < 2 then 3 else d5)
      in d4)"

definition spec_reduced_teacher :: "teacher \<Rightarrow> teacher" where
  "spec_reduced_teacher te =
     te\<lparr>max_lectures_as_block := spec_reduced_block te,
        max_lectures_per_day := spec_reduced_per_day te\<rparr>"

subsection \<open>The counted lectures in the words of the specification\<close>

text \<open>
  The lectures of a teacher; those of them that belong to a same-time set; and the counted
  set: every lecture of the teacher that is in no same-time group, and for every same-time
  set with a lecture of the teacher one longest of these lectures.
\<close>

definition teacher_lectures :: "orm \<Rightarrow> teacher \<Rightarrow> lesson set" where
  "teacher_lectures om te =
     {l \<in> set (getLessons om). teacher_id te \<in> set (teachers l) \<and> is_lecture (course l)}"

definition group_lectures :: "orm \<Rightarrow> teacher \<Rightarrow> nat list \<Rightarrow> lesson set" where
  "group_lectures om te S = {l \<in> teacher_lectures om te. lesson_id l \<in> set S}"

definition counted_lectures :: "orm \<Rightarrow> teacher \<Rightarrow> lesson set \<Rightarrow> bool" where
  "counted_lectures om te C =
     (\<exists>longest.
        (\<forall>S \<in> set (getLessonsAtSameTimeSets om). group_lectures om te S \<noteq> {} \<longrightarrow>
           longest S \<in> group_lectures om te S \<and>
           (\<forall>l \<in> group_lectures om te S. timeslot_size l \<le> timeslot_size (longest S))) \<and>
        C = {l \<in> teacher_lectures om te. lessons_at_same_time l = []} \<union>
            longest ` {S \<in> set (getLessonsAtSameTimeSets om). group_lectures om te S \<noteq> {}})"

text \<open>The weekday Boolean \<open>D\<^bsub>d\<^esub>(l)\<close> of a lesson, for the day with the index \<open>d\<close>.\<close>

definition day_var :: "build \<Rightarrow> lesson \<Rightarrow> nat \<Rightarrow> var" where
  "day_var b l d = (case weekdayBoolVars b (lesson_id l) of None \<Rightarrow> 0 | Some wbs \<Rightarrow> wbs ! d)"

text \<open>
  What the claim says of a teacher and a weekday in a model: the counted lectures have
  their weekday Booleans; unless all of them have the size 0, the model holds the
  constraint that the sum of \<open>timeslot_size * D\<^bsub>d\<^esub>\<close> over them is at most the reduced
  \<open>max_lectures_per_day\<close>; and every feasible assignment keeps that sum within the bound.
\<close>

definition lecture_bound_ok :: "orm \<Rightarrow> build \<Rightarrow> teacher \<Rightarrow> nat \<Rightarrow> lesson list \<Rightarrow> bool" where
  "lecture_bound_ok om b te d ls =
     (distinct ls \<and> counted_lectures om te (set ls) \<and>
      (\<forall>l \<in> set ls. \<exists>wbs. weekdayBoolVars b (lesson_id l) = Some wbs \<and> d < length wbs) \<and>
      ((\<exists>l \<in> set ls. timeslot_size l \<noteq> 0) \<longrightarrow>
         LinLe (Lin (map (\<lambda>l. (timeslot_size l, day_var b l d)) ls) 0)
               (Lin [] (spec_reduced_per_day te)) \<in> set (constraints b)) \<and>
      (\<forall>a. feasible b a \<longrightarrow>
         (\<Sum>l\<leftarrow>ls. timeslot_size l * a (day_var b l d)) \<le> spec_reduced_per_day te))"

text \<open>
  What a round of the loop over the days leaves in the model for the products \<open>ts\<close> and the
  bound \<open>n\<close>: a constraint that is the linear inequality unless all factors are 0, and
  that holds only where the sum of the products is at most \<open>n\<close>.
\<close>

definition bounds_sum :: "constr \<Rightarrow> (int \<times> var) list \<Rightarrow> int \<Rightarrow> bool" where
  "bounds_sum c ts n =
     (((\<exists>t \<in> set ts. fst t \<noteq> 0) \<longrightarrow> c = LinLe (Lin ts 0) (Lin [] n)) \<and>
      (\<forall>a. holds a c \<longrightarrow> eval_lin a (Lin ts 0) \<le> n))"

section \<open>Attached variables for timetable A, and two more teachers\<close>

text \<open>
  A builder state for the entities of timetable A: fifty Boolean variables; the lesson
  with id \<open>i\<close> has the weekday Booleans \<open>5 * (i - 1)\<close> to \<open>5 * (i - 1) + 4\<close>, and the
  teacher has the lecture-at-slot Booleans 20 to 49 for the timeslots 1 to 30.
\<close>

definition build_A :: build where
  "build_A =
     empty_build
       \<lparr>var_domains := replicate 50 [0, 1],
        weekdayBoolVars := (\<lambda>i. if 1 \<le> i \<and> i \<le> 4 then Some [5 * (i - 1)..<5 * i] else None),
        timeslotLectureBoolMap := (\<lambda>i. if i = 1 then Some (zip week_slots [20..<50]) else None)\<rparr>"

text \<open>A teacher who allows six lectures a day, two in a row, and one who allows four and three.\<close>

definition teacher_6_2 :: teacher where
  "teacher_6_2 = default_teacher\<lparr>max_lectures_per_day := 6, max_lectures_as_block := 2\<rparr>"

definition teacher_4_3 :: teacher where
  "teacher_4_3 = default_teacher\<lparr>max_lectures_per_day := 4, max_lectures_as_block := 3\<rparr>"

subsection \<open>The lecture-at-slot Booleans of a day, and a day pattern\<close>

text \<open>
  The lecture-at-slot Booleans of a teacher for the timeslots of a day: the entries of the
  teacher's \<open>timeslotLectureBoolMap\<close> for these timeslots, in their order.
\<close>

definition lecture_slot_bools :: "build \<Rightarrow> teacher \<Rightarrow> timeslot list \<Rightarrow> var list \<Rightarrow> bool" where
  "lecture_slot_bools b te day vs =
     (\<exists>m. timeslotLectureBoolMap b (teacher_id te) = Some m \<and>
          list_all2 (\<lambda>t v. lookup_ts m t = Inr v) day vs)"

text \<open>
  An assignment for the variables of timetable A: the teacher holds lectures in the
  Monday hours 1 to 4 and 6, and none on the other days.
\<close>

definition pattern_111101 :: "var \<Rightarrow> int" where
  "pattern_111101 v = (if v \<in> {20, 21, 22, 23, 25} then 1 else 0)"

section \<open>HardConstraints.py: addTeacherStudyDayConstraints\<close>

text \<open>
  \<^verbatim>\<open>
    def getWeekdayID(weekday: String) -> int:
        days = {MONDAY: 1, TUESDAY: 2, WEDNESDAY: 3, THURSDAY: 4, FRIDAY: 5}
        return days[weekday]

    def hasStudyday(self):
        return self.study_day_1 is not None and self.study_day_2 is not None
  \<close>
\<close>

definition getWeekdayID :: "string \<Rightarrow> py_error + int" where
  "getWeekdayID w =
     (case map_of [(''MO'', 1), (''TU'', 2), (''WE'', 3), (''TH'', 4), (''FR'', 5)] w of
        None \<Rightarrow> Inl KeyError
      | Some i \<Rightarrow> Inr i)"

definition hasStudyday :: "teacher \<Rightarrow> bool" where
  "hasStudyday te = (study_day_1 te \<noteq> None \<and> study_day_2 te \<noteq> None)"

text \<open>
  \<^verbatim>\<open>
    for teacher in filter(lambda t: t.hasStudyday(), orm.getTeachers()):
        studyDay1ID = Timeslot.getWeekdayID(teacher.study_day_1)
        studyDay2ID = Timeslot.getWeekdayID(teacher.study_day_2)
        if len(teacher.lessons) > 0:
            teacher.studyDay1BoolVar = model.NewBoolVar("")
            teacher.studyDay2BoolVar = model.NewBoolVar("") if \
                studyDay1ID != studyDay2ID else teacher.studyDay1BoolVar
            for lesson in teacher.lessons:
                model.Add(studyDay1ID != lesson.weekdayVar).OnlyEnforceIf(teacher.studyDay1BoolVar)
                if studyDay1ID != studyDay2ID:
                    model.Add(studyDay2ID != lesson.weekdayVar).OnlyEnforceIf(teacher.studyDay2BoolVar)
            model.AddBoolOr([teacher.studyDay1BoolVar, teacher.studyDay2BoolVar])
  \<close>
  \<open>study_lesson_constraints\<close> is one round of the loop over the lessons,
  \<open>study_teacher_round\<close> one round of the loop over the teachers. The loop runs over the
  teachers with both study days set; for any other teacher the round does nothing.
\<close>

definition study_lesson_constraints ::
  "build \<Rightarrow> int \<Rightarrow> int \<Rightarrow> var \<Rightarrow> var \<Rightarrow> lesson \<Rightarrow> py_error + constr list" where
  "study_lesson_constraints b studyDay1ID studyDay2ID s1 s2 l =
     bindE (getattr (weekdayVar b (lesson_id l)))
       (\<lambda>w. Inr (OnlyEnforceIf (LinNe (Lin [] studyDay1ID) (Lin [(1, w)] 0)) (Pos s1)
                 # (if studyDay1ID \<noteq> studyDay2ID
                    then [OnlyEnforceIf (LinNe (Lin [] studyDay2ID) (Lin [(1, w)] 0)) (Pos s2)]
                    else [])))"

definition study_teacher_round :: "orm \<Rightarrow> teacher \<Rightarrow> build \<Rightarrow> py_error + build" where
  "study_teacher_round om te b =
     (case study_day_1 te of
        None \<Rightarrow> Inr b
      | Some d1 \<Rightarrow>
     (case study_day_2 te of
        None \<Rightarrow> Inr b
      | Some d2 \<Rightarrow>
          bindE (getWeekdayID d1) (\<lambda>studyDay1ID.
          bindE (getWeekdayID d2) (\<lambda>studyDay2ID.
            if length (teacher_lessons om te) > 0
            then
              (let (s1, b1) = NewBoolVar b;
                   (s2, b2) = (if studyDay1ID \<noteq> studyDay2ID then NewBoolVar b1 else (s1, b1));
                   b3 = b2\<lparr>studyDay1BoolVar := (studyDay1BoolVar b2)(teacher_id te \<mapsto> s1),
                           studyDay2BoolVar := (studyDay2BoolVar b2)(teacher_id te \<mapsto> s2)\<rparr>
               in bindE (mapE (study_lesson_constraints b3 studyDay1ID studyDay2ID s1 s2)
                           (teacher_lessons om te))
                    (\<lambda>css. Inr (Add (BoolOr [Pos s1, Pos s2])
                                 (b3\<lparr>constraints := constraints b3 @ concat css\<rparr>))))
            else Inr b))))"

definition addTeacherStudyDayConstraints :: "build \<Rightarrow> orm \<Rightarrow> py_error + build" where
  "addTeacherStudyDayConstraints b om =
     foldE (study_teacher_round om) (filter hasStudyday (getTeachers om)) b"

text \<open>
  A teacher of timetable A who chooses Monday and Friday as study days, and a builder
  state in which the four lessons have the weekday variables 0 to 3.
\<close>

definition teacher_MO_FR :: teacher where
  "teacher_MO_FR = default_teacher\<lparr>study_day_1 := Some ''MO'', study_day_2 := Some ''FR''\<rparr>"

definition build_S :: build where
  "build_S =
     empty_build
       \<lparr>var_domains := replicate 4 [1, 2, 3, 4, 5],
        weekdayVar := (\<lambda>i. if 1 \<le> i \<and> i \<le> 4 then Some (i - 1) else None)\<rparr>"

section \<open>SoftConstraints.py and SoftConstraintWeights.py: the hour penalties of the objective\<close>

definition PREFER_FIRST_STUDYDAY_PENALTY :: int where
  "PREFER_FIRST_STUDYDAY_PENALTY = 30"

definition SIXTH_HOUR_PENALTY :: int where
  "SIXTH_HOUR_PENALTY = 5"

definition FIFTH_HOUR_PENALTY :: int where
  "FIFTH_HOUR_PENALTY = 3"

definition FIRST_HOUR_PENALTY :: int where
  "FIRST_HOUR_PENALTY = 2"

text \<open>
  \<^verbatim>\<open>
  def addCountLessonsAtNthHour(model: CpModel, orm, timeslotNumber):
      nthHourCount = model.NewIntVar(0, len(orm.getLessons()), "nthHourCount")
      boolVars = []
      for lesson in orm.getLessons():
          for timeslot in [t for t in orm.getTimeslots() if t.number == timeslotNumber]:
              boolVars.append(lesson.timeslotBoolVars[timeslot.id - 1])
      model.Add(nthHourCount == LinearExpr.Sum(boolVars))
      return nthHourCount
  \<close>
  \<open>hour_boolVars\<close> is the list \<open>boolVars\<close> after the two loops.
\<close>

definition hour_boolVars :: "build \<Rightarrow> orm \<Rightarrow> int \<Rightarrow> py_error + var list" where
  "hour_boolVars b om timeslotNumber =
     bindE (mapE (\<lambda>l. mapE (\<lambda>t. bindE (getattr (timeslotBoolVars b (lesson_id l)))
                                    (\<lambda>bs. py_index bs (ts_id t - 1)))
                          (filter (\<lambda>t. number t = timeslotNumber) (getTimeslots om)))
             (getLessons om))
       (\<lambda>vss. Inr (concat vss))"

definition addCountLessonsAtNthHour :: "build \<Rightarrow> orm \<Rightarrow> int \<Rightarrow> py_error + var \<times> build" where
  "addCountLessonsAtNthHour b om timeslotNumber =
     (case NewIntVar 0 (int (length (getLessons om))) b of (nthHourCount, b1) \<Rightarrow>
        bindE (hour_boolVars b1 om timeslotNumber)
          (\<lambda>boolVars. Inr (nthHourCount,
             Add (LinEq (Lin [(1, nthHourCount)] 0) (Lin (map (\<lambda>v. (1, v)) boolVars) 0)) b1)))"

text \<open>
  A summand of the objective: a variable times a weight, or the negation of a Boolean
  variable (\<open>b.Not()\<close>) times a weight.
\<close>

datatype summand = Weighted var int | WeightedNot var int

fun eval_summand :: "(var \<Rightarrow> int) \<Rightarrow> summand \<Rightarrow> int" where
  "eval_summand a (Weighted v w) = a v * w"
| "eval_summand a (WeightedNot v w) = (1 - a v) * w"

text \<open>
  \<^verbatim>\<open>
  def createObjectiveFunctionSummands(model: CpModel, orm):
      summands = []
      for teacher in filter(lambda t: t.hasStudyday() and t.lessons, orm.getTeachers()):
          summands.append(teacher.studyDay1BoolVar.Not() * PREFER_FIRST_STUDYDAY_PENALTY)
      sixthHourCount = addCountLessonsAtNthHour(model, orm, 6)
      summands.append(sixthHourCount * SIXTH_HOUR_PENALTY)
      fifthHourCount = addCountLessonsAtNthHour(model, orm, 5)
      summands.append(fifthHourCount * FIFTH_HOUR_PENALTY)
      firstHourCount = addCountLessonsAtNthHour(model, orm, 1)
      summands.append(firstHourCount * FIRST_HOUR_PENALTY)
      addCountGapsVariables(model, orm)
      ...
      return summands, sixthHourCount, fifthHourCount, firstHourCount
  \<close>
  After the three hour counts the function calls \<open>addCountGapsVariables\<close>,
  \<open>addGapBetweenDaysTeacherVariables\<close> and \<open>addFreeDaySemesterGroupVariables\<close> and appends
  their summands. These three only create variables and add constraints; what they add
  is the parameter \<open>rest\<close>: the domains of the new variables, the new constraints and the
  summands.
\<close>

definition study_day_summands :: "build \<Rightarrow> orm \<Rightarrow> py_error + summand list" where
  "study_day_summands b om =
     mapE (\<lambda>te. bindE (getattr (studyDay1BoolVar b (teacher_id te)))
                  (\<lambda>v. Inr (WeightedNot v PREFER_FIRST_STUDYDAY_PENALTY)))
       (filter (\<lambda>t. hasStudyday t \<and> teacher_lessons om t \<noteq> []) (getTeachers om))"

definition createObjectiveFunctionSummands ::
  "(build \<Rightarrow> py_error + int list list \<times> constr list \<times> summand list) \<Rightarrow> build \<Rightarrow> orm
     \<Rightarrow> py_error + (summand list \<times> var \<times> var \<times> var) \<times> build" where
  "createObjectiveFunctionSummands rest b om =
     bindE (study_day_summands b om) (\<lambda>summands.
     bindE (addCountLessonsAtNthHour b om 6) (\<lambda>(sixthHourCount, b6).
     bindE (addCountLessonsAtNthHour b6 om 5) (\<lambda>(fifthHourCount, b5).
     bindE (addCountLessonsAtNthHour b5 om 1) (\<lambda>(firstHourCount, b1).
     bindE (rest b1) (\<lambda>(new_domains, new_constraints, new_summands).
       Inr ((summands
               @ [Weighted sixthHourCount SIXTH_HOUR_PENALTY,
                  Weighted fifthHourCount FIFTH_HOUR_PENALTY,
                  Weighted firstHourCount FIRST_HOUR_PENALTY]
               @ new_summands,
             sixthHourCount, fifthHourCount, firstHourCount),
            b1\<lparr>var_domains := var_domains b1 @ new_domains,
               constraints := constraints b1 @ new_constraints\<rparr>))))))"

text \<open>
  TimeTabling.py sets the objective only when the search optimizes:
  \<^verbatim>\<open>
    SEARCH_ALL = False
    SEARCH_FOR_INVALIDS = False
    ...
    if OPTIMIZE and not SEARCH_FOR_INVALIDS and not SEARCH_ALL:
        summands, sixthCount, fifthCount, firstCount = createObjectiveFunctionSummands(model, orm)
        model.Minimize(LinearExpr.Sum(summands))
  \<close>
  The objective is the list of the summands of the sum that is minimized, or \<open>None\<close>.
\<close>

definition SEARCH_ALL :: bool where
  "SEARCH_ALL = False"

definition SEARCH_FOR_INVALIDS :: bool where
  "SEARCH_FOR_INVALIDS = False"

definition set_objective ::
  "bool \<Rightarrow> (build \<Rightarrow> py_error + int list list \<times> constr list \<times> summand list) \<Rightarrow> build \<Rightarrow> orm
     \<Rightarrow> py_error + build \<times> summand list option" where
  "set_objective OPTIMIZE rest b om =
     (if OPTIMIZE \<and> \<not> SEARCH_FOR_INVALIDS \<and> \<not> SEARCH_ALL
      then bindE (createObjectiveFunctionSummands rest b om)
             (\<lambda>(r, b'). Inr (b', Some (fst r)))
      else Inr (b, None))"

text \<open>
  \<open>is_slot_bool b l t v\<close>: the variable \<open>v\<close> is \<open>l.timeslotBoolVars[t.id - 1]\<close>.
  \<open>hour_slot_bools b om n vss\<close>: the list \<open>vss\<close> holds, for every lesson in the order of
  \<open>orm.getLessons()\<close>, the list of these variables for the timeslots whose number in the
  day is \<open>n\<close>, in the order of \<open>orm.getTimeslots()\<close>.
\<close>

definition is_slot_bool :: "build \<Rightarrow> lesson \<Rightarrow> timeslot \<Rightarrow> var \<Rightarrow> bool" where
  "is_slot_bool b l t v =
     (case timeslotBoolVars b (lesson_id l) of
        None \<Rightarrow> False
      | Some bs \<Rightarrow> py_index bs (ts_id t - 1) = Inr v)"

definition hour_slot_bools :: "build \<Rightarrow> orm \<Rightarrow> int \<Rightarrow> var list list \<Rightarrow> bool" where
  "hour_slot_bools b om n vss =
     list_all2 (\<lambda>l vs. list_all2 (is_slot_bool b l)
                          (filter (\<lambda>t. number t = n) (getTimeslots om)) vs)
       (getLessons om) vss"

text \<open>
  A builder state for timetable A in which the lesson with id \<open>i\<close> has the thirty per-slot
  Booleans \<open>30 * (i - 1)\<close> to \<open>30 * (i - 1) + 29\<close>.
\<close>

definition build_T :: build where
  "build_T =
     empty_build
       \<lparr>var_domains := replicate 120 [0, 1],
        timeslotBoolVars := (\<lambda>i. if 1 \<le> i \<and> i \<le> 4 then Some [30 * (i - 1)..<30 * i] else None)\<rparr>"

section \<open>HardConstraints.py: createLessonTimeAndRoomVariables\<close>

text \<open>
  \<^verbatim>\<open>
  def intersectAll(iterables):
      it = iter(iterables)
      firstSet = set(next(it))
      for i in it:
          firstSet.intersection_update(i)
      return firstSet
  \<close>
  \<open>next\<close> of an exhausted iterator raises StopIteration. The result is a set; it is listed
  in the order of the first iterable, without repetitions.
\<close>

fun intersectAll :: "timeslot list list \<Rightarrow> py_error + timeslot list" where
  "intersectAll [] = Inl StopIteration"
| "intersectAll (first # others) =
     Inr (filter (\<lambda>t. list_all (\<lambda>i. t \<in> set i) others) (remdups first))"

text \<open>
  The inner loop of the function, over \<open>i\<close> in \<open>range(0, maxLessonSize)\<close>:
  \<^verbatim>\<open>
                lastTimeVar = None
                for i in range(0, maxLessonSize):
                    lessonsWithCurrentSize = list(filter(lambda l: l.timeslot_size > i,
                                                         lessonsSameTime))
                    availableTimeslots = intersectAll(map(lambda l: l.availableTimeslotsFiltered,
                                                          lessonsWithCurrentSize))
                    lastPossibleTimeslotNumber = TIMESLOTS_PER_DAY - maxLessonSize + i + 1
                    timeslots = list(filter(lambda t: t.number <= lastPossibleTimeslotNumber,
                                            availableTimeslots))
                    timeDomain = Domain.FromValues(map(lambda t: t.id, timeslots))
                    timeVar = model.NewIntVarFromDomain(timeDomain, "Lesson timeVar ...")
                    for lessonSameTime in lessonsWithCurrentSize:
                        lessonSameTime.timeVars.append(timeVar)
                    if lastTimeVar:
                        model.Add(timeVar == lastTimeVar + 1)
                    lastTimeVar = timeVar
  \<close>
  \<open>append_timeVar\<close> is \<open>lesson.timeVars.append(timeVar)\<close>; every lesson it is called for
  has had its \<open>timeVars\<close> set to the empty list before the loop.
\<close>

definition append_timeVar :: "var \<Rightarrow> lesson \<Rightarrow> (nat \<Rightarrow> var list option) \<Rightarrow> nat \<Rightarrow> var list option" where
  "append_timeVar v l tv =
     tv(lesson_id l \<mapsto> (case tv (lesson_id l) of None \<Rightarrow> [v] | Some vs \<Rightarrow> vs @ [v]))"

definition time_domain :: "int \<Rightarrow> int \<Rightarrow> nat \<Rightarrow> timeslot list \<Rightarrow> int list" where
  "time_domain tpd maxLessonSize i availableTimeslots =
     map ts_id (filter (\<lambda>t. number t \<le> tpd - maxLessonSize + int i + 1) availableTimeslots)"

fun time_vars_loop ::
  "int \<Rightarrow> int \<Rightarrow> lesson list \<Rightarrow> nat list \<Rightarrow> var option \<Rightarrow> build \<Rightarrow> py_error + build" where
  "time_vars_loop tpd maxLessonSize lessonsSameTime [] lastTimeVar b = Inr b"
| "time_vars_loop tpd maxLessonSize lessonsSameTime (i # is) lastTimeVar b =
     (case intersectAll (map availableTimeslotsFiltered
                          (filter (\<lambda>l. timeslot_size l > int i) lessonsSameTime)) of
        Inl e \<Rightarrow> Inl e
      | Inr availableTimeslots \<Rightarrow>
          (case NewIntVarFromDomain (time_domain tpd maxLessonSize i availableTimeslots) b of
             (timeVar, b1) \<Rightarrow>
               time_vars_loop tpd maxLessonSize lessonsSameTime is (Some timeVar)
                 ((case lastTimeVar of
                     None \<Rightarrow> (\<lambda>x. x)
                   | Some lv \<Rightarrow> Add (LinEq (Lin [(1, timeVar)] 0) (Lin [(1, lv)] 1)))
                  (b1\<lparr>timeVars := fold (append_timeVar timeVar)
                                      (filter (\<lambda>l. timeslot_size l > int i) lessonsSameTime)
                                      (timeVars b1)\<rparr>))))"

text \<open>
  One round of the loop over the lessons of a course:
  \<^verbatim>\<open>
        for lesson in course.lessons:
            lesson.roomVar = model.NewIntVarFromDomain(roomDomain, "Course roomVar ...")
            if not hasattr(lesson, "timeVars"):
                lessonsSameTime = [lesson] + lesson.lessons_at_same_time
                maxLessonSize = max(map(lambda l: l.timeslot_size, lessonsSameTime))
                for l in lessonsSameTime:
                    l.timeVars = []  # Create timeVar list for each Lesson.
                ...
  \<close>
\<close>

definition lessonsSameTime :: "orm \<Rightarrow> lesson \<Rightarrow> lesson list" where
  "lessonsSameTime om l = l # resolve om (lessons_at_same_time l)"

definition maxLessonSize :: "orm \<Rightarrow> lesson \<Rightarrow> int" where
  "maxLessonSize om l = max_list (map timeslot_size (lessonsSameTime om l))"

definition time_vars_lesson :: "orm \<Rightarrow> int list \<Rightarrow> lesson \<Rightarrow> build \<Rightarrow> py_error + build" where
  "time_vars_lesson om roomDomain l b =
     (case NewIntVarFromDomain roomDomain b of
        (rv, b1) \<Rightarrow>
          (let b2 = b1\<lparr>roomVar := (roomVar b1)(lesson_id l \<mapsto> rv)\<rparr> in
           if timeVars b2 (lesson_id l) = None
           then time_vars_loop (TIMESLOTS_PER_DAY om) (maxLessonSize om l) (lessonsSameTime om l)
                  [0..<nat (maxLessonSize om l)] None
                  (b2\<lparr>timeVars := fold (\<lambda>x tv. tv(lesson_id x \<mapsto> [])) (lessonsSameTime om l)
                                      (timeVars b2)\<rparr>)
           else Inr b2))"

text \<open>
  \<^verbatim>\<open>
    for course in orm.getCourses():
        roomDomain = Domain.FromValues(map(lambda r: r.id, course.possible_rooms))
        for lesson in course.lessons:
            ...
  \<close>
\<close>

definition time_vars_course :: "orm \<Rightarrow> course \<Rightarrow> build \<Rightarrow> py_error + build" where
  "time_vars_course om c b =
     foldE (time_vars_lesson om (map int (possible_rooms c))) (resolve om (lessons c)) b"

definition createLessonTimeAndRoomVariables :: "build \<Rightarrow> orm \<Rightarrow> py_error + build" where
  "createLessonTimeAndRoomVariables b om = foldE (time_vars_course om) (getCourses om) b"

subsection \<open>The start-slot variables in the words of the specification\<close>

text \<open>
  The admissible slot ids of the \<open>i\<close>-th start-slot variable of a lesson: the ids of the
  timeslots that are among the filtered available timeslots of every member of the
  lesson's same-time group with a size above \<open>i\<close>, and whose number in the day is at most
  \<open>TIMESLOTS_PER_DAY - max_size + i + 1\<close>, for \<open>max_size\<close> the greatest size in the group.
\<close>

definition group_domain :: "int \<Rightarrow> lesson list \<Rightarrow> nat \<Rightarrow> int set" where
  "group_domain tpd g i =
     ts_id ` {t. (\<forall>m \<in> set g. timeslot_size m > int i \<longrightarrow> t \<in> set (availableTimeslotsFiltered m)) \<and>
                 number t \<le> tpd - Max (timeslot_size ` set g) + int i + 1}"

definition spec_time_domain :: "orm \<Rightarrow> lesson \<Rightarrow> nat \<Rightarrow> int set" where
  "spec_time_domain om l i = group_domain (TIMESLOTS_PER_DAY om) (lessonsSameTime om l) i"

text \<open>
  What the claim says of the start-slot variables \<open>vs\<close> of a lesson in a builder state:
  there are \<open>timeslot_size\<close> of them, each is a variable of the model with the admissible
  slot ids as its domain, and each but the first is constrained to be its predecessor
  plus one.
\<close>

definition spec_timeVars :: "orm \<Rightarrow> build \<Rightarrow> lesson \<Rightarrow> var list \<Rightarrow> bool" where
  "spec_timeVars om b l vs =
     (length vs = nat (timeslot_size l) \<and>
      (\<forall>i < length vs. vs ! i < length (var_domains b) \<and>
                       set (var_domains b ! (vs ! i)) = spec_time_domain om l i) \<and>
      (\<forall>i. Suc i < length vs \<longrightarrow>
            LinEq (Lin [(1, vs ! Suc i)] 0) (Lin [(1, vs ! i)] 1) \<in> set (constraints b)))"

text \<open>
  The invariants of the input (section 3 of the specification): the primary keys of the
  lessons are distinct; a lesson is not in its own \<open>lessons_at_same_time\<close>, which lists no
  lesson twice; and the members of a same-time group all have the same group.
\<close>

definition wf_same_time :: "orm \<Rightarrow> bool" where
  "wf_same_time om =
     (distinct (map lesson_id (getLessons om)) \<and>
      (\<forall>l \<in> set (getLessons om).
         distinct (map lesson_id (lessonsSameTime om l)) \<and>
         (\<forall>m \<in> set (lessonsSameTime om l). set (lessonsSameTime om m) = set (lessonsSameTime om l))))"

text \<open>
  The invariant of the loop over \<open>i\<close>, before the round for \<open>i = k\<close>: every lesson of
  the group has the first \<open>k\<close> of its start-slot variables (all of them when it is
  shorter), and \<open>lastTimeVar\<close> is the variable of the round before.
\<close>

definition loop_inv :: "int \<Rightarrow> lesson list \<Rightarrow> nat \<Rightarrow> var option \<Rightarrow> build \<Rightarrow> bool" where
  "loop_inv tpd g k lastTimeVar b =
     (\<forall>m \<in> set g. \<exists>vs.
        timeVars b (lesson_id m) = Some vs \<and>
        length vs = min k (nat (timeslot_size m)) \<and>
        (\<forall>i < length vs. vs ! i < length (var_domains b) \<and>
                         set (var_domains b ! (vs ! i)) = group_domain tpd g i) \<and>
        (\<forall>i. Suc i < length vs \<longrightarrow>
              LinEq (Lin [(1, vs ! Suc i)] 0) (Lin [(1, vs ! i)] 1) \<in> set (constraints b)) \<and>
        (0 < k \<and> length vs = k \<longrightarrow> lastTimeVar = Some (vs ! (k - 1))))"

text \<open>
  What a step of the builder keeps of a state: the variables keep their numbers and
  domains, the constraints stay, and a lesson that has start-slot variables keeps having
  some.
\<close>

definition extends :: "build \<Rightarrow> build \<Rightarrow> bool" where
  "extends b b' =
     ((\<exists>ds. var_domains b' = var_domains b @ ds) \<and>
      set (constraints b) \<subseteq> set (constraints b') \<and>
      (\<forall>i. timeVars b i \<noteq> None \<longrightarrow> timeVars b' i \<noteq> None))"

text \<open>Every lesson that has start-slot variables has them as the claim says.\<close>

definition timeVars_ok :: "orm \<Rightarrow> build \<Rightarrow> bool" where
  "timeVars_ok om b =
     (\<forall>l \<in> set (getLessons om). \<forall>vs. timeVars b (lesson_id l) = Some vs \<longrightarrow> spec_timeVars om b l vs)"

text \<open>
  Timetable G: two courses with one lesson each, of two and of three timeslots, which are
  to start at the same time; the lessons may take place in every timeslot of the week.
\<close>

definition group_course :: "nat \<Rightarrow> course" where
  "group_course i =
     \<lparr>course_id = i, only_forenoon = False, all_in_one_block = False, is_lecture = False,
      one_per_day_per_teacher = False, possible_rooms = [i], semester_groups = [1],
      lessons = [i]\<rparr>"

definition group_lesson :: "nat \<Rightarrow> lesson" where
  "group_lesson i =
     \<lparr>lesson_id = i, whole_semester_group = True, timeslot_size = int i + 1,
      course = group_course i, teachers = [1], lessons_at_same_time = [3 - i],
      lessons_consecutive = [], availableTimeslotsFiltered = week_slots\<rparr>"

definition orm_G :: orm where
  "orm_G =
     \<lparr>getTeachers = [default_teacher],
      getCourses = map group_course [1, 2],
      getLessons = map group_lesson [1, 2],
      getTimeslots = week_slots,
      getTimeslotsPerDay = week_days,
      getLessonsAtSameTimeSets = [[1, 2]],
      TIMESLOTS_PER_DAY = 6,
      WEEKDAYS = 5\<rparr>"

section \<open>HardConstraints.py: createLessonTimeHelperVariables\<close>

text \<open>
  One round of the loop over the weekdays, for a lesson whose first start-slot variable
  is \<open>t0\<close>:
  \<^verbatim>\<open>
                for weekday in orm.getTimeslotsPerDay():
                    dayB = model.NewBoolVar("weekdayBool")
                    lesson.weekdayBoolVars.append(dayB)
                    bound = BoundedLinearExpression(lesson.timeVars[0],
                                                    [weekday[0].id, weekday[-1].id])
                    model.Add(bound).OnlyEnforceIf(dayB)
  \<close>
  The round carries the list \<open>lesson.weekdayBoolVars\<close> and the model; \<open>day\<close> is the
  list \<open>weekday\<close> of the timeslots of one day.
\<close>

definition weekday_bool_round ::
  "var \<Rightarrow> timeslot list \<Rightarrow> var list \<times> build \<Rightarrow> py_error + var list \<times> build" where
  "weekday_bool_round t0 day s =
     (case s of (wbs, b) \<Rightarrow>
        (case NewBoolVar b of (dayB, b1) \<Rightarrow>
           bindE (py_index day 0) (\<lambda>first_slot.
           bindE (py_index day (- 1)) (\<lambda>last_slot.
             Inr (wbs @ [dayB],
                  Add (OnlyEnforceIf
                         (InRange (Lin [(1, t0)] 0) (ts_id first_slot) (ts_id last_slot))
                         (Pos dayB)) b1)))))"

text \<open>
  One round of the loop over the lessons of a course:
  \<^verbatim>\<open>
            if not (hasattr(lesson, "weekdayVar")
                    and hasattr(lesson, "hourNumberVar")
                    and hasattr(lesson, "weekdayBoolVars")):
                lesson.weekdayVar = model.NewIntVar(1, WEEKDAYS, "")
                lesson.hourNumberVar = model.NewIntVar(1, TIMESLOTS_PER_DAY, "")
                model.Add(lesson.timeVars[0] ==
                          (lesson.weekdayVar - 1) * TIMESLOTS_PER_DAY + lesson.hourNumberVar)
                lesson.weekdayBoolVars = []
                for weekday in orm.getTimeslotsPerDay():
                    ...
                model.Add(sum(lesson.weekdayBoolVars) == 1)
                for sameTimeLesson in lesson.lessons_at_same_time:
                    sameTimeLesson.weekdayVar = lesson.weekdayVar
                    sameTimeLesson.hourNumberVar = lesson.hourNumberVar
                    sameTimeLesson.weekdayBoolVars = lesson.weekdayBoolVars
  \<close>
  The three attributes are set for the lesson and then for the lessons at the same time;
  the model sets them for the list \<open>[lesson] + lesson.lessons_at_same_time\<close> at the end of
  the round, since nothing in the round reads them.
\<close>

definition set_attr :: "lesson list \<Rightarrow> 'a \<Rightarrow> (nat \<Rightarrow> 'a option) \<Rightarrow> nat \<Rightarrow> 'a option" where
  "set_attr ls v f = fold (\<lambda>x f'. f'(lesson_id x \<mapsto> v)) ls f"

definition helper_vars_lesson :: "orm \<Rightarrow> lesson \<Rightarrow> build \<Rightarrow> py_error + build" where
  "helper_vars_lesson om l b =
     (if weekdayVar b (lesson_id l) \<noteq> None \<and> hourNumberVar b (lesson_id l) \<noteq> None \<and>
         weekdayBoolVars b (lesson_id l) \<noteq> None
      then Inr b
      else
        (case NewIntVar 1 (int (WEEKDAYS om)) b of (w, b1) \<Rightarrow>
        (case NewIntVar 1 (TIMESLOTS_PER_DAY om) b1 of (h, b2) \<Rightarrow>
           bindE (getattr (timeVars b2 (lesson_id l))) (\<lambda>tvs.
           bindE (py_index tvs 0) (\<lambda>t0.
           bindE (foldE (weekday_bool_round t0) (getTimeslotsPerDay om)
                    ([], Add (LinEq (Lin [(1, t0)] 0)
                                    (Lin [(TIMESLOTS_PER_DAY om, w), (1, h)]
                                         (- TIMESLOTS_PER_DAY om))) b2))
             (\<lambda>(wbs, b4).
                (let b5 = Add (LinEq (Lin (map (\<lambda>v. (1, v)) wbs) 0) (Lin [] 1)) b4 in
                 Inr (b5\<lparr>weekdayVar := set_attr (lessonsSameTime om l) w (weekdayVar b5),
                         hourNumberVar := set_attr (lessonsSameTime om l) h (hourNumberVar b5),
                         weekdayBoolVars :=
                           set_attr (lessonsSameTime om l) wbs (weekdayBoolVars b5)\<rparr>))))))))"

definition helper_vars_course :: "orm \<Rightarrow> course \<Rightarrow> build \<Rightarrow> py_error + build" where
  "helper_vars_course om c b = foldE (helper_vars_lesson om) (resolve om (lessons c)) b"

definition createLessonTimeHelperVariables :: "build \<Rightarrow> orm \<Rightarrow> py_error + build" where
  "createLessonTimeHelperVariables b om = foldE (helper_vars_course om) (getCourses om) b"

subsection \<open>The helper variables in the words of the specification\<close>

text \<open>
  The lessons of a same-time group have the same first start-slot variable
  (section 4.2 of the specification, same-time sharing).
\<close>

definition share_ok :: "orm \<Rightarrow> build \<Rightarrow> bool" where
  "share_ok om b =
     (\<forall>l \<in> set (getLessons om). \<forall>m \<in> set (lessonsSameTime om l). \<forall>t ts.
        timeVars b (lesson_id l) = Some (t # ts) \<longrightarrow>
        (\<exists>ts'. timeVars b (lesson_id m) = Some (t # ts')))"

text \<open>
  What the builder posts for a lesson with the weekday variable \<open>w\<close>: the hour variable
  \<open>h\<close> and the weekday Booleans \<open>wbs\<close> are attached too; \<open>w\<close> ranges over the weekdays and
  \<open>h\<close> over the hours of a day; the first start-slot variable \<open>t0\<close> equals
  \<open>(w - 1) * TIMESLOTS_PER_DAY + h\<close>; there is one Boolean for each weekday, which
  enforces that \<open>t0\<close> lies between the ids of the first and the last timeslot of that day;
  the Booleans sum to one; and every lesson of the same-time group has the same three
  variables attached.
\<close>

definition helper_spec :: "orm \<Rightarrow> build \<Rightarrow> lesson \<Rightarrow> var \<Rightarrow> var \<Rightarrow> var list \<Rightarrow> var \<Rightarrow> bool" where
  "helper_spec om b l w h wbs t0 =
     (hourNumberVar b (lesson_id l) = Some h \<and>
      weekdayBoolVars b (lesson_id l) = Some wbs \<and>
      (\<exists>ts. timeVars b (lesson_id l) = Some (t0 # ts)) \<and>
      w < length (var_domains b) \<and> set (var_domains b ! w) = {1..int (WEEKDAYS om)} \<and>
      h < length (var_domains b) \<and> set (var_domains b ! h) = {1..TIMESLOTS_PER_DAY om} \<and>
      LinEq (Lin [(1, t0)] 0)
            (Lin [(TIMESLOTS_PER_DAY om, w), (1, h)] (- TIMESLOTS_PER_DAY om))
        \<in> set (constraints b) \<and>
      length wbs = length (getTimeslotsPerDay om) \<and>
      (\<forall>d < length wbs.
         wbs ! d < length (var_domains b) \<and> set (var_domains b ! (wbs ! d)) = {0, 1} \<and>
         OnlyEnforceIf (InRange (Lin [(1, t0)] 0)
                          (ts_id (hd (getTimeslotsPerDay om ! d)))
                          (ts_id (last (getTimeslotsPerDay om ! d))))
                       (Pos (wbs ! d)) \<in> set (constraints b)) \<and>
      LinEq (Lin (map (\<lambda>v. (1, v)) wbs) 0) (Lin [] 1) \<in> set (constraints b) \<and>
      (\<forall>m \<in> set (lessonsSameTime om l).
         weekdayVar b (lesson_id m) = Some w \<and> hourNumberVar b (lesson_id m) = Some h \<and>
         weekdayBoolVars b (lesson_id m) = Some wbs))"

definition helper_ok :: "orm \<Rightarrow> build \<Rightarrow> bool" where
  "helper_ok om b =
     (\<forall>l \<in> set (getLessons om). \<forall>w. weekdayVar b (lesson_id l) = Some w \<longrightarrow>
        (\<exists>h wbs t0. helper_spec om b l w h wbs t0))"

section \<open>Properties of the command line parser\<close>

lemma prefix_TRUE_FALSE_disjoint:
  "prefix s ''TRUE'' \<Longrightarrow> prefix s ''FALSE'' \<Longrightarrow> s = []"
  by (cases s) auto

text \<open>
  Claim C10. \<open>t_or_f\<close> returns True for every argument whose upper-cased form is a prefix
  of TRUE, the empty string among them; it returns False for every non-empty argument whose
  upper-cased form is a prefix of FALSE; it raises ArgumentTypeError for every other
  argument.
\<close>

theorem t_or_f_cases:
  "(prefix (upper a) ''TRUE'' \<longrightarrow> t_or_f a = Inr True) \<and>
   t_or_f [] = Inr True \<and>
   (upper b \<noteq> [] \<and> prefix (upper b) ''FALSE'' \<longrightarrow> t_or_f b = Inr False) \<and>
   (\<not> prefix (upper c) ''TRUE'' \<and> \<not> (upper c \<noteq> [] \<and> prefix (upper c) ''FALSE'')
      \<longrightarrow> t_or_f c = Inl ArgumentTypeError)"
proof (intro conjI impI)
  assume "prefix (upper a) ''TRUE''"
  then show "t_or_f a = Inr True" by (simp add: t_or_f_def)
next
  show "t_or_f [] = Inr True" by (simp add: t_or_f_def upper_def)
next
  assume b: "upper b \<noteq> [] \<and> prefix (upper b) ''FALSE''"
  then have "\<not> prefix (upper b) ''TRUE''"
    using prefix_TRUE_FALSE_disjoint by blast
  with b show "t_or_f b = Inr False" by (simp add: t_or_f_def)
next
  assume c: "\<not> prefix (upper c) ''TRUE'' \<and> \<not> (upper c \<noteq> [] \<and> prefix (upper c) ''FALSE'')"
  then have "upper c \<noteq> []" by auto
  with c show "t_or_f c = Inl ArgumentTypeError" by (simp add: t_or_f_def)
qed

theorem t_or_f_cases_witness:
  "t_or_f ''tr'' = Inr True \<and> t_or_f ''fAl'' = Inr False \<and>
   t_or_f ''yes'' = Inl ArgumentTypeError \<and> t_or_f ''truex'' = Inl ArgumentTypeError"
  using t_or_f_cases [of "''tr''" "''fAl''" "''yes''"] t_or_f_cases [of "''tr''" "''fAl''" "''truex''"]
  by (simp add: upper_def upper_char_def)

section \<open>Properties of the solution validator\<close>

subsection \<open>The lecture block check\<close>

lemma teacher_not_among_lessons: "\<not> obj_in (TeacherObj te) (map LessonObj ls)"
  by (induction ls) (simp_all add: obj_in_def)

lemma block_timeslots_keeps:
  "block_timeslots sol te ts blocksize isValid = Inr r \<Longrightarrow> r = isValid"
proof (induction ts arbitrary: blocksize)
  case Nil
  then show ?case by simp
next
  case (Cons t ts)
  then show ?case
    by (auto simp: Let_def teacher_not_among_lessons split: sum.splits)
qed

lemma block_teachers_keeps:
  "block_teachers sol tss tes isValid = Inr r \<Longrightarrow> r = isValid"
proof (induction tes arbitrary: isValid)
  case Nil
  then show ?case by simp
next
  case (Cons te tes)
  then show ?case
    by (auto split: sum.splits dest: block_timeslots_keeps)
qed

text \<open>
  The test \<open>teacher in list(filter(...))\<close> looks for a teacher among lessons and never
  succeeds, so the check cannot return False, whatever the solution.
\<close>

lemma validateMaxLecturesAsBlockForTeacher_never_False:
  "validateMaxLecturesAsBlockForTeacher sol om \<noteq> Inr False"
  using block_teachers_keeps [of sol "getTimeslots om" "getTeachers om" True False]
  by (auto simp: validateMaxLecturesAsBlockForTeacher_def)

text \<open>
  Claim C1 says that the check returns False for every solution in which a teacher has a
  run of lectures longer than \<open>max_lectures_as_block\<close>. In timetable A the teacher, whose
  \<open>max_lectures_as_block\<close> is 2, holds lectures in four consecutive hours on Monday, and
  the check returns True.
\<close>

theorem validateMaxLecturesAsBlockForTeacher_accepts_long_block:
  "spec_lecture_block_exceeded solution_A orm_A \<and>
   validateMaxLecturesAsBlockForTeacher solution_A orm_A = Inr True"
  by code_simp

subsection \<open>The lectures-per-day check\<close>

lemma lectures_days_result:
  "lectures_days sol om te days isValid = Inr r \<Longrightarrow>
   r = (isValid \<and> (\<forall>day \<in> set days. \<exists>n. lecture_timeCount sol om te day = Inr n
                                         \<and> n \<le> max_lessons_per_day te))"
proof (induction days arbitrary: isValid)
  case Nil
  then show ?case by simp
next
  case (Cons day days)
  then show ?case
    by (auto split: sum.splits)
qed

lemma lectures_teachers_result:
  "lectures_teachers sol om tes isValid = Inr r \<Longrightarrow>
   r = (isValid \<and> (\<forall>te \<in> set tes. \<forall>day \<in> set (getTimeslotsPerDay om).
          \<exists>n. lecture_timeCount sol om te day = Inr n \<and> n \<le> max_lessons_per_day te))"
proof (induction tes arbitrary: isValid)
  case Nil
  then show ?case by simp
next
  case (Cons te tes)
  then show ?case
    by (auto split: sum.splits dest!: lectures_days_result)
qed

text \<open>
  What the check decides when it returns: the counted lecture timeslots of every teacher
  and day are compared with \<open>max_lessons_per_day\<close>.
\<close>

lemma validateMaxLecturesPerDayPerTeacher_result:
  "validateMaxLecturesPerDayPerTeacher sol om = Inr r \<Longrightarrow>
   r = (\<forall>te \<in> set (getTeachers om). \<forall>day \<in> set (getTimeslotsPerDay om).
          \<exists>n. lecture_timeCount sol om te day = Inr n \<and> n \<le> max_lessons_per_day te)"
  using lectures_teachers_result [of sol om "getTeachers om" True r]
  by (simp add: validateMaxLecturesPerDayPerTeacher_def)

text \<open>
  Claim C2 says that the check returns True exactly when no teacher has more counted
  lecture timeslots on a day than \<open>max_lectures_per_day\<close>. In timetable A the teacher has
  four counted lecture timeslots on Monday and a \<open>max_lectures_per_day\<close> of 3, and the
  check returns True: the source compares with \<open>max_lessons_per_day\<close>, which is 5.
\<close>

theorem validateMaxLecturesPerDayPerTeacher_accepts_four_lectures:
  "lecture_timeCount solution_A orm_A default_teacher (hd week_days) = Inr 4 \<and>
   max_lectures_per_day default_teacher = 3 \<and>
   max_lessons_per_day default_teacher = 5 \<and>
   validateMaxLecturesPerDayPerTeacher solution_A orm_A = Inr True"
  by code_simp

subsection \<open>The one-lesson-per-day check and validateSolution\<close>

text \<open>The check of one course never returns False: where it would, it raises.\<close>

lemma course_one_per_day_never_False: "course_one_per_day sol om c \<noteq> Inr False"
  by (auto simp: course_one_per_day_def Let_def split: sum.splits)

lemma one_per_day_courses_keeps:
  "one_per_day_courses sol om cs isValid = Inr r \<Longrightarrow> r = isValid"
proof (induction cs arbitrary: isValid)
  case Nil
  then show ?case by simp
next
  case (Cons c cs)
  from course_one_per_day_never_False [of sol om c]
  have "course_one_per_day sol om c = Inr b \<Longrightarrow> b" for b
    by (cases b) auto
  with Cons show ?case
    by (auto split: sum.splits)
qed

lemma validateOnlyOneNotAllInOneBlockLessonPerDay_never_False:
  "validateOnlyOneNotAllInOneBlockLessonPerDay sol om \<noteq> Inr False"
  using one_per_day_courses_keeps
    [of sol om "filter (\<lambda>c. \<not> all_in_one_block c) (getCourses om)" True False]
  by (auto simp: validateOnlyOneNotAllInOneBlockLessonPerDay_def)

text \<open>
  When every check returns, \<open>validateSolution\<close> has run all of them and returns True
  exactly when all of them returned True.
\<close>

lemma validate_rules_accumulates:
  "\<forall>r \<in> set rs. \<exists>b. run_rule ext sol om r = Inr b \<Longrightarrow>
   validate_rules ext sol om rs isValid =
     Inr (isValid \<and> (\<forall>r \<in> set rs. run_rule ext sol om r = Inr True))"
proof (induction rs arbitrary: isValid)
  case Nil
  then show ?case by simp
next
  case (Cons r rs)
  then obtain b where b: "run_rule ext sol om r = Inr b" by auto
  from Cons have "validate_rules ext sol om rs v =
      Inr (v \<and> (\<forall>r \<in> set rs. run_rule ext sol om r = Inr True))" for v
    by simp
  with b show ?case by (cases b) auto
qed

text \<open>
  Claim C3 says that \<open>validateSolution\<close> returns normally for every solution, and that the
  one-lesson-per-day check returns False for a course with two relevant lessons on one
  weekday. In timetable B the two lessons of the course are both held on Monday: the check
  raises NameError, and so does \<open>validateSolution\<close>, even when every check that is not
  modelled here passes.
\<close>

theorem validateSolution_raises_NameError:
  "validateOnlyOneNotAllInOneBlockLessonPerDay solution_B orm_B = Inl NameError \<and>
   validateSolution (\<lambda>r. Inr True) solution_B orm_B = Inl NameError"
  by code_simp

section \<open>Properties of the lecture limits in the model builder\<close>

subsection \<open>The reduction of the limits\<close>

lemmas reduce_defs = reduce_teacher_def reduce_block_def per_day_6_def per_day_5_def
  per_day_4_def per_day_3_def per_day_2_def

lemma reduce_teacher_fields: "fst (reduce_teacher te) = spec_reduced_teacher te"
  by (simp add: reduce_defs spec_reduced_teacher_def spec_reduced_per_day_def spec_reduced_block_def Let_def)

lemma bindE_Inr_iff: "bindE m f = Inr y \<longleftrightarrow> (\<exists>x. m = Inr x \<and> f x = Inr y)"
  by (cases m) (simp_all add: bindE_def)

lemma mapE_cong: "(\<And>x. x \<in> set xs \<Longrightarrow> f x = g x) \<Longrightarrow> mapE f xs = mapE g xs"
  by (induction xs) (simp_all cong: sum.case_cong)

lemma teacher_lessons_reduced [simp]:
  "teacher_lessons (om\<lparr>getTeachers := tes\<rparr>) (spec_reduced_teacher te) = teacher_lessons om te"
  by (simp add: teacher_lessons_def spec_reduced_teacher_def)

lemma lesson_by_id_getTeachers [simp]:
  "lesson_by_id (om\<lparr>getTeachers := tes\<rparr>) = lesson_by_id om"
  by (rule ext) (simp add: lesson_by_id_def)

lemma resolve_getTeachers [simp]: "resolve (om\<lparr>getTeachers := tes\<rparr>) ids = resolve om ids"
  by (simp add: resolve_def)

lemma lecturesForTeacher_reduced [simp]:
  "lecturesForTeacher (om\<lparr>getTeachers := tes\<rparr>) (spec_reduced_teacher te) = lecturesForTeacher om te"
  by (simp add: lecturesForTeacher_def)

lemma mapE_length: "mapE f xs = Inr ys \<Longrightarrow> length ys = length xs"
  by (induction xs arbitrary: ys) (auto split: sum.splits)

lemma mapE_set: "mapE f xs = Inr ys \<Longrightarrow> y \<in> set ys \<Longrightarrow> \<exists>x \<in> set xs. f x = Inr y"
  by (induction xs arbitrary: ys) (auto split: sum.splits)

lemma mapE_bindE_Inr:
  "mapE (\<lambda>x. bindE (g x) (\<lambda>v. Inr (h v))) xs = Inr cs \<Longrightarrow>
   \<exists>vss. mapE g xs = Inr vss \<and> cs = map h vss"
  by (induction xs arbitrary: cs) (auto simp: bindE_def split: sum.splits)

lemma reduce_teacher_4_3:
  assumes "max_lectures_per_day (fst (reduce_teacher te)) = 4"
      and "max_lectures_as_block (fst (reduce_teacher te)) = 3"
  shows "snd (reduce_teacher te) = max4_maxblock_3"
  using assms by (auto simp: reduce_defs split: if_splits)

lemma boolVarList_teacher_id:
  "teacher_id te' = teacher_id te \<Longrightarrow> boolVarList b te' = boolVarList b te"
  by (rule ext) (simp add: boolVarList_def)

lemma teacher_id_reduce [simp]: "teacher_id (fst (reduce_teacher te)) = teacher_id te"
  by (simp add: reduce_teacher_fields spec_reduced_teacher_def)

subsection \<open>The constraints that the block function adds\<close>

lemma mapE_list_all2: "mapE f xs = Inr ys \<Longrightarrow> list_all2 (\<lambda>x y. f x = Inr y) xs ys"
  by (induction xs arbitrary: ys) (auto split: sum.splits)

lemma block_constraints_constraints [simp]:
  "block_constraints (b\<lparr>constraints := cs\<rparr>) = block_constraints b"
  by (rule ext)+ (simp add: block_constraints_def boolVarList_def)

lemma block_teacher_round_result:
  assumes "block_teacher_round om te (b, fin) = Inr (b', fin')"
  shows "fin' = fin @ [spec_reduced_teacher te] \<and>
         (\<exists>cs. block_constraints b om (spec_reduced_teacher te) (snd (reduce_teacher te)) = Inr cs \<and>
               b' = b\<lparr>constraints := constraints b @ cs\<rparr>)"
proof -
  obtain te' fa where r: "reduce_teacher te = (te', fa)" by (cases "reduce_teacher te")
  then have "te' = spec_reduced_teacher te"
    using reduce_teacher_fields [of te] by simp
  with assms r show ?thesis
    by (auto simp: block_teacher_round_def bindE_Inr_iff)
qed

lemma foldE_block_teacher_round:
  "foldE (block_teacher_round om) tes (b, fin) = Inr (b', fin') \<Longrightarrow>
   fin' = fin @ map spec_reduced_teacher tes \<and>
   (\<exists>css. mapE (\<lambda>te. block_constraints b om (spec_reduced_teacher te) (snd (reduce_teacher te))) tes
            = Inr css \<and>
          b' = b\<lparr>constraints := constraints b @ concat css\<rparr>)"
proof (induction tes arbitrary: b fin)
  case Nil
  then show ?case by simp
next
  case (Cons te tes)
  from Cons.prems obtain b1 fin1 where
    s: "block_teacher_round om te (b, fin) = Inr (b1, fin1)" and
    r: "foldE (block_teacher_round om) tes (b1, fin1) = Inr (b', fin')"
    by (auto split: sum.splits)
  from block_teacher_round_result [OF s] obtain cs where
    1: "fin1 = fin @ [spec_reduced_teacher te]"
       "block_constraints b om (spec_reduced_teacher te) (snd (reduce_teacher te)) = Inr cs"
       "b1 = b\<lparr>constraints := constraints b @ cs\<rparr>"
    by blast
  from Cons.IH [OF r] obtain css where
    2: "fin' = fin1 @ map spec_reduced_teacher tes"
       "mapE (\<lambda>te. block_constraints b1 om (spec_reduced_teacher te) (snd (reduce_teacher te))) tes
          = Inr css"
       "b' = b1\<lparr>constraints := constraints b1 @ concat css\<rparr>"
    by blast
  from 1 2 show ?case by simp
qed

lemma addMaxLecturesAsBlock_result:
  assumes "addMaxLecturesAsBlockTeacherConstraints b om = Inr (b1, om1)"
  shows "om1 = om\<lparr>getTeachers := map spec_reduced_teacher (getTeachers om)\<rparr> \<and>
         (\<exists>css. mapE (\<lambda>te. block_constraints b om (spec_reduced_teacher te) (snd (reduce_teacher te)))
                  (getTeachers om) = Inr css \<and>
                b1 = b\<lparr>constraints := constraints b @ concat css\<rparr>)"
  using assms foldE_block_teacher_round [of om "getTeachers om" b "[]"]
  by (auto simp: addMaxLecturesAsBlockTeacherConstraints_def bindE_Inr_iff)

lemma mapE_nth: "mapE f xs = Inr ys \<Longrightarrow> i < length xs \<Longrightarrow> f (xs ! i) = Inr (ys ! i)"
proof (induction xs arbitrary: ys i)
  case Nil
  then show ?case by simp
next
  case (Cons x xs)
  then show ?case by (cases i) (auto split: sum.splits)
qed

lemma boolVarList_slot_bools:
  "boolVarList b te day = Inr vs \<Longrightarrow> day \<noteq> [] \<Longrightarrow> lecture_slot_bools b te day vs"
proof -
  assume r: "boolVarList b te day = Inr vs" and ne: "day \<noteq> []"
  from r have all: "list_all2 (\<lambda>t v. bindE (getattr (timeslotLectureBoolMap b (teacher_id te)))
                  (\<lambda>m. lookup_ts m t) = Inr v) day vs"
    unfolding boolVarList_def by (rule mapE_list_all2)
  from ne obtain t ts where day: "day = t # ts" by (cases day) auto
  with all obtain v where "bindE (getattr (timeslotLectureBoolMap b (teacher_id te)))
                  (\<lambda>m. lookup_ts m t) = Inr v"
    by (auto simp: list_all2_Cons1)
  then obtain m where m: "timeslotLectureBoolMap b (teacher_id te) = Some m"
    by (auto simp: bindE_Inr_iff getattr_def split: option.splits)
  with all have "list_all2 (\<lambda>t v. lookup_ts m t = Inr v) day vs"
    by (simp add: bindE_def getattr_def)
  with m show ?thesis by (auto simp: lecture_slot_bools_def)
qed


subsection \<open>The counted lectures\<close>

lemma lesson_set_subset: "set (lesson_set xs) \<subseteq> set xs"
  by (induction xs rule: lesson_set.induct) auto

lemma lesson_set_distinct_ids: "distinct (map lesson_id (lesson_set xs))"
proof (induction xs rule: lesson_set.induct)
  case 1
  then show ?case by simp
next
  case (2 l ls)
  have "lesson_id l \<notin> lesson_id ` set (lesson_set (filter (\<lambda>x. lesson_id x \<noteq> lesson_id l) ls))"
    using lesson_set_subset [of "filter (\<lambda>x. lesson_id x \<noteq> lesson_id l) ls"] by auto
  with 2 show ?case by simp
qed

lemma lesson_set_set:
  "inj_on lesson_id (set xs) \<Longrightarrow> set (lesson_set xs) = set xs"
proof (induction xs rule: lesson_set.induct)
  case 1
  then show ?case by simp
next
  case (2 l ls)
  have "inj_on lesson_id (set (filter (\<lambda>x. lesson_id x \<noteq> lesson_id l) ls))"
    by (rule inj_on_subset [OF "2.prems"]) auto
  from "2.IH" [OF this] have
    "set (lesson_set (filter (\<lambda>x. lesson_id x \<noteq> lesson_id l) ls)) = {x \<in> set ls. lesson_id x \<noteq> lesson_id l}"
    by simp
  moreover have "x = l" if "x \<in> set ls" "lesson_id x = lesson_id l" for x
    using inj_onD [OF "2.prems", of x l] that by simp
  ultimately show ?case by auto
qed

lemma find_by_id:
  "inj_on lesson_id (set ls) \<Longrightarrow> l \<in> set ls \<Longrightarrow> find (\<lambda>x. lesson_id x = lesson_id l) ls = Some l"
proof (induction ls)
  case Nil
  then show ?case by simp
next
  case (Cons x ls)
  show ?case
  proof (cases "lesson_id x = lesson_id l")
    case True
    with Cons.prems have "x = l" by (auto dest: inj_onD)
    then show ?thesis by simp
  next
    case False
    with Cons.prems have "l \<in> set ls" "inj_on lesson_id (set ls)" by auto
    with Cons.IH False show ?thesis by simp
  qed
qed

lemma find_Some_id: "find (\<lambda>x. lesson_id x = i) ls = Some l \<Longrightarrow> l \<in> set ls \<and> lesson_id l = i"
  by (induction ls) (auto split: if_splits)

lemma map_filter_set: "set (List.map_filter f xs) = {y. \<exists>x \<in> set xs. f x = Some y}"
  by (induction xs) (auto simp: map_filter_simps split: option.splits)

lemma resolve_set:
  assumes "distinct (map lesson_id (getLessons om))"
  shows "set (resolve om S) = {l \<in> set (getLessons om). lesson_id l \<in> set S}"
proof -
  from assms have inj: "inj_on lesson_id (set (getLessons om))"
    by (simp add: distinct_map)
  have "set (resolve om S) = {l. \<exists>i \<in> set S. lesson_by_id om i = Some l}"
    by (simp add: resolve_def map_filter_set)
  also have "\<dots> = {l \<in> set (getLessons om). lesson_id l \<in> set S}"
    using find_by_id [OF inj] by (auto simp: lesson_by_id_def dest: find_Some_id)
  finally show ?thesis .
qed

lemma max_by_size_in: "max_by_size m ls \<in> set (m # ls)"
  by (induction ls arbitrary: m) auto

lemma max_by_size_greatest: "x \<in> set (m # ls) \<Longrightarrow> timeslot_size x \<le> timeslot_size (max_by_size m ls)"
proof (induction ls arbitrary: m x)
  case Nil
  then show ?case by simp
next
  case (Cons l ls)
  have ge: "timeslot_size m' \<le> timeslot_size (max_by_size m' ls)" for m'
    using Cons.IH [of m' m'] by simp
  from Cons.prems consider "x = m" | "x = l" | "x \<in> set ls" by auto
  then show ?case
  proof cases
    case 1
    show ?thesis
      using ge [of "if timeslot_size l > timeslot_size m then l else m"] 1
      by (auto split: if_splits)
  next
    case 2
    show ?thesis
      using ge [of "if timeslot_size l > timeslot_size m then l else m"] 2
      by (auto split: if_splits)
  next
    case 3
    then show ?thesis using Cons.IH [of x "if timeslot_size l > timeslot_size m then l else m"]
      by simp
  qed
qed

lemma teacher_lessons_lectures:
  "{l \<in> set (teacher_lessons om te). is_lecture (course l)} = teacher_lectures om te"
  by (auto simp: teacher_lessons_def teacher_lectures_def)

lemma group_filter_set:
  assumes "distinct (map lesson_id (getLessons om))"
  shows "set (filter (\<lambda>l. lesson_in l (teacher_lessons om te) \<and> is_lecture (course l)) (resolve om S))
         = group_lectures om te S"
proof -
  from assms have inj: "inj_on lesson_id (set (getLessons om))"
    by (simp add: distinct_map)
  have "lesson_in l (teacher_lessons om te) \<longleftrightarrow> teacher_id te \<in> set (teachers l)"
    if "l \<in> set (getLessons om)" for l
    using that inj by (auto simp: lesson_in_def teacher_lessons_def dest: inj_onD)
  then show ?thesis
    by (auto simp: resolve_set [OF assms] group_lectures_def teacher_lectures_def)
qed

lemma lecturesForTeacher_counted:
  assumes "distinct (map lesson_id (getLessons om))"
  shows "distinct (lecturesForTeacher om te) \<and> counted_lectures om te (set (lecturesForTeacher om te))"
proof -
  from assms have inj: "inj_on lesson_id (set (getLessons om))"
    by (simp add: distinct_map)
  define P where "P = (\<lambda>l. lesson_in l (teacher_lessons om te) \<and> is_lecture (course l))"
  define pick where "pick = (\<lambda>S. case filter P (resolve om S) of [] \<Rightarrow> [] | l # ls \<Rightarrow> [max_by_size l ls])"
  define longest where "longest = (\<lambda>S. hd (pick S))"
  define xs where "xs = filter (\<lambda>x. is_lecture (course x) \<and> lessons_at_same_time x = []) (teacher_lessons om te)
        @ concat (map pick (getLessonsAtSameTimeSets om))"
  have lft: "lecturesForTeacher om te = lesson_set xs"
    by (simp add: lecturesForTeacher_def xs_def pick_def P_def)
  have grp: "set (filter P (resolve om S)) = group_lectures om te S" for S
    unfolding P_def by (rule group_filter_set [OF assms])
  have pick_empty: "pick S = []" if "group_lectures om te S = {}" for S
    using grp [of S] that by (simp add: pick_def split: list.splits)
  have pick_one: "pick S = [longest S] \<and> longest S \<in> group_lectures om te S \<and>
       (\<forall>l \<in> group_lectures om te S. timeslot_size l \<le> timeslot_size (longest S))"
    if ne: "group_lectures om te S \<noteq> {}" for S
  proof -
    from ne grp [of S] obtain l ls where f: "filter P (resolve om S) = l # ls"
      by (cases "filter P (resolve om S)") auto
    then have p: "pick S = [max_by_size l ls]" by (simp add: pick_def)
    then have lo: "longest S = max_by_size l ls" by (simp add: longest_def)
    from grp [of S] f have g: "group_lectures om te S = set (l # ls)" by simp
    show ?thesis
      using p lo g max_by_size_in [of l ls] max_by_size_greatest [of _ l ls] by auto
  qed
  have sub: "set xs \<subseteq> set (getLessons om)"
  proof
    fix x assume "x \<in> set xs"
    then consider "x \<in> set (teacher_lessons om te)" |
      S where "S \<in> set (getLessonsAtSameTimeSets om)" "x \<in> set (pick S)"
      by (auto simp: xs_def)
    then show "x \<in> set (getLessons om)"
    proof cases
      case 1
      then show ?thesis by (simp add: teacher_lessons_def)
    next
      case 2
      then have "group_lectures om te S \<noteq> {}" using pick_empty [of S] by auto
      from pick_one [OF this] 2 show ?thesis
        by (auto simp: group_lectures_def teacher_lectures_def)
    qed
  qed
  have "inj_on lesson_id (set xs)"
    by (rule inj_on_subset [OF inj sub])
  then have set_eq: "set (lecturesForTeacher om te) = set xs"
    by (simp add: lft lesson_set_set)
  have "set xs = {l \<in> teacher_lectures om te. lessons_at_same_time l = []} \<union>
            longest ` {S \<in> set (getLessonsAtSameTimeSets om). group_lectures om te S \<noteq> {}}"
  proof -
    have "set (concat (map pick (getLessonsAtSameTimeSets om))) =
          longest ` {S \<in> set (getLessonsAtSameTimeSets om). group_lectures om te S \<noteq> {}}"
    proof (intro set_eqI iffI)
      fix x assume "x \<in> set (concat (map pick (getLessonsAtSameTimeSets om)))"
      then obtain S where S: "S \<in> set (getLessonsAtSameTimeSets om)" "x \<in> set (pick S)" by auto
      then have ne: "group_lectures om te S \<noteq> {}" using pick_empty [of S] by auto
      from pick_one [OF ne] S(2) have "x = longest S" by simp
      with S(1) ne show "x \<in> longest ` {S \<in> set (getLessonsAtSameTimeSets om). group_lectures om te S \<noteq> {}}"
        by blast
    next
      fix x assume "x \<in> longest ` {S \<in> set (getLessonsAtSameTimeSets om). group_lectures om te S \<noteq> {}}"
      then obtain S where S: "S \<in> set (getLessonsAtSameTimeSets om)" "group_lectures om te S \<noteq> {}"
        "x = longest S" by blast
      from pick_one [OF S(2)] S(3) have "x \<in> set (pick S)" by simp
      with S(1) show "x \<in> set (concat (map pick (getLessonsAtSameTimeSets om)))" by auto
    qed
    moreover have "set (filter (\<lambda>x. is_lecture (course x) \<and> lessons_at_same_time x = []) (teacher_lessons om te))
       = {l \<in> teacher_lectures om te. lessons_at_same_time l = []}"
      using teacher_lessons_lectures [of om te] by auto
    ultimately show ?thesis by (simp add: xs_def)
  qed
  with set_eq pick_one have "counted_lectures om te (set (lecturesForTeacher om te))"
    unfolding counted_lectures_def by (intro exI [of _ longest]) simp
  moreover have "distinct (lecturesForTeacher om te)"
    using lesson_set_distinct_ids [of xs] by (simp add: lft distinct_map)
  ultimately show ?thesis by simp
qed

subsection \<open>The bound on the lectures of a day\<close>

lemma py_index_nat: "py_index xs (int d) = Inr v \<Longrightarrow> d < length xs \<and> v = xs ! d"
  by (auto simp: py_index_def split: if_splits)

lemma lessonOccurrenceList_weekdayBoolVars:
  "weekdayBoolVars b' = weekdayBoolVars b \<Longrightarrow> lessonOccurrenceList b' = lessonOccurrenceList b"
  by (rule ext)+ (simp add: lessonOccurrenceList_def)

lemma lessonOccurrenceList_result:
  assumes "lessonOccurrenceList b om te d = Inr ts"
  shows "ts = map (\<lambda>l. (timeslot_size l, day_var b l d)) (lecturesForTeacher om te) \<and>
         (\<forall>l \<in> set (lecturesForTeacher om te).
            \<exists>wbs. weekdayBoolVars b (lesson_id l) = Some wbs \<and> d < length wbs)"
proof -
  define f where "f = (\<lambda>l :: lesson. bindE (getattr (weekdayBoolVars b (lesson_id l)))
                  (\<lambda>vs. bindE (py_index vs (int d)) (\<lambda>v. Inr (timeslot_size l, v))))"
  have step: "(\<exists>wbs. weekdayBoolVars b (lesson_id l) = Some wbs \<and> d < length wbs) \<and>
              t = (timeslot_size l, day_var b l d)" if "f l = Inr t" for l :: lesson and t
  proof -
    from that obtain wbs v where
      "weekdayBoolVars b (lesson_id l) = Some wbs" "py_index wbs (int d) = Inr v"
      "t = (timeslot_size l, v)"
      by (auto simp: f_def bindE_Inr_iff getattr_def split: option.splits)
    with py_index_nat [of wbs d v] show ?thesis by (simp add: day_var_def)
  qed
  from assms have m: "mapE f (lecturesForTeacher om te) = Inr ts"
    by (simp add: lessonOccurrenceList_def f_def)
  have "mapE f ls = Inr ts \<Longrightarrow>
        ts = map (\<lambda>l. (timeslot_size l, day_var b l d)) ls \<and>
        (\<forall>l \<in> set ls. \<exists>wbs. weekdayBoolVars b (lesson_id l) = Some wbs \<and> d < length wbs)" for ls
  proof (induction ls arbitrary: ts)
    case Nil
    then show ?case by simp
  next
    case (Cons l ls)
    from Cons.prems obtain t ts' where
      1: "f l = Inr t" "mapE f ls = Inr ts'" "ts = t # ts'"
      by (auto split: sum.splits)
    from step [OF 1(1)] Cons.IH [OF 1(2)] 1(3) show ?case by simp
  qed
  from this [OF m] show ?thesis .
qed

lemma Add_py_bool_result:
  "weekdayBoolVars (Add_py_bool ct b) = weekdayBoolVars b \<and>
   (\<exists>ds. var_domains (Add_py_bool ct b) = var_domains b @ ds) \<and>
   (\<exists>c. constraints (Add_py_bool ct b) = constraints b @ [c] \<and> (\<forall>a. holds a c \<longrightarrow> ct))"
  by (auto simp: Add_py_bool_def GetOrMakeIndexFromConstant_def NewIntVarFromDomain_def Add_def
      split: option.splits)

lemma add_lecture_bound_result:
  assumes "add_lecture_bound om te d b = Inr b'"
  shows "weekdayBoolVars b' = weekdayBoolVars b \<and>
         (\<exists>ds. var_domains b' = var_domains b @ ds) \<and>
         (\<exists>c ts. constraints b' = constraints b @ [c] \<and>
                 lessonOccurrenceList b om te d = Inr ts \<and>
                 bounds_sum c ts (max_lectures_per_day te))"
proof -
  from assms obtain ts where
    ts: "lessonOccurrenceList b om te d = Inr ts" and
    b': "b' = (if list_all (\<lambda>(c, v). c = 0) ts
               then Add_py_bool (0 \<le> max_lectures_per_day te) b
               else Add (LinLe (Lin ts 0) (Lin [] (max_lectures_per_day te))) b)"
    by (auto simp: add_lecture_bound_def bindE_Inr_iff)
  show ?thesis
  proof (cases "list_all (\<lambda>(c, v). c = 0) ts")
    case True
    then have z: "\<forall>t \<in> set ts. fst t = 0"
      by (auto simp: list_all_iff)
    have ev: "eval_lin a (Lin ts 0) = 0" for a
      using z by (induction ts) auto
    from Add_py_bool_result [of "0 \<le> max_lectures_per_day te" b] True b' obtain c where
      "weekdayBoolVars b' = weekdayBoolVars b" "\<exists>ds. var_domains b' = var_domains b @ ds"
      "constraints b' = constraints b @ [c]" "\<forall>a. holds a c \<longrightarrow> 0 \<le> max_lectures_per_day te"
      by auto
    with ts z ev show ?thesis
      unfolding bounds_sum_def by auto
  next
    case False
    with b' have "b' = Add (LinLe (Lin ts 0) (Lin [] (max_lectures_per_day te))) b" by simp
    with ts show ?thesis
      unfolding bounds_sum_def by (auto simp: Add_def)
  qed
qed

lemma foldE_add_lecture_bound:
  "foldE (add_lecture_bound om te) ds b = Inr b' \<Longrightarrow>
   weekdayBoolVars b' = weekdayBoolVars b \<and>
   (\<exists>cs. constraints b' = constraints b @ cs \<and> length cs = length ds) \<and>
   (\<forall>d \<in> set ds. \<exists>c \<in> set (constraints b'). \<exists>ts.
      lessonOccurrenceList b om te d = Inr ts \<and> bounds_sum c ts (max_lectures_per_day te))"
proof (induction ds arbitrary: b)
  case Nil
  then show ?case by simp
next
  case (Cons d ds)
  from Cons.prems obtain b1 where
    s: "add_lecture_bound om te d b = Inr b1" and
    r: "foldE (add_lecture_bound om te) ds b1 = Inr b'"
    by (auto split: sum.splits)
  from add_lecture_bound_result [OF s] obtain c ts where
    1: "weekdayBoolVars b1 = weekdayBoolVars b" "constraints b1 = constraints b @ [c]"
       "lessonOccurrenceList b om te d = Inr ts" "bounds_sum c ts (max_lectures_per_day te)"
    by blast
  from Cons.IH [OF r] obtain cs where
    2: "weekdayBoolVars b' = weekdayBoolVars b1" "constraints b' = constraints b1 @ cs"
       "length cs = length ds"
       "\<forall>d \<in> set ds. \<exists>c \<in> set (constraints b'). \<exists>ts.
          lessonOccurrenceList b1 om te d = Inr ts \<and> bounds_sum c ts (max_lectures_per_day te)"
    by blast
  have same: "lessonOccurrenceList b1 = lessonOccurrenceList b"
    by (rule lessonOccurrenceList_weekdayBoolVars [OF 1(1)])
  have "c \<in> set (constraints b')" using 1(2) 2(2) by simp
  with 1 2 same show ?case by auto
qed

lemma foldE_teachers_lecture_bound:
  "foldE (\<lambda>te. foldE (add_lecture_bound om te) ds) tes b = Inr b' \<Longrightarrow>
   weekdayBoolVars b' = weekdayBoolVars b \<and>
   (\<exists>cs. constraints b' = constraints b @ cs \<and> length cs = length tes * length ds) \<and>
   (\<forall>te \<in> set tes. \<forall>d \<in> set ds. \<exists>c \<in> set (constraints b'). \<exists>ts.
      lessonOccurrenceList b om te d = Inr ts \<and> bounds_sum c ts (max_lectures_per_day te))"
proof (induction tes arbitrary: b)
  case Nil
  then show ?case by simp
next
  case (Cons te tes)
  from Cons.prems obtain b1 where
    s: "foldE (add_lecture_bound om te) ds b = Inr b1" and
    r: "foldE (\<lambda>te. foldE (add_lecture_bound om te) ds) tes b1 = Inr b'"
    by (auto split: sum.splits)
  from foldE_add_lecture_bound [OF s] obtain cs1 where
    1: "weekdayBoolVars b1 = weekdayBoolVars b" "constraints b1 = constraints b @ cs1"
       "length cs1 = length ds"
       "\<forall>d \<in> set ds. \<exists>c \<in> set (constraints b1). \<exists>ts.
          lessonOccurrenceList b om te d = Inr ts \<and> bounds_sum c ts (max_lectures_per_day te)"
    by blast
  from Cons.IH [OF r] obtain cs where
    2: "weekdayBoolVars b' = weekdayBoolVars b1" "constraints b' = constraints b1 @ cs"
       "length cs = length tes * length ds"
       "\<forall>te \<in> set tes. \<forall>d \<in> set ds. \<exists>c \<in> set (constraints b'). \<exists>ts.
          lessonOccurrenceList b1 om te d = Inr ts \<and> bounds_sum c ts (max_lectures_per_day te)"
    by blast
  have same: "lessonOccurrenceList b1 = lessonOccurrenceList b"
    by (rule lessonOccurrenceList_weekdayBoolVars [OF 1(1)])
  have sub: "set (constraints b1) \<subseteq> set (constraints b')" using 2(2) by simp
  have w: "weekdayBoolVars b' = weekdayBoolVars b" using 1(1) 2(1) by simp
  have len: "\<exists>cs'. constraints b' = constraints b @ cs' \<and> length cs' = length (te # tes) * length ds"
    using 1(2,3) 2(2,3) by simp
  have head: "\<forall>d \<in> set ds. \<exists>c \<in> set (constraints b'). \<exists>ts.
      lessonOccurrenceList b om te d = Inr ts \<and> bounds_sum c ts (max_lectures_per_day te)"
    using 1(4) sub by blast
  from w len head 2(4) same show ?case by simp
qed

lemma eval_lin_products:
  "eval_lin a (Lin (map (\<lambda>l. (f l, g l)) ls) 0) = (\<Sum>l\<leftarrow>ls. f l * a (g l))"
  by (simp add: comp_def)

text \<open>
  Claim C4. \<open>addMaxLecturesAsBlockTeacherConstraints\<close> rewrites the fields of every teacher
  in place: \<open>max_lectures_as_block\<close> becomes \<open>max_lectures_per_day\<close> where it was greater,
  and \<open>max_lectures_per_day\<close> is reduced in the steps 6 to 5, 5 to 4 and 4 to 3 under the
  conditions on the block limit. The call of \<open>addMaxLecturesPerDayTeacherConstraints\<close>
  that follows adds one constraint for every teacher and weekday, and bounds the counted
  lecture timeslots of the day by the reduced \<open>max_lectures_per_day\<close>: the counted lectures
  are the teacher's lectures outside the same-time groups and one longest lecture of the
  teacher from each same-time set, the model holds the constraint on the sum of
  \<open>timeslot_size\<close> times weekday Boolean over them, and every feasible assignment keeps
  the sum within the reduced bound.
\<close>

theorem lecture_limits_reduced_in_place:
  assumes run1: "addMaxLecturesAsBlockTeacherConstraints b om = Inr (b1, om1)"
      and run2: "addMaxLecturesPerDayTeacherConstraints b1 om1 = Inr b2"
      and keys: "distinct (map lesson_id (getLessons om))"
  shows "getTeachers om1 = map spec_reduced_teacher (getTeachers om) \<and>
         length (constraints b2) = length (constraints b1) + length (getTeachers om) * WEEKDAYS om \<and>
         (\<forall>te \<in> set (getTeachers om). \<forall>d < WEEKDAYS om. \<exists>ls. lecture_bound_ok om b2 te d ls)"
proof -
  from addMaxLecturesAsBlock_result [OF run1] have
    om1: "om1 = om\<lparr>getTeachers := map spec_reduced_teacher (getTeachers om)\<rparr>" and
    w1: "weekdayBoolVars b1 = weekdayBoolVars b"
    by auto
  from run2 have "foldE (\<lambda>te. foldE (add_lecture_bound om1 te) [0..<WEEKDAYS om])
                    (map spec_reduced_teacher (getTeachers om)) b1 = Inr b2"
    by (simp add: addMaxLecturesPerDayTeacherConstraints_def om1)
  from foldE_teachers_lecture_bound [OF this] obtain cs where
    w2: "weekdayBoolVars b2 = weekdayBoolVars b1" and
    cs: "constraints b2 = constraints b1 @ cs"
        "length cs = length (getTeachers om) * WEEKDAYS om" and
    all: "\<forall>te' \<in> set (map spec_reduced_teacher (getTeachers om)). \<forall>d \<in> set [0..<WEEKDAYS om].
            \<exists>c \<in> set (constraints b2). \<exists>ts.
              lessonOccurrenceList b1 om1 te' d = Inr ts \<and>
              bounds_sum c ts (max_lectures_per_day te')"
    by auto
  have ok: "\<exists>ls. lecture_bound_ok om b2 te d ls"
    if te: "te \<in> set (getTeachers om)" and d: "d < WEEKDAYS om" for te d
  proof -
    define ls where "ls = lecturesForTeacher om te"
    from all te d obtain c ts where
      c: "c \<in> set (constraints b2)" and
      ts: "lessonOccurrenceList b1 om1 (spec_reduced_teacher te) d = Inr ts" and
      bs: "bounds_sum c ts (max_lectures_per_day (spec_reduced_teacher te))"
      by fastforce
    have lim: "max_lectures_per_day (spec_reduced_teacher te) = spec_reduced_per_day te"
      by (simp add: spec_reduced_teacher_def)
    have "lessonOccurrenceList b1 = lessonOccurrenceList b2"
      by (rule lessonOccurrenceList_weekdayBoolVars) (simp add: w2)
    with ts have "lessonOccurrenceList b2 om te d = Inr ts"
      by (simp add: lessonOccurrenceList_def om1)
    from lessonOccurrenceList_result [OF this] have
      ts_eq: "ts = map (\<lambda>l. (timeslot_size l, day_var b2 l d)) ls" and
      attrs: "\<forall>l \<in> set ls. \<exists>wbs. weekdayBoolVars b2 (lesson_id l) = Some wbs \<and> d < length wbs"
      by (simp_all add: ls_def)
    from lecturesForTeacher_counted [OF keys, of te] have
      dist: "distinct ls" and counted: "counted_lectures om te (set ls)"
      by (simp_all add: ls_def)
    have posted: "LinLe (Lin (map (\<lambda>l. (timeslot_size l, day_var b2 l d)) ls) 0)
                    (Lin [] (spec_reduced_per_day te)) \<in> set (constraints b2)"
      if "\<exists>l \<in> set ls. timeslot_size l \<noteq> 0"
    proof -
      from that have "\<exists>t \<in> set ts. fst t \<noteq> 0" by (auto simp: ts_eq)
      with bs have "c = LinLe (Lin ts 0) (Lin [] (spec_reduced_per_day te))"
        by (simp add: bounds_sum_def lim)
      with c show ?thesis by (simp add: ts_eq)
    qed
    have bound: "(\<Sum>l\<leftarrow>ls. timeslot_size l * a (day_var b2 l d)) \<le> spec_reduced_per_day te"
      if "feasible b2 a" for a
    proof -
      from that c have "holds a c" by (auto simp: feasible_def list_all_iff)
      with bs have "eval_lin a (Lin ts 0) \<le> spec_reduced_per_day te"
        by (simp add: bounds_sum_def lim)
      then show ?thesis unfolding ts_eq eval_lin_products .
    qed
    from dist counted attrs posted bound have "lecture_bound_ok om b2 te d ls"
      unfolding lecture_bound_ok_def by blast
    then show ?thesis ..
  qed
  from om1 cs ok show ?thesis by simp
qed

lemma run_teacher_6_2:
  "case addMaxLecturesAsBlockTeacherConstraints build_A (orm_A\<lparr>getTeachers := [teacher_6_2]\<rparr>) of
     Inl e \<Rightarrow> False
   | Inr (b1, om1) \<Rightarrow>
       (case addMaxLecturesPerDayTeacherConstraints b1 om1 of Inl e \<Rightarrow> False | Inr b2 \<Rightarrow> True)"
  by code_simp

lemma reduced_teacher_6_2:
  "map spec_reduced_teacher [teacher_6_2] = [teacher_6_2\<lparr>max_lectures_per_day := 4\<rparr>]"
  "spec_reduced_per_day teacher_6_2 = 4"
  by code_simp+

lemma lessons_A:
  "distinct (map lesson_id (getLessons orm_A))"
  "list_all (\<lambda>l. teacher_id teacher_6_2 \<in> set (teachers l) \<and> is_lecture (course l) \<and>
                 lessons_at_same_time l = [] \<and> timeslot_size l = 1) (getLessons orm_A)"
  "getLessons orm_A \<noteq> []"
  "getLessonsAtSameTimeSets orm_A = []"
  by code_simp+

lemma counted_lectures_A:
  assumes "counted_lectures (orm_A\<lparr>getTeachers := tes\<rparr>) teacher_6_2 C"
  shows "C = set (getLessons orm_A)"
  using assms lessons_A(2,4)
  by (auto simp: counted_lectures_def teacher_lectures_def group_lectures_def list_all_iff)

text \<open>The theorem at timetable A with the teacher who allows six lectures a day, two in a row.\<close>

theorem lecture_limits_reduced_in_place_witness:
  "case addMaxLecturesAsBlockTeacherConstraints build_A (orm_A\<lparr>getTeachers := [teacher_6_2]\<rparr>) of
     Inl e \<Rightarrow> False
   | Inr (b1, om1) \<Rightarrow>
       (case addMaxLecturesPerDayTeacherConstraints b1 om1 of
          Inl e \<Rightarrow> False
        | Inr b2 \<Rightarrow>
            getTeachers om1 = [teacher_6_2\<lparr>max_lectures_per_day := 4\<rparr>] \<and>
            length (constraints b2) = length (constraints b1) + 5 \<and>
            (\<exists>ls. distinct ls \<and> set ls = set (getLessons orm_A) \<and>
               LinLe (Lin (map (\<lambda>l. (timeslot_size l, day_var b2 l 0)) ls) 0) (Lin [] 4)
                 \<in> set (constraints b2)))"
proof -
  from run_teacher_6_2 obtain b1 om1 where
    1: "addMaxLecturesAsBlockTeacherConstraints build_A (orm_A\<lparr>getTeachers := [teacher_6_2]\<rparr>)
          = Inr (b1, om1)"
    by (cases "addMaxLecturesAsBlockTeacherConstraints build_A
                 (orm_A\<lparr>getTeachers := [teacher_6_2]\<rparr>)") auto
  with run_teacher_6_2 obtain b2 where
    2: "addMaxLecturesPerDayTeacherConstraints b1 om1 = Inr b2"
    by (cases "addMaxLecturesPerDayTeacherConstraints b1 om1") auto
  have keys: "distinct (map lesson_id (getLessons (orm_A\<lparr>getTeachers := [teacher_6_2]\<rparr>)))"
    using lessons_A(1) by simp
  from lecture_limits_reduced_in_place [OF 1 2 keys] have
    t: "getTeachers om1 = map spec_reduced_teacher [teacher_6_2]" and
    n: "length (constraints b2) = length (constraints b1) + 1 * WEEKDAYS orm_A" and
    ok: "\<exists>ls. lecture_bound_ok (orm_A\<lparr>getTeachers := [teacher_6_2]\<rparr>) b2 teacher_6_2 0 ls"
    by (simp_all add: orm_A_def)
  from ok obtain ls where
    ls: "lecture_bound_ok (orm_A\<lparr>getTeachers := [teacher_6_2]\<rparr>) b2 teacher_6_2 0 ls" ..
  then have dist: "distinct ls" and
    cnt: "counted_lectures (orm_A\<lparr>getTeachers := [teacher_6_2]\<rparr>) teacher_6_2 (set ls)" and
    post: "(\<exists>l \<in> set ls. timeslot_size l \<noteq> 0) \<longrightarrow>
         LinLe (Lin (map (\<lambda>l. (timeslot_size l, day_var b2 l 0)) ls) 0)
               (Lin [] (spec_reduced_per_day teacher_6_2)) \<in> set (constraints b2)"
    by (simp_all add: lecture_bound_ok_def)
  from counted_lectures_A [OF cnt] have set_ls: "set ls = set (getLessons orm_A)" .
  with lessons_A(2,3) have "\<exists>l \<in> set ls. timeslot_size l \<noteq> 0"
    by (cases "getLessons orm_A") (auto simp: list_all_iff)
  with post reduced_teacher_6_2(2) have
    "LinLe (Lin (map (\<lambda>l. (timeslot_size l, day_var b2 l 0)) ls) 0) (Lin [] 4)
       \<in> set (constraints b2)"
    by simp
  with dist set_ls have "\<exists>ls. distinct ls \<and> set ls = set (getLessons orm_A) \<and>
               LinLe (Lin (map (\<lambda>l. (timeslot_size l, day_var b2 l 0)) ls) 0) (Lin [] 4)
                 \<in> set (constraints b2)"
    by blast
  moreover have "WEEKDAYS orm_A = 5" by (simp add: orm_A_def)
  ultimately show ?thesis
    using 1 2 t n reduced_teacher_6_2(1) by simp
qed

text \<open>A teacher without lectures: the comparison is a Python Boolean.\<close>

lemma no_lectures_posts_constant:
  "addMaxLecturesPerDayTeacherConstraints build_A (orm_A\<lparr>getLessons := [], WEEKDAYS := 2\<rparr>) =
   Inr (build_A\<lparr>var_domains := var_domains build_A @ [[1]],
               constraints := [BoolOr [Pos 50], BoolOr [Pos 50]],
               constant_map := (constant_map build_A)(1 \<mapsto> 50)\<rparr>)"
  by (simp add: addMaxLecturesPerDayTeacherConstraints_def add_lecture_bound_def orm_A_def
        lessonOccurrenceList_def lecturesForTeacher_def teacher_lessons_def bindE_def
        Add_py_bool_def GetOrMakeIndexFromConstant_def NewIntVarFromDomain_def Add_def
        build_A_def empty_build_def default_teacher_def upt_rec)

subsection \<open>The forbidden day patterns for four lectures a day and three in a row\<close>

lemma no_run4:
  assumes "length p = 6" "set p \<subseteq> {0, 1}" "sum_list p \<le> (4::int)" "p \<notin> set max4_maxblock_3"
  shows "longest_run (map (\<lambda>x. x = 1) p) 0 \<le> 3"
proof -
  from assms(1) obtain a b c d e f where p: "p = [a, b, c, d, e, f]"
    by (auto simp: length_Suc_conv eval_nat_numeral)
  with assms(2) have v: "a = 0 \<or> a = 1" "b = 0 \<or> b = 1" "c = 0 \<or> c = 1" "d = 0 \<or> d = 1" "e = 0 \<or> e = 1" "f = 0 \<or> f = 1"
    by auto
  from assms(3,4) show ?thesis unfolding p max4_maxblock_3_def
    using v by auto
qed

lemma spec_reduced_4_3:
  assumes "spec_reduced_per_day te = 4" "spec_reduced_block te = 3"
  shows "snd (reduce_teacher te) = max4_maxblock_3"
proof -
  from assms have "max_lectures_per_day (fst (reduce_teacher te)) = 4"
    "max_lectures_as_block (fst (reduce_teacher te)) = 3"
    by (simp_all add: reduce_teacher_fields spec_reduced_teacher_def)
  then show ?thesis by (rule reduce_teacher_4_3)
qed

text \<open>
  Claim C5, as amended. For every teacher whose limits, after the reduction, are four
  lectures a day and three in a row, \<open>addMaxLecturesAsBlockTeacherConstraints\<close> posts one
  forbidden-assignments constraint for each of the five weekdays, over the six
  lecture-at-slot Booleans of the day, with exactly the three tuples \<open>[1,1,1,1,0,0]\<close>,
  \<open>[0,1,1,1,1,0]\<close>, \<open>[0,0,1,1,1,1]\<close>; the function adds the constraints of the teachers one
  after the other and no variable. A day pattern with at most four lectures that
  satisfies the constraint has no four consecutive occupied slots.
\<close>

theorem max4_maxblock_3_posted:
  assumes run: "addMaxLecturesAsBlockTeacherConstraints b om = Inr (b', om')"
      and days: "length (getTimeslotsPerDay om) = 5"
                "\<forall>day \<in> set (getTimeslotsPerDay om). length day = 6"
  shows "\<exists>css. length css = length (getTeachers om) \<and>
           constraints b' = constraints b @ concat css \<and>
           var_domains b' = var_domains b \<and>
           (\<forall>i < length (getTeachers om).
              spec_reduced_per_day (getTeachers om ! i) = 4 \<and>
              spec_reduced_block (getTeachers om ! i) = 3 \<longrightarrow>
              (\<exists>vss. list_all2 (lecture_slot_bools b (getTeachers om ! i)) (getTimeslotsPerDay om) vss \<and>
                 length vss = 5 \<and> (\<forall>vs \<in> set vss. length vs = 6) \<and>
                 css ! i = map (\<lambda>vs. ForbiddenAssignments vs
                                 [[1, 1, 1, 1, 0, 0], [0, 1, 1, 1, 1, 0], [0, 0, 1, 1, 1, 1]]) vss \<and>
                 (\<forall>vs \<in> set vss. \<forall>a.
                    set (map a vs) \<subseteq> {0, 1} \<and> sum_list (map a vs) \<le> 4 \<and>
                    holds a (ForbiddenAssignments vs
                               [[1, 1, 1, 1, 0, 0], [0, 1, 1, 1, 1, 0], [0, 0, 1, 1, 1, 1]])
                    \<longrightarrow> longest_run (map (\<lambda>v. a v = 1) vs) 0 \<le> 3)))"
proof -
  from addMaxLecturesAsBlock_result [OF run] obtain css where
    css: "mapE (\<lambda>te. block_constraints b om (spec_reduced_teacher te) (snd (reduce_teacher te)))
            (getTeachers om) = Inr css" and
    b': "b' = b\<lparr>constraints := constraints b @ concat css\<rparr>"
    by blast
  have len: "length css = length (getTeachers om)"
    using mapE_length [OF css] .
  have one: "\<exists>vss. list_all2 (lecture_slot_bools b (getTeachers om ! i)) (getTimeslotsPerDay om) vss \<and>
                 length vss = 5 \<and> (\<forall>vs \<in> set vss. length vs = 6) \<and>
                 css ! i = map (\<lambda>vs. ForbiddenAssignments vs
                                 [[1, 1, 1, 1, 0, 0], [0, 1, 1, 1, 1, 0], [0, 0, 1, 1, 1, 1]]) vss \<and>
                 (\<forall>vs \<in> set vss. \<forall>a.
                    set (map a vs) \<subseteq> {0, 1} \<and> sum_list (map a vs) \<le> 4 \<and>
                    holds a (ForbiddenAssignments vs
                               [[1, 1, 1, 1, 0, 0], [0, 1, 1, 1, 1, 0], [0, 0, 1, 1, 1, 1]])
                    \<longrightarrow> longest_run (map (\<lambda>v. a v = 1) vs) 0 \<le> 3)"
    if i: "i < length (getTeachers om)"
      and lim: "spec_reduced_per_day (getTeachers om ! i) = 4"
               "spec_reduced_block (getTeachers om ! i) = 3"
    for i
  proof -
    define te where "te = getTeachers om ! i"
    from mapE_nth [OF css i] spec_reduced_4_3 [OF lim] have
      "block_constraints b om (spec_reduced_teacher te) max4_maxblock_3 = Inr (css ! i)"
      by (simp add: te_def)
    moreover have "boolVarList b (spec_reduced_teacher te) = boolVarList b te"
      by (rule boolVarList_teacher_id) (simp add: spec_reduced_teacher_def)
    ultimately have "mapE (\<lambda>day. bindE (boolVarList b te day)
                   (\<lambda>vs. Inr (ForbiddenAssignments vs max4_maxblock_3)))
             (getTimeslotsPerDay om) = Inr (css ! i)"
      by (simp add: block_constraints_def max4_maxblock_3_def)
    from mapE_bindE_Inr [OF this] obtain vss where
      vss: "mapE (boolVarList b te) (getTimeslotsPerDay om) = Inr vss" and
      cs_eq: "css ! i = map (\<lambda>vs. ForbiddenAssignments vs max4_maxblock_3) vss"
      by auto
    have l5: "length vss = 5"
      using mapE_length [OF vss] days(1) by simp
    from mapE_list_all2 [OF vss] have
      all: "list_all2 (\<lambda>day vs. boolVarList b te day = Inr vs) (getTimeslotsPerDay om) vss" .
    have "list_all2 (\<lambda>day vs. lecture_slot_bools b te day vs \<and> length vs = 6)
            (getTimeslotsPerDay om) vss"
      unfolding list_all2_conv_all_nth
    proof (intro conjI allI impI)
      show "length (getTimeslotsPerDay om) = length vss"
        using all by (simp add: list_all2_lengthD)
    next
      fix k
      assume k: "k < length (getTimeslotsPerDay om)"
      define day where "day = getTimeslotsPerDay om ! k"
      define vs where "vs = vss ! k"
      from all k have r: "boolVarList b te day = Inr vs"
        by (simp add: list_all2_conv_all_nth day_def vs_def)
      from k days(2) have l6: "length day = 6" by (simp add: day_def)
      then have "day \<noteq> []" by auto
      from boolVarList_slot_bools [OF r this]
      show "lecture_slot_bools b te (getTimeslotsPerDay om ! k) (vss ! k)"
        by (simp add: day_def vs_def)
      from r l6 show "length (vss ! k) = 6"
        by (auto simp: boolVarList_def vs_def dest: mapE_length)
    qed
    then have slot: "list_all2 (lecture_slot_bools b te) (getTimeslotsPerDay om) vss"
      and six: "\<forall>vs \<in> set vss. length vs = 6"
      by (auto simp: list_all2_conv_all_nth in_set_conv_nth)
    have excl: "longest_run (map (\<lambda>v. a v = 1) vs) 0 \<le> 3"
      if "vs \<in> set vss" "set (map a vs) \<subseteq> {0, 1}" "sum_list (map a vs) \<le> 4"
         "holds a (ForbiddenAssignments vs max4_maxblock_3)" for vs a
    proof -
      from that(4) have "map a vs \<notin> set max4_maxblock_3" by simp
      from no_run4 [OF _ that(2,3) this] six that(1) show ?thesis
        by (simp add: comp_def)
    qed
    show ?thesis
      apply (rule exI [of _ vss])
      using slot l5 six cs_eq excl unfolding te_def by (simp add: max4_maxblock_3_def)
  qed
  show ?thesis
    apply (rule exI [of _ css])
    using len b' one by simp
qed

lemma run_teacher_4_3:
  "case addMaxLecturesAsBlockTeacherConstraints build_A (orm_A\<lparr>getTeachers := [teacher_4_3]\<rparr>) of
     Inl e \<Rightarrow> False | Inr s \<Rightarrow> True"
  by code_simp

lemma limits_4_3:
  "spec_reduced_per_day teacher_4_3 = 4"
  "spec_reduced_block teacher_4_3 = 3"
  "length (getTimeslotsPerDay (orm_A\<lparr>getTeachers := [teacher_4_3]\<rparr>)) = 5"
  "\<forall>day \<in> set (getTimeslotsPerDay (orm_A\<lparr>getTeachers := [teacher_4_3]\<rparr>)). length day = 6"
  by code_simp+

text \<open>The theorem at timetable A with the teacher who allows four lectures a day, three in a row.\<close>

theorem max4_maxblock_3_posted_witness:
  "case addMaxLecturesAsBlockTeacherConstraints build_A (orm_A\<lparr>getTeachers := [teacher_4_3]\<rparr>) of
     Inl e \<Rightarrow> False
   | Inr (b', om') \<Rightarrow>
       (\<exists>vss. length vss = 5 \<and>
          constraints b' =
            map (\<lambda>vs. ForbiddenAssignments vs
                   [[1, 1, 1, 1, 0, 0], [0, 1, 1, 1, 1, 0], [0, 0, 1, 1, 1, 1]]) vss)"
proof -
  from run_teacher_4_3 obtain b' om' where
    1: "addMaxLecturesAsBlockTeacherConstraints build_A (orm_A\<lparr>getTeachers := [teacher_4_3]\<rparr>)
          = Inr (b', om')"
    by (auto split: sum.splits)
  have c: "constraints build_A = []"
    by (simp add: build_A_def empty_build_def)
  from max4_maxblock_3_posted [OF 1 limits_4_3(3,4)] obtain css where
    css: "length css = length (getTeachers (orm_A\<lparr>getTeachers := [teacher_4_3]\<rparr>))"
         "constraints b' = constraints build_A @ concat css"
         "\<forall>i < length (getTeachers (orm_A\<lparr>getTeachers := [teacher_4_3]\<rparr>)).
              spec_reduced_per_day (getTeachers (orm_A\<lparr>getTeachers := [teacher_4_3]\<rparr>) ! i) = 4 \<and>
              spec_reduced_block (getTeachers (orm_A\<lparr>getTeachers := [teacher_4_3]\<rparr>) ! i) = 3 \<longrightarrow>
              (\<exists>vss. length vss = 5 \<and>
                 css ! i = map (\<lambda>vs. ForbiddenAssignments vs
                                 [[1, 1, 1, 1, 0, 0], [0, 1, 1, 1, 1, 0], [0, 0, 1, 1, 1, 1]]) vss)"
    by (elim exE conjE) (rule that, assumption, assumption, blast)
  from css(1) obtain cs where cs: "css = [cs]"
    by (auto simp: length_Suc_conv)
  from css(3) [rule_format, of 0] limits_4_3(1,2) cs obtain vss where
    "length vss = 5"
    "cs = map (\<lambda>vs. ForbiddenAssignments vs
                   [[1, 1, 1, 1, 0, 0], [0, 1, 1, 1, 1, 0], [0, 0, 1, 1, 1, 1]]) vss"
    by auto
  with css(2) c cs have "\<exists>vss. length vss = 5 \<and>
          constraints b' =
            map (\<lambda>vs. ForbiddenAssignments vs
                   [[1, 1, 1, 1, 0, 0], [0, 1, 1, 1, 1, 0], [0, 0, 1, 1, 1, 1]]) vss"
    by auto
  with 1 show ?thesis by simp
qed

text \<open>
  Claim C5 says that the three tuples exclude every day pattern with four consecutive
  lecture slots. On timetable A with the teacher who allows four lectures a day and three
  in a row, the assignment in which the teacher holds lectures in the Monday hours 1, 2,
  3, 4 and 6 is within every domain and satisfies every constraint of the model that
  \<open>addMaxLecturesAsBlockTeacherConstraints\<close> returns: the pattern \<open>[1,1,1,1,0,1]\<close> of the six
  lecture-at-slot Booleans of Monday has four consecutive lecture slots and is not
  excluded.
\<close>

theorem max4_maxblock_3_admits_run_of_four:
  "case addMaxLecturesAsBlockTeacherConstraints build_A (orm_A\<lparr>getTeachers := [teacher_4_3]\<rparr>) of
     Inl e \<Rightarrow> False
   | Inr (b', om') \<Rightarrow>
       feasible b' pattern_111101 \<and>
       boolVarList b' teacher_4_3 (hd (getTimeslotsPerDay om')) = Inr [20, 21, 22, 23, 24, 25] \<and>
       map pattern_111101 [20, 21, 22, 23, 24, 25] = [1, 1, 1, 1, 0, 1] \<and>
       longest_run (map (\<lambda>v. pattern_111101 v = 1) [20, 21, 22, 23, 24, 25]) 0 = 4"
  by code_simp

section \<open>Properties of the study day constraints\<close>

lemma getWeekdayID_inj:
  "getWeekdayID d1 = Inr i \<Longrightarrow> getWeekdayID d2 = Inr i \<Longrightarrow> d1 = d2"
  by (auto simp: getWeekdayID_def split: if_splits)

lemma foldE_append:
  "foldE f (xs @ ys) s = bindE (foldE f xs s) (foldE f ys)"
  by (induction xs arbitrary: s) (auto simp: bindE_def split: sum.splits)

text \<open>What a round of the loop over the teachers leaves unchanged.\<close>

lemma study_teacher_round_extends:
  assumes "study_teacher_round om te b = Inr b'"
  shows "weekdayVar b' = weekdayVar b \<and> set (constraints b) \<subseteq> set (constraints b')"
  using assms
  by (auto simp: study_teacher_round_def bindE_Inr_iff NewBoolVar_def
      NewIntVarFromDomain_def Add_def Let_def split: option.splits if_splits)

lemma study_teacher_round_other:
  assumes "study_teacher_round om te b = Inr b'" "i \<noteq> teacher_id te"
  shows "studyDay1BoolVar b' i = studyDay1BoolVar b i \<and> studyDay2BoolVar b' i = studyDay2BoolVar b i"
  using assms
  by (auto simp: study_teacher_round_def bindE_Inr_iff NewBoolVar_def
      NewIntVarFromDomain_def Add_def Let_def split: option.splits if_splits)

lemma foldE_study_extends:
  "foldE (study_teacher_round om) tes b = Inr b' \<Longrightarrow>
   weekdayVar b' = weekdayVar b \<and> set (constraints b) \<subseteq> set (constraints b')"
proof (induction tes arbitrary: b)
  case Nil
  then show ?case by simp
next
  case (Cons te tes)
  from Cons.prems obtain b1 where
    1: "study_teacher_round om te b = Inr b1" and
    2: "foldE (study_teacher_round om) tes b1 = Inr b'"
    by (auto split: sum.splits)
  from study_teacher_round_extends [OF 1] Cons.IH [OF 2] show ?case by auto
qed

lemma foldE_study_other:
  "foldE (study_teacher_round om) tes b = Inr b' \<Longrightarrow> i \<notin> teacher_id ` set tes \<Longrightarrow>
   studyDay1BoolVar b' i = studyDay1BoolVar b i \<and> studyDay2BoolVar b' i = studyDay2BoolVar b i"
proof (induction tes arbitrary: b)
  case Nil
  then show ?case by simp
next
  case (Cons te tes)
  from Cons.prems obtain b1 where
    1: "study_teacher_round om te b = Inr b1" and
    2: "foldE (study_teacher_round om) tes b1 = Inr b'"
    by (auto split: sum.splits)
  from Cons.prems(2) have "i \<noteq> teacher_id te" "i \<notin> teacher_id ` set tes" by auto
  with study_teacher_round_other [OF 1] Cons.IH [OF 2] show ?case by simp
qed


lemma mapE_in: "mapE f xs = Inr ys \<Longrightarrow> x \<in> set xs \<Longrightarrow> \<exists>y \<in> set ys. f x = Inr y"
  by (induction xs arbitrary: ys) (auto split: sum.splits)

lemma study_teacher_round_posts:
  assumes days: "study_day_1 te = Some d1" "study_day_2 te = Some d2"
      and lessons: "teacher_lessons om te \<noteq> []"
      and round: "study_teacher_round om te b = Inr b'"
  shows "\<exists>s1 s2 id1 id2.
           getWeekdayID d1 = Inr id1 \<and> getWeekdayID d2 = Inr id2 \<and>
           studyDay1BoolVar b' (teacher_id te) = Some s1 \<and>
           studyDay2BoolVar b' (teacher_id te) = Some s2 \<and>
           (s2 = s1 \<longleftrightarrow> id1 = id2) \<and>
           BoolOr [Pos s1, Pos s2] \<in> set (constraints b') \<and>
           (\<forall>l \<in> set (teacher_lessons om te). \<exists>w.
               weekdayVar b (lesson_id l) = Some w \<and>
               OnlyEnforceIf (LinNe (Lin [] id1) (Lin [(1, w)] 0)) (Pos s1) \<in> set (constraints b') \<and>
               (id1 \<noteq> id2 \<longrightarrow>
                OnlyEnforceIf (LinNe (Lin [] id2) (Lin [(1, w)] 0)) (Pos s2) \<in> set (constraints b')))"
proof -
  from round days lessons obtain id1 id2 where
    id1: "getWeekdayID d1 = Inr id1" and id2: "getWeekdayID d2 = Inr id2"
    by (auto simp: study_teacher_round_def bindE_Inr_iff)
  define s1 where "s1 = length (var_domains b)"
  define s2 where "s2 = (if id1 \<noteq> id2 then Suc s1 else s1)"
  define b3 where "b3 = b\<lparr>var_domains := var_domains b @ (if id1 \<noteq> id2 then [[0, 1], [0, 1]] else [[0, 1]]),
     studyDay1BoolVar := (studyDay1BoolVar b)(teacher_id te \<mapsto> s1),
     studyDay2BoolVar := (studyDay2BoolVar b)(teacher_id te \<mapsto> s2)\<rparr>"
  from round days lessons id1 id2 obtain css where
    css: "mapE (study_lesson_constraints b3 id1 id2 s1 s2) (teacher_lessons om te) = Inr css" and
    b': "b' = Add (BoolOr [Pos s1, Pos s2]) (b3\<lparr>constraints := constraints b3 @ concat css\<rparr>)"
    by (auto simp: study_teacher_round_def bindE_Inr_iff NewBoolVar_def NewIntVarFromDomain_def
        Let_def s1_def s2_def b3_def split: if_splits)
  have per_lesson: "\<exists>w. weekdayVar b (lesson_id l) = Some w \<and>
       OnlyEnforceIf (LinNe (Lin [] id1) (Lin [(1, w)] 0)) (Pos s1) \<in> set (constraints b') \<and>
       (id1 \<noteq> id2 \<longrightarrow>
        OnlyEnforceIf (LinNe (Lin [] id2) (Lin [(1, w)] 0)) (Pos s2) \<in> set (constraints b'))"
    if "l \<in> set (teacher_lessons om te)" for l
  proof -
    from mapE_in [OF css that] obtain cs where
      cs: "cs \<in> set css" "study_lesson_constraints b3 id1 id2 s1 s2 l = Inr cs"
      by auto
    from cs(2) obtain w where w: "weekdayVar b (lesson_id l) = Some w" and
      cs_eq: "cs = OnlyEnforceIf (LinNe (Lin [] id1) (Lin [(1, w)] 0)) (Pos s1)
                 # (if id1 \<noteq> id2
                    then [OnlyEnforceIf (LinNe (Lin [] id2) (Lin [(1, w)] 0)) (Pos s2)]
                    else [])"
      by (auto simp: study_lesson_constraints_def bindE_Inr_iff getattr_def b3_def
          split: option.splits)
    from cs(1) have "set cs \<subseteq> set (constraints b')"
      by (auto simp: b' Add_def)
    with w cs_eq show ?thesis by auto
  qed
  have "studyDay1BoolVar b' (teacher_id te) = Some s1"
       "studyDay2BoolVar b' (teacher_id te) = Some s2"
       "BoolOr [Pos s1, Pos s2] \<in> set (constraints b')"
       "s2 = s1 \<longleftrightarrow> id1 = id2"
    by (simp_all add: b' Add_def b3_def s2_def)
  with id1 id2 per_lesson show ?thesis by blast
qed

text \<open>
  Claim C8. For every teacher with both study days set and at least one lesson, the
  builder attaches two Booleans \<open>S1\<close> and \<open>S2\<close> to the teacher, and \<open>S2\<close> is the same
  variable as \<open>S1\<close> exactly when the two weekdays are the same. For every lesson of the
  teacher it posts \<open>id(study_day_1) \<noteq> weekdayVar\<close> under \<open>S1\<close> and, when the days differ,
  \<open>id(study_day_2) \<noteq> weekdayVar\<close> under \<open>S2\<close>; it posts \<open>S1 \<or> S2\<close>. So in every feasible
  assignment of the built model the weekday variables of all lessons of the teacher differ
  from the first chosen day, or all differ from the second.
\<close>

theorem study_day_constraints:
  assumes run: "addTeacherStudyDayConstraints b om = Inr b'"
      and te: "te \<in> set (getTeachers om)"
      and ids: "distinct (map teacher_id (getTeachers om))"
      and days: "study_day_1 te = Some d1" "study_day_2 te = Some d2"
      and lessons: "teacher_lessons om te \<noteq> []"
  shows "\<exists>s1 s2 id1 id2.
           getWeekdayID d1 = Inr id1 \<and> getWeekdayID d2 = Inr id2 \<and>
           studyDay1BoolVar b' (teacher_id te) = Some s1 \<and>
           studyDay2BoolVar b' (teacher_id te) = Some s2 \<and>
           (s2 = s1 \<longleftrightarrow> d1 = d2) \<and>
           BoolOr [Pos s1, Pos s2] \<in> set (constraints b') \<and>
           (\<forall>l \<in> set (teacher_lessons om te). \<exists>w.
               weekdayVar b' (lesson_id l) = Some w \<and>
               OnlyEnforceIf (LinNe (Lin [] id1) (Lin [(1, w)] 0)) (Pos s1) \<in> set (constraints b') \<and>
               (d1 \<noteq> d2 \<longrightarrow>
                OnlyEnforceIf (LinNe (Lin [] id2) (Lin [(1, w)] 0)) (Pos s2) \<in> set (constraints b'))) \<and>
           (\<forall>a. feasible b' a \<longrightarrow>
               (\<forall>l \<in> set (teacher_lessons om te). \<exists>w.
                   weekdayVar b' (lesson_id l) = Some w \<and> a w \<noteq> id1) \<or>
               (\<forall>l \<in> set (teacher_lessons om te). \<exists>w.
                   weekdayVar b' (lesson_id l) = Some w \<and> a w \<noteq> id2))"
proof -
  let ?tes = "filter hasStudyday (getTeachers om)"
  from te days have "te \<in> set ?tes" by (simp add: hasStudyday_def)
  then obtain pre post where split: "?tes = pre @ te # post"
    by (auto dest: split_list)
  from ids have "distinct (map teacher_id ?tes)"
    by (rule distinct_map_filter)
  with split have fresh: "teacher_id te \<notin> teacher_id ` set post" by auto
  from run split have
    "bindE (foldE (study_teacher_round om) pre b) (foldE (study_teacher_round om) (te # post))
       = Inr b'"
    by (simp add: addTeacherStudyDayConstraints_def foldE_append)
  then obtain b0 where
    0: "foldE (study_teacher_round om) pre b = Inr b0" and
    rest: "foldE (study_teacher_round om) (te # post) b0 = Inr b'"
    by (auto simp: bindE_Inr_iff)
  from rest obtain b1 where
    1: "study_teacher_round om te b0 = Inr b1" and
    2: "foldE (study_teacher_round om) post b1 = Inr b'"
    by (cases "study_teacher_round om te b0") auto
  from study_teacher_round_posts [OF days lessons 1] obtain s1 s2 id1 id2 where
    r: "getWeekdayID d1 = Inr id1" "getWeekdayID d2 = Inr id2"
       "studyDay1BoolVar b1 (teacher_id te) = Some s1"
       "studyDay2BoolVar b1 (teacher_id te) = Some s2"
       "s2 = s1 \<longleftrightarrow> id1 = id2"
       "BoolOr [Pos s1, Pos s2] \<in> set (constraints b1)"
       "\<forall>l \<in> set (teacher_lessons om te). \<exists>w.
               weekdayVar b0 (lesson_id l) = Some w \<and>
               OnlyEnforceIf (LinNe (Lin [] id1) (Lin [(1, w)] 0)) (Pos s1) \<in> set (constraints b1) \<and>
               (id1 \<noteq> id2 \<longrightarrow>
                OnlyEnforceIf (LinNe (Lin [] id2) (Lin [(1, w)] 0)) (Pos s2) \<in> set (constraints b1))"
    by blast
  from study_teacher_round_extends [OF 1] foldE_study_extends [OF 2] have
    wv: "weekdayVar b' = weekdayVar b0" and sub: "set (constraints b1) \<subseteq> set (constraints b')"
    by auto
  from foldE_study_other [OF 2 fresh] r(3,4) have
    attrs: "studyDay1BoolVar b' (teacher_id te) = Some s1"
           "studyDay2BoolVar b' (teacher_id te) = Some s2"
    by simp_all
  have same: "id1 = id2 \<longleftrightarrow> d1 = d2"
    using r(1,2) getWeekdayID_inj by auto
  have posted: "\<forall>l \<in> set (teacher_lessons om te). \<exists>w.
               weekdayVar b' (lesson_id l) = Some w \<and>
               OnlyEnforceIf (LinNe (Lin [] id1) (Lin [(1, w)] 0)) (Pos s1) \<in> set (constraints b') \<and>
               (d1 \<noteq> d2 \<longrightarrow>
                OnlyEnforceIf (LinNe (Lin [] id2) (Lin [(1, w)] 0)) (Pos s2) \<in> set (constraints b'))"
    using r(7) sub wv same by fastforce
  have or: "BoolOr [Pos s1, Pos s2] \<in> set (constraints b')"
    using r(6) sub by auto
  have free: "(\<forall>l \<in> set (teacher_lessons om te). \<exists>w.
                   weekdayVar b' (lesson_id l) = Some w \<and> a w \<noteq> id1) \<or>
               (\<forall>l \<in> set (teacher_lessons om te). \<exists>w.
                   weekdayVar b' (lesson_id l) = Some w \<and> a w \<noteq> id2)"
    if "feasible b' a" for a
  proof -
    from that have h: "\<And>c. c \<in> set (constraints b') \<Longrightarrow> holds a c"
      by (simp add: feasible_def list_all_iff)
    from h [OF or] have "a s1 = 1 \<or> a s2 = 1" by simp
    then show ?thesis
    proof
      assume s1: "a s1 = 1"
      have "\<exists>w. weekdayVar b' (lesson_id l) = Some w \<and> a w \<noteq> id1"
        if "l \<in> set (teacher_lessons om te)" for l
      proof -
        from posted that obtain w where
          "weekdayVar b' (lesson_id l) = Some w"
          "OnlyEnforceIf (LinNe (Lin [] id1) (Lin [(1, w)] 0)) (Pos s1) \<in> set (constraints b')"
          by blast
        with h [OF this(2)] s1 show ?thesis by auto
      qed
      then show ?thesis by blast
    next
      assume s2: "a s2 = 1"
      have "\<exists>w. weekdayVar b' (lesson_id l) = Some w \<and> a w \<noteq> id2"
        if "l \<in> set (teacher_lessons om te)" for l
      proof (cases "d1 = d2")
        case True
        with same r(5) have e: "s2 = s1" "id1 = id2" by auto
        from posted that obtain w where
          "weekdayVar b' (lesson_id l) = Some w"
          "OnlyEnforceIf (LinNe (Lin [] id1) (Lin [(1, w)] 0)) (Pos s1) \<in> set (constraints b')"
          by blast
        with h [OF this(2)] s2 e show ?thesis by auto
      next
        case False
        with posted that obtain w where
          "weekdayVar b' (lesson_id l) = Some w"
          "OnlyEnforceIf (LinNe (Lin [] id2) (Lin [(1, w)] 0)) (Pos s2) \<in> set (constraints b')"
          by blast
        with h [OF this(2)] s2 show ?thesis by auto
      qed
      then show ?thesis by blast
    qed
  qed
  from r(1,2) attrs r(5) same or posted free show ?thesis by blast
qed

lemma run_teacher_MO_FR:
  "case addTeacherStudyDayConstraints build_S (orm_A\<lparr>getTeachers := [teacher_MO_FR]\<rparr>) of
     Inl e \<Rightarrow> False | Inr b' \<Rightarrow> True"
  by code_simp

lemma lessons_teacher_MO_FR:
  "teacher_MO_FR \<in> set (getTeachers (orm_A\<lparr>getTeachers := [teacher_MO_FR]\<rparr>))"
  "distinct (map teacher_id (getTeachers (orm_A\<lparr>getTeachers := [teacher_MO_FR]\<rparr>)))"
  "study_day_1 teacher_MO_FR = Some ''MO''"
  "study_day_2 teacher_MO_FR = Some ''FR''"
  "teacher_lessons (orm_A\<lparr>getTeachers := [teacher_MO_FR]\<rparr>) teacher_MO_FR \<noteq> []"
  by (simp_all add: teacher_MO_FR_def teacher_lessons_def orm_A_def lecture_lesson_def default_teacher_def)

theorem study_day_constraints_witness:
  "case addTeacherStudyDayConstraints build_S (orm_A\<lparr>getTeachers := [teacher_MO_FR]\<rparr>) of
     Inl e \<Rightarrow> False
   | Inr b' \<Rightarrow>
       (\<exists>s1 s2. studyDay1BoolVar b' 1 = Some s1 \<and> studyDay2BoolVar b' 1 = Some s2 \<and> s2 \<noteq> s1 \<and>
           BoolOr [Pos s1, Pos s2] \<in> set (constraints b'))"
proof -
  from run_teacher_MO_FR obtain b' where
    1: "addTeacherStudyDayConstraints build_S (orm_A\<lparr>getTeachers := [teacher_MO_FR]\<rparr>) = Inr b'"
    by (cases "addTeacherStudyDayConstraints build_S (orm_A\<lparr>getTeachers := [teacher_MO_FR]\<rparr>)")
      auto
  have tid: "teacher_id teacher_MO_FR = 1"
    by (simp add: teacher_MO_FR_def default_teacher_def)
  from study_day_constraints [OF 1 lessons_teacher_MO_FR]
  have "\<exists>s1 s2. studyDay1BoolVar b' 1 = Some s1 \<and> studyDay2BoolVar b' 1 = Some s2 \<and> s2 \<noteq> s1 \<and>
           BoolOr [Pos s1, Pos s2] \<in> set (constraints b')"
    unfolding tid by fastforce
  with 1 show ?thesis by simp
qed

section \<open>Properties of the objective\<close>

lemma hour_boolVars_slots:
  assumes "hour_boolVars b om n = Inr vs"
  shows "\<exists>vss. vs = concat vss \<and> hour_slot_bools b om n vss"
proof -
  from assms obtain vss where
    vss: "mapE (\<lambda>l. mapE (\<lambda>t. bindE (getattr (timeslotBoolVars b (lesson_id l)))
                                    (\<lambda>bs. py_index bs (ts_id t - 1)))
                          (filter (\<lambda>t. number t = n) (getTimeslots om)))
             (getLessons om) = Inr vss" and
    vs: "vs = concat vss"
    by (auto simp: hour_boolVars_def bindE_Inr_iff)
  have slot: "is_slot_bool b l t v"
    if "bindE (getattr (timeslotBoolVars b (lesson_id l))) (\<lambda>bs. py_index bs (ts_id t - 1)) = Inr v"
    for l t v
    using that by (auto simp: is_slot_bool_def bindE_Inr_iff getattr_def split: option.splits)
  from mapE_list_all2 [OF vss] have "hour_slot_bools b om n vss"
    unfolding hour_slot_bools_def
    by (rule list_all2_mono) (auto dest!: mapE_list_all2 elim!: list_all2_mono intro: slot)
  with vs show ?thesis by blast
qed

lemma hour_boolVars_attrs:
  "timeslotBoolVars b1 = timeslotBoolVars b \<Longrightarrow> hour_boolVars b1 om n = hour_boolVars b om n"
  by (simp add: hour_boolVars_def)

lemma addCountLessonsAtNthHour_result:
  assumes "addCountLessonsAtNthHour b om n = Inr (c, b')"
  shows "\<exists>vs. hour_boolVars b om n = Inr vs \<and>
           constraints b' = constraints b @ [LinEq (Lin [(1, c)] 0) (Lin (map (\<lambda>v. (1, v)) vs) 0)] \<and>
           timeslotBoolVars b' = timeslotBoolVars b"
  using assms
  by (auto simp: addCountLessonsAtNthHour_def NewIntVar_def NewIntVarFromDomain_def Add_def
      bindE_Inr_iff hour_boolVars_def)

text \<open>
  Claim C9. When the search optimizes, the objective holds the summands
  \<open>2 * count_hour(1)\<close>, \<open>3 * count_hour(5)\<close> and \<open>5 * count_hour(6)\<close>, and the model holds,
  for each of the three hours \<open>n\<close>, the constraint that \<open>count_hour(n)\<close> equals the sum,
  over all lessons and all timeslots whose number in the day is \<open>n\<close>, of the per-slot
  Boolean \<open>timeslotBoolVars[timeslot.id - 1]\<close> of the lesson; so the equation holds in
  every feasible assignment.
\<close>

theorem hour_penalties_in_objective:
  assumes "set_objective True rest b om = Inr (b', obj)"
  shows "\<exists>summands c1 c5 c6 vss1 vss5 vss6.
           obj = Some summands \<and>
           Weighted c1 2 \<in> set summands \<and> Weighted c5 3 \<in> set summands \<and>
           Weighted c6 5 \<in> set summands \<and>
           hour_slot_bools b om 1 vss1 \<and> hour_slot_bools b om 5 vss5 \<and>
           hour_slot_bools b om 6 vss6 \<and>
           LinEq (Lin [(1, c1)] 0) (Lin (map (\<lambda>v. (1, v)) (concat vss1)) 0) \<in> set (constraints b') \<and>
           LinEq (Lin [(1, c5)] 0) (Lin (map (\<lambda>v. (1, v)) (concat vss5)) 0) \<in> set (constraints b') \<and>
           LinEq (Lin [(1, c6)] 0) (Lin (map (\<lambda>v. (1, v)) (concat vss6)) 0) \<in> set (constraints b') \<and>
           (\<forall>a. feasible b' a \<longrightarrow>
                a c1 = sum_list (map a (concat vss1)) \<and>
                a c5 = sum_list (map a (concat vss5)) \<and>
                a c6 = sum_list (map a (concat vss6)))"
proof -
  from assms obtain summands0 c6 b6 c5 b5 c1 b1 nd nc ns where
    s6: "addCountLessonsAtNthHour b om 6 = Inr (c6, b6)" and
    s5: "addCountLessonsAtNthHour b6 om 5 = Inr (c5, b5)" and
    s1: "addCountLessonsAtNthHour b5 om 1 = Inr (c1, b1)" and
    obj: "obj = Some (summands0 @ [Weighted c6 SIXTH_HOUR_PENALTY, Weighted c5 FIFTH_HOUR_PENALTY,
                  Weighted c1 FIRST_HOUR_PENALTY] @ ns)" and
    b': "b' = b1\<lparr>var_domains := var_domains b1 @ nd, constraints := constraints b1 @ nc\<rparr>"
    by (auto simp: set_objective_def SEARCH_ALL_def SEARCH_FOR_INVALIDS_def
        createObjectiveFunctionSummands_def bindE_Inr_iff)
  from addCountLessonsAtNthHour_result [OF s6] obtain vs6 where
    6: "hour_boolVars b om 6 = Inr vs6"
       "constraints b6 = constraints b @ [LinEq (Lin [(1, c6)] 0) (Lin (map (\<lambda>v. (1, v)) vs6) 0)]"
       "timeslotBoolVars b6 = timeslotBoolVars b"
    by auto
  from addCountLessonsAtNthHour_result [OF s5] hour_boolVars_attrs [OF 6(3)] obtain vs5 where
    5: "hour_boolVars b om 5 = Inr vs5"
       "constraints b5 = constraints b6 @ [LinEq (Lin [(1, c5)] 0) (Lin (map (\<lambda>v. (1, v)) vs5) 0)]"
       "timeslotBoolVars b5 = timeslotBoolVars b"
    using 6(3) by auto
  from addCountLessonsAtNthHour_result [OF s1] hour_boolVars_attrs [OF 5(3)] obtain vs1 where
    1: "hour_boolVars b om 1 = Inr vs1"
       "constraints b1 = constraints b5 @ [LinEq (Lin [(1, c1)] 0) (Lin (map (\<lambda>v. (1, v)) vs1) 0)]"
    by auto
  from hour_boolVars_slots [OF 6(1)] hour_boolVars_slots [OF 5(1)] hour_boolVars_slots [OF 1(1)]
  obtain vss6 vss5 vss1 where
    v: "vs6 = concat vss6" "hour_slot_bools b om 6 vss6"
       "vs5 = concat vss5" "hour_slot_bools b om 5 vss5"
       "vs1 = concat vss1" "hour_slot_bools b om 1 vss1"
    by blast
  have mem:
    "LinEq (Lin [(1, c1)] 0) (Lin (map (\<lambda>v. (1, v)) (concat vss1)) 0) \<in> set (constraints b')"
    "LinEq (Lin [(1, c5)] 0) (Lin (map (\<lambda>v. (1, v)) (concat vss5)) 0) \<in> set (constraints b')"
    "LinEq (Lin [(1, c6)] 0) (Lin (map (\<lambda>v. (1, v)) (concat vss6)) 0) \<in> set (constraints b')"
    using 6(2) 5(2) 1(2) v by (simp_all add: b')
  have ev: "eval_lin a (Lin (map (\<lambda>v. (1, v)) vs) 0) = sum_list (map a vs)" for a vs
    by (simp add: comp_def)
  have sem: "a c1 = sum_list (map a (concat vss1)) \<and>
             a c5 = sum_list (map a (concat vss5)) \<and>
             a c6 = sum_list (map a (concat vss6))" if "feasible b' a" for a
  proof -
    from that have h: "\<And>c. c \<in> set (constraints b') \<Longrightarrow> holds a c"
      by (simp add: feasible_def list_all_iff)
    from h [OF mem(1)] h [OF mem(2)] h [OF mem(3)] show ?thesis
      unfolding holds.simps ev by simp
  qed
  define summands where "summands = summands0 @ [Weighted c6 SIXTH_HOUR_PENALTY,
     Weighted c5 FIFTH_HOUR_PENALTY, Weighted c1 FIRST_HOUR_PENALTY] @ ns"
  have w: "Weighted c1 2 \<in> set summands" "Weighted c5 3 \<in> set summands"
          "Weighted c6 5 \<in> set summands"
    by (simp_all add: summands_def SIXTH_HOUR_PENALTY_def FIFTH_HOUR_PENALTY_def
        FIRST_HOUR_PENALTY_def)
  from obj have "obj = Some summands" by (simp add: summands_def)
  with w v(2,4,6) mem sem show ?thesis by blast
qed

lemma run_objective_A:
  "case set_objective True (\<lambda>b. Inr ([], [], [])) build_T orm_A of
     Inl e \<Rightarrow> False
   | Inr (b', obj) \<Rightarrow> obj = Some [Weighted 120 5, Weighted 121 3, Weighted 122 2]"
  by code_simp

theorem hour_penalties_in_objective_witness:
  "case set_objective True (\<lambda>b. Inr ([], [], [])) build_T orm_A of
     Inl e \<Rightarrow> False
   | Inr (b', obj) \<Rightarrow>
       obj = Some [Weighted 120 5, Weighted 121 3, Weighted 122 2] \<and>
       (\<exists>vss1 vss5 vss6.
          hour_slot_bools build_T orm_A 1 vss1 \<and> hour_slot_bools build_T orm_A 5 vss5 \<and>
          hour_slot_bools build_T orm_A 6 vss6 \<and>
          LinEq (Lin [(1, 122)] 0) (Lin (map (\<lambda>v. (1, v)) (concat vss1)) 0) \<in> set (constraints b') \<and>
          LinEq (Lin [(1, 121)] 0) (Lin (map (\<lambda>v. (1, v)) (concat vss5)) 0) \<in> set (constraints b') \<and>
          LinEq (Lin [(1, 120)] 0) (Lin (map (\<lambda>v. (1, v)) (concat vss6)) 0) \<in> set (constraints b'))"
proof -
  from run_objective_A obtain b' obj where
    1: "set_objective True (\<lambda>b. Inr ([], [], [])) build_T orm_A = Inr (b', obj)" and
    2: "obj = Some [Weighted 120 5, Weighted 121 3, Weighted 122 2]"
    by (cases "set_objective True (\<lambda>b. Inr ([], [], [])) build_T orm_A") auto
  from hour_penalties_in_objective [OF 1] obtain summands c1 c5 c6 vss1 vss5 vss6 where
    r: "obj = Some summands"
       "Weighted c1 2 \<in> set summands" "Weighted c5 3 \<in> set summands"
       "Weighted c6 5 \<in> set summands"
       "hour_slot_bools build_T orm_A 1 vss1" "hour_slot_bools build_T orm_A 5 vss5"
       "hour_slot_bools build_T orm_A 6 vss6"
       "LinEq (Lin [(1, c1)] 0) (Lin (map (\<lambda>v. (1, v)) (concat vss1)) 0) \<in> set (constraints b')"
       "LinEq (Lin [(1, c5)] 0) (Lin (map (\<lambda>v. (1, v)) (concat vss5)) 0) \<in> set (constraints b')"
       "LinEq (Lin [(1, c6)] 0) (Lin (map (\<lambda>v. (1, v)) (concat vss6)) 0) \<in> set (constraints b')"
    by blast
  from r(1-4) 2 have "c1 = 122" "c5 = 121" "c6 = 120" by auto
  with r(5-10) have "\<exists>vss1 vss5 vss6.
          hour_slot_bools build_T orm_A 1 vss1 \<and> hour_slot_bools build_T orm_A 5 vss5 \<and>
          hour_slot_bools build_T orm_A 6 vss6 \<and>
          LinEq (Lin [(1, 122)] 0) (Lin (map (\<lambda>v. (1, v)) (concat vss1)) 0) \<in> set (constraints b') \<and>
          LinEq (Lin [(1, 121)] 0) (Lin (map (\<lambda>v. (1, v)) (concat vss5)) 0) \<in> set (constraints b') \<and>
          LinEq (Lin [(1, 120)] 0) (Lin (map (\<lambda>v. (1, v)) (concat vss6)) 0) \<in> set (constraints b')"
    by blast
  with 1 2 show ?thesis by simp
qed

section \<open>Properties of the start-slot variables\<close>

lemma fold_append_timeVar:
  "distinct (map lesson_id ls) \<Longrightarrow>
   fold (append_timeVar v) ls tv i =
     (if i \<in> lesson_id ` set ls
      then Some (case tv i of None \<Rightarrow> [v] | Some vs \<Rightarrow> vs @ [v]) else tv i)"
proof (induction ls arbitrary: tv)
  case Nil
  then show ?case by simp
next
  case (Cons l ls)
  then show ?case by (auto simp: append_timeVar_def)
qed

lemma fold_reset_timeVars:
  "fold (\<lambda>x tv. tv(lesson_id x \<mapsto> [])) ls tv i =
     (if i \<in> lesson_id ` set ls then Some [] else tv i)"
  by (induction ls arbitrary: tv) auto

lemma max_list_Max: "xs \<noteq> [] \<Longrightarrow> max_list xs = Max (set xs)"
proof (induction xs rule: max_list.induct)
  case 1
  then show ?case by simp
next
  case (2 x)
  then show ?case by simp
next
  case (3 x y ys)
  then show ?case by (simp add: max.commute)
qed

lemma intersectAll_set:
  "intersectAll (x # xs) = Inr r \<Longrightarrow> set r = {t. t \<in> set x \<and> (\<forall>i \<in> set xs. t \<in> set i)}"
  by (auto simp: list_all_iff)

lemma intersectAll_Cons: "\<exists>r. intersectAll (x # xs) = Inr r"
  by simp


lemma intersectAll_map:
  assumes "ls \<noteq> []"
  shows "\<exists>r. intersectAll (map f ls) = Inr r \<and> set r = {t. \<forall>l \<in> set ls. t \<in> set (f l)}"
proof -
  from assms obtain l ls' where "ls = l # ls'" by (cases ls) auto
  then show ?thesis by (auto simp: list_all_iff)
qed

lemma distinct_ids_eq:
  "distinct (map lesson_id g) \<Longrightarrow> m \<in> set g \<Longrightarrow> m' \<in> set g \<Longrightarrow>
   lesson_id m = lesson_id m' \<Longrightarrow> m = m'"
  by (meson distinct_map inj_onD)

lemma extends_refl: "extends b b"
  by (simp add: extends_def)

lemma extends_trans: "extends a b \<Longrightarrow> extends b c \<Longrightarrow> extends a c"
  by (auto simp: extends_def)

text \<open>One round of the loop over \<open>i\<close>.\<close>

lemma time_vars_round:
  assumes dist: "distinct (map lesson_id g)"
      and k: "int k < Max (timeslot_size ` set g)"
      and inv: "loop_inv tpd g k lastTimeVar b"
      and r: "set r = {t. \<forall>l \<in> set (filter (\<lambda>l. timeslot_size l > int k) g).
                           t \<in> set (availableTimeslotsFiltered l)}"
      and b2: "b2 = (case lastTimeVar of
                     None \<Rightarrow> (\<lambda>x. x)
                   | Some lv \<Rightarrow> Add (LinEq (Lin [(1, length (var_domains b))] 0) (Lin [(1, lv)] 1)))
                  (b\<lparr>var_domains := var_domains b @
                                     [time_domain tpd (Max (timeslot_size ` set g)) k r],
                     timeVars := fold (append_timeVar (length (var_domains b)))
                                      (filter (\<lambda>l. timeslot_size l > int k) g)
                                      (timeVars b)\<rparr>)"
  shows "loop_inv tpd g (Suc k) (Some (length (var_domains b))) b2 \<and> extends b b2 \<and>
         (\<forall>i. i \<notin> lesson_id ` set g \<longrightarrow> timeVars b2 i = timeVars b i)"
proof -
  let ?v = "length (var_domains b)"
  let ?cur = "filter (\<lambda>l. timeslot_size l > int k) g"
  let ?dom = "time_domain tpd (Max (timeslot_size ` set g)) k r"
  have distcur: "distinct (map lesson_id ?cur)"
    using dist by (rule distinct_map_filter)
  have doms: "var_domains b2 = var_domains b @ [?dom]"
    by (simp add: b2 Add_def split: option.splits)
  have cons: "set (constraints b2) =
      set (constraints b) \<union>
      (case lastTimeVar of None \<Rightarrow> {}
       | Some lv \<Rightarrow> {LinEq (Lin [(1, ?v)] 0) (Lin [(1, lv)] 1)})"
    by (auto simp: b2 Add_def split: option.splits)
  have tv: "timeVars b2 i =
      (if i \<in> lesson_id ` set ?cur
       then Some (case timeVars b i of None \<Rightarrow> [?v] | Some vs \<Rightarrow> vs @ [?v])
       else timeVars b i)" for i
    using fold_append_timeVar [OF distcur, of ?v "timeVars b" i]
    by (simp add: b2 Add_def split: option.splits)
  have dom: "set ?dom = group_domain tpd g k"
    by (auto simp: time_domain_def group_domain_def r)
  have incur: "lesson_id m \<in> lesson_id ` set ?cur \<longleftrightarrow> int k < timeslot_size m"
    if "m \<in> set g" for m
    using that distinct_ids_eq [OF dist] by auto
  have inv': "\<exists>vs.
        timeVars b2 (lesson_id m) = Some vs \<and>
        length vs = min (Suc k) (nat (timeslot_size m)) \<and>
        (\<forall>i < length vs. vs ! i < length (var_domains b2) \<and>
                         set (var_domains b2 ! (vs ! i)) = group_domain tpd g i) \<and>
        (\<forall>i. Suc i < length vs \<longrightarrow>
              LinEq (Lin [(1, vs ! Suc i)] 0) (Lin [(1, vs ! i)] 1) \<in> set (constraints b2)) \<and>
        (0 < Suc k \<and> length vs = Suc k \<longrightarrow> Some ?v = Some (vs ! (Suc k - 1)))"
    if m: "m \<in> set g" for m
  proof -
    from inv m obtain vs where
      vs: "timeVars b (lesson_id m) = Some vs"
          "length vs = min k (nat (timeslot_size m))"
          "\<forall>i < length vs. vs ! i < length (var_domains b) \<and>
                         set (var_domains b ! (vs ! i)) = group_domain tpd g i"
          "\<forall>i. Suc i < length vs \<longrightarrow>
              LinEq (Lin [(1, vs ! Suc i)] 0) (Lin [(1, vs ! i)] 1) \<in> set (constraints b)"
          "0 < k \<and> length vs = k \<longrightarrow> lastTimeVar = Some (vs ! (k - 1))"
      unfolding loop_inv_def by blast
    show ?thesis
    proof (cases "int k < timeslot_size m")
      case True
      then have len: "length vs = k" using vs(2) by auto
      from True tv [of "lesson_id m"] incur [OF m] vs(1)
      have t2: "timeVars b2 (lesson_id m) = Some (vs @ [?v])" by simp
      have l2: "length (vs @ [?v]) = min (Suc k) (nat (timeslot_size m))"
        using True len by auto
      have d2: "(vs @ [?v]) ! i < length (var_domains b2) \<and>
                set (var_domains b2 ! ((vs @ [?v]) ! i)) = group_domain tpd g i"
        if "i < length (vs @ [?v])" for i
      proof (cases "i < k")
        case True
        with vs(3) len show ?thesis by (auto simp: doms nth_append)
      next
        case False
        with that len have "i = k" by simp
        with len dom show ?thesis by (simp add: doms nth_append)
      qed
      have c2: "LinEq (Lin [(1, (vs @ [?v]) ! Suc i)] 0) (Lin [(1, (vs @ [?v]) ! i)] 1)
                  \<in> set (constraints b2)"
        if "Suc i < length (vs @ [?v])" for i
      proof (cases "Suc i < k")
        case True
        with vs(4) len show ?thesis by (auto simp: cons nth_append)
      next
        case False
        with that len have i: "Suc i = k" by simp
        then have ki: "k - 1 = i" "0 < k" by auto
        with vs(5) len have "lastTimeVar = Some (vs ! i)" by simp
        with i len show ?thesis by (auto simp: cons nth_append)
      qed
      from t2 l2 d2 c2 len show ?thesis
        by (intro exI [of _ "vs @ [?v]"]) (auto simp: nth_append)
    next
      case False
      then have len: "length vs = nat (timeslot_size m)" "length vs \<le> k" using vs(2) by auto
      from False tv [of "lesson_id m"] incur [OF m] vs(1)
      have t2: "timeVars b2 (lesson_id m) = Some vs" by simp
      from t2 len vs(3,4) show ?thesis
        by (intro exI [of _ vs]) (auto simp: doms cons nth_append)
    qed
  qed
  have ext: "extends b b2"
    by (auto simp: extends_def doms cons tv)
  have frame: "\<forall>i. i \<notin> lesson_id ` set g \<longrightarrow> timeVars b2 i = timeVars b i"
    by (auto simp: tv)
  from inv' ext frame show ?thesis
    unfolding loop_inv_def by blast
qed


lemma time_vars_loop_inv:
  assumes dist: "distinct (map lesson_id g)" and g: "g \<noteq> []"
      and n: "n = nat (Max (timeslot_size ` set g))"
      and k: "k \<le> n"
      and inv: "loop_inv tpd g k lastTimeVar b"
  shows "\<exists>b' last'.
           time_vars_loop tpd (Max (timeslot_size ` set g)) g [k..<n] lastTimeVar b = Inr b' \<and>
           loop_inv tpd g n last' b' \<and> extends b b' \<and>
           (\<forall>i. i \<notin> lesson_id ` set g \<longrightarrow> timeVars b' i = timeVars b i)"
  using k inv
proof (induction "n - k" arbitrary: k lastTimeVar b)
  case 0
  then have "k = n" by simp
  with "0.prems" show ?case
    by (auto intro: extends_refl)
next
  case (Suc d)
  then have kn: "k < n" by simp
  with n have kmax: "int k < Max (timeslot_size ` set g)" by simp
  let ?cur = "filter (\<lambda>l. timeslot_size l > int k) g"
  from g have "Max (timeslot_size ` set g) \<in> timeslot_size ` set g"
    by (intro Max_in) auto
  with kmax have "?cur \<noteq> []"
    by (auto simp: filter_empty_conv)
  from intersectAll_map [OF this, of availableTimeslotsFiltered] obtain r where
    r: "intersectAll (map availableTimeslotsFiltered ?cur) = Inr r"
       "set r = {t. \<forall>l \<in> set ?cur. t \<in> set (availableTimeslotsFiltered l)}"
    by blast
  define b2 where "b2 = (case lastTimeVar of
                     None \<Rightarrow> (\<lambda>x. x)
                   | Some lv \<Rightarrow> Add (LinEq (Lin [(1, length (var_domains b))] 0) (Lin [(1, lv)] 1)))
                  (b\<lparr>var_domains := var_domains b @
                                     [time_domain tpd (Max (timeslot_size ` set g)) k r],
                     timeVars := fold (append_timeVar (length (var_domains b)))
                                      (filter (\<lambda>l. timeslot_size l > int k) g)
                                      (timeVars b)\<rparr>)"
  from time_vars_round [OF dist kmax Suc.prems(2) r(2) b2_def] have
    step: "loop_inv tpd g (Suc k) (Some (length (var_domains b))) b2" "extends b b2"
          "\<forall>i. i \<notin> lesson_id ` set g \<longrightarrow> timeVars b2 i = timeVars b i"
    by simp_all
  from Suc.hyps(2) kn have "d = n - Suc k" "Suc k \<le> n" by simp_all
  from Suc.hyps(1) [OF this step(1)] obtain b' last' where
    rest: "time_vars_loop tpd (Max (timeslot_size ` set g)) g [Suc k..<n]
             (Some (length (var_domains b))) b2 = Inr b'"
          "loop_inv tpd g n last' b'" "extends b2 b'"
          "\<forall>i. i \<notin> lesson_id ` set g \<longrightarrow> timeVars b' i = timeVars b2 i"
    by blast
  have "time_vars_loop tpd (Max (timeslot_size ` set g)) g [k..<n] lastTimeVar b = Inr b'"
    using kn r(1) rest(1)
    by (simp add: upt_conv_Cons NewIntVarFromDomain_def b2_def)
  with rest(2-4) step(2,3) show ?case
    by (auto intro: extends_trans)
qed

lemma find_in_set: "find P xs = Some x \<Longrightarrow> x \<in> set xs"
  by (induction xs) (auto split: if_splits)

lemma map_filter_subset:
  "(\<And>x y. f x = Some y \<Longrightarrow> y \<in> A) \<Longrightarrow> set (List.map_filter f xs) \<subseteq> A"
  by (induction xs) (auto simp: List.map_filter_simps split: option.splits)

lemma resolve_subset: "set (resolve om ids) \<subseteq> set (getLessons om)"
  unfolding resolve_def
  by (rule map_filter_subset) (auto simp: lesson_by_id_def dest: find_in_set)

lemma lessonsSameTime_subset:
  "l \<in> set (getLessons om) \<Longrightarrow> set (lessonsSameTime om l) \<subseteq> set (getLessons om)"
  using resolve_subset by (auto simp: lessonsSameTime_def)

lemma group_domain_cong: "set g = set g' \<Longrightarrow> group_domain tpd g i = group_domain tpd g' i"
  by (simp add: group_domain_def)

lemma spec_timeVars_mono:
  assumes "spec_timeVars om b l vs" "var_domains b' = var_domains b @ ds"
      and "set (constraints b) \<subseteq> set (constraints b')"
  shows "spec_timeVars om b' l vs"
  using assms by (auto simp: spec_timeVars_def nth_append)

lemma time_vars_lesson_ok:
  assumes wf: "wf_same_time om" and l: "l \<in> set (getLessons om)" and ok: "timeVars_ok om b"
  shows "\<exists>b'. time_vars_lesson om rd l b = Inr b' \<and> timeVars_ok om b' \<and> extends b b' \<and>
              timeVars b' (lesson_id l) \<noteq> None"
proof (cases "timeVars b (lesson_id l) = None")
  case False
  let ?b2 = "b\<lparr>var_domains := var_domains b @ [rd],
               roomVar := (roomVar b)(lesson_id l \<mapsto> length (var_domains b))\<rparr>"
  from False have run: "time_vars_lesson om rd l b = Inr ?b2"
    by (auto simp: time_vars_lesson_def NewIntVarFromDomain_def Let_def)
  have "timeVars_ok om ?b2"
    unfolding timeVars_ok_def
  proof (intro ballI allI impI)
    fix x vs
    assume "x \<in> set (getLessons om)" "timeVars ?b2 (lesson_id x) = Some vs"
    with ok have "spec_timeVars om b x vs" by (simp add: timeVars_ok_def)
    then show "spec_timeVars om ?b2 x vs"
      by (rule spec_timeVars_mono [where ds = "[rd]"]) simp_all
  qed
  moreover have "extends b ?b2" by (simp add: extends_def)
  ultimately show ?thesis using run False by simp
next
  case True
  let ?g = "lessonsSameTime om l"
  let ?mx = "Max (timeslot_size ` set ?g)"
  let ?b3 = "b\<lparr>var_domains := var_domains b @ [rd],
               roomVar := (roomVar b)(lesson_id l \<mapsto> length (var_domains b)),
               timeVars := fold (\<lambda>x tv. tv(lesson_id x \<mapsto> [])) ?g (timeVars b)\<rparr>"
  have g: "?g \<noteq> []" "l \<in> set ?g" by (simp_all add: lessonsSameTime_def)
  from wf l have dist: "distinct (map lesson_id ?g)"
    and same: "\<And>m. m \<in> set ?g \<Longrightarrow> set (lessonsSameTime om m) = set ?g"
    and ids: "distinct (map lesson_id (getLessons om))"
    by (auto simp: wf_same_time_def)
  have mx: "maxLessonSize om l = ?mx"
    using g(1) by (simp add: maxLessonSize_def max_list_Max)
  have inv0: "loop_inv (TIMESLOTS_PER_DAY om) ?g 0 None ?b3"
    by (auto simp: loop_inv_def fold_reset_timeVars)
  from time_vars_loop_inv [OF dist g(1) refl _ inv0] obtain b' last' where
    loop: "time_vars_loop (TIMESLOTS_PER_DAY om) ?mx ?g [0..<nat ?mx] None ?b3 = Inr b'"
          "loop_inv (TIMESLOTS_PER_DAY om) ?g (nat ?mx) last' b'"
          "extends ?b3 b'"
          "\<forall>i. i \<notin> lesson_id ` set ?g \<longrightarrow> timeVars b' i = timeVars ?b3 i"
    by auto
  from True have run: "time_vars_lesson om rd l b = Inr b'"
    using loop(1) by (simp add: time_vars_lesson_def NewIntVarFromDomain_def Let_def mx)
  from loop(3) obtain ds where
    doms: "var_domains b' = var_domains b @ ([rd] @ ds)" and
    cons: "set (constraints b) \<subseteq> set (constraints b')"
    by (auto simp: extends_def)
  have member: "spec_timeVars om b' m vs"
    if m: "m \<in> set ?g" and vs: "timeVars b' (lesson_id m) = Some vs" for m vs
  proof -
    from loop(2) m obtain vs' where
      "timeVars b' (lesson_id m) = Some vs'"
      "length vs' = min (nat ?mx) (nat (timeslot_size m))"
      "\<forall>i < length vs'. vs' ! i < length (var_domains b') \<and>
                 set (var_domains b' ! (vs' ! i)) = group_domain (TIMESLOTS_PER_DAY om) ?g i"
      "\<forall>i. Suc i < length vs' \<longrightarrow>
              LinEq (Lin [(1, vs' ! Suc i)] 0) (Lin [(1, vs' ! i)] 1) \<in> set (constraints b')"
      unfolding loop_inv_def by blast
    with vs have
      p: "length vs = min (nat ?mx) (nat (timeslot_size m))"
         "\<forall>i < length vs. vs ! i < length (var_domains b') \<and>
                 set (var_domains b' ! (vs ! i)) = group_domain (TIMESLOTS_PER_DAY om) ?g i"
         "\<forall>i. Suc i < length vs \<longrightarrow>
              LinEq (Lin [(1, vs ! Suc i)] 0) (Lin [(1, vs ! i)] 1) \<in> set (constraints b')"
      by simp_all
    from m have "timeslot_size m \<le> ?mx" by simp
    with p(1) have len: "length vs = nat (timeslot_size m)" by simp
    have "spec_time_domain om m i = group_domain (TIMESLOTS_PER_DAY om) ?g i" for i
      unfolding spec_time_domain_def by (rule group_domain_cong) (rule same [OF m])
    with len p(2,3) show ?thesis by (simp add: spec_timeVars_def)
  qed
  have some: "timeVars b' (lesson_id m) \<noteq> None" if "m \<in> set ?g" for m
  proof -
    from loop(2) that obtain vs where "timeVars b' (lesson_id m) = Some vs"
      unfolding loop_inv_def by blast
    then show ?thesis by simp
  qed
  have other: "timeVars b' i = timeVars b i" if "i \<notin> lesson_id ` set ?g" for i
    using loop(4) that by (simp add: fold_reset_timeVars)
  have ok': "timeVars_ok om b'"
    unfolding timeVars_ok_def
  proof (intro ballI allI impI)
    fix x vs
    assume x: "x \<in> set (getLessons om)" and vs: "timeVars b' (lesson_id x) = Some vs"
    show "spec_timeVars om b' x vs"
    proof (cases "lesson_id x \<in> lesson_id ` set ?g")
      case True
      then obtain m where m: "m \<in> set ?g" "lesson_id x = lesson_id m" by auto
      with lessonsSameTime_subset [OF l] have "m \<in> set (getLessons om)" by auto
      with x m(2) ids have "x = m"
        by (meson distinct_map inj_onD)
      with member m(1) vs show ?thesis by simp
    next
      case False
      with other vs have "timeVars b (lesson_id x) = Some vs" by simp
      with ok x have "spec_timeVars om b x vs" by (simp add: timeVars_ok_def)
      then show ?thesis by (rule spec_timeVars_mono [OF _ doms cons])
    qed
  qed
  have ext: "extends b b'"
    unfolding extends_def
  proof (intro conjI allI impI)
    show "\<exists>ds. var_domains b' = var_domains b @ ds" using doms by blast
    show "set (constraints b) \<subseteq> set (constraints b')" by (rule cons)
  next
    fix i
    assume "timeVars b i \<noteq> None"
    then show "timeVars b' i \<noteq> None"
      using some other by (cases "i \<in> lesson_id ` set ?g") auto
  qed
  from run ok' ext some [OF g(2)] show ?thesis by simp
qed

lemma foldE_time_vars_lessons:
  assumes wf: "wf_same_time om"
  shows "set ls \<subseteq> set (getLessons om) \<Longrightarrow> timeVars_ok om b \<Longrightarrow>
         \<exists>b'. foldE (time_vars_lesson om rd) ls b = Inr b' \<and> timeVars_ok om b' \<and> extends b b' \<and>
              (\<forall>l \<in> set ls. timeVars b' (lesson_id l) \<noteq> None)"
proof (induction ls arbitrary: b)
  case Nil
  then show ?case by (simp add: extends_refl)
next
  case (Cons l ls)
  from Cons.prems have l: "l \<in> set (getLessons om)" and ls: "set ls \<subseteq> set (getLessons om)"
    by simp_all
  from time_vars_lesson_ok [OF wf l Cons.prems(2)] obtain b1 where
    1: "time_vars_lesson om rd l b = Inr b1" "timeVars_ok om b1" "extends b b1"
       "timeVars b1 (lesson_id l) \<noteq> None"
    by blast
  from Cons.IH [OF ls 1(2)] obtain b' where
    2: "foldE (time_vars_lesson om rd) ls b1 = Inr b'" "timeVars_ok om b'" "extends b1 b'"
       "\<forall>l \<in> set ls. timeVars b' (lesson_id l) \<noteq> None"
    by blast
  from 1(4) 2(3) have "timeVars b' (lesson_id l) \<noteq> None"
    by (simp add: extends_def)
  with 1(1,3) 2 show ?case
    by (auto intro: extends_trans)
qed

lemma foldE_time_vars_courses:
  assumes wf: "wf_same_time om"
  shows "timeVars_ok om b \<Longrightarrow>
         \<exists>b'. foldE (time_vars_course om) cs b = Inr b' \<and> timeVars_ok om b' \<and> extends b b' \<and>
              (\<forall>c \<in> set cs. \<forall>l \<in> set (resolve om (lessons c)). timeVars b' (lesson_id l) \<noteq> None)"
proof (induction cs arbitrary: b)
  case Nil
  then show ?case by (simp add: extends_refl)
next
  case (Cons c cs)
  from foldE_time_vars_lessons [OF wf resolve_subset Cons.prems] obtain b1 where
    1: "time_vars_course om c b = Inr b1" "timeVars_ok om b1" "extends b b1"
       "\<forall>l \<in> set (resolve om (lessons c)). timeVars b1 (lesson_id l) \<noteq> None"
    unfolding time_vars_course_def by blast
  from Cons.IH [OF 1(2)] obtain b' where
    2: "foldE (time_vars_course om) cs b1 = Inr b'" "timeVars_ok om b'" "extends b1 b'"
       "\<forall>c \<in> set cs. \<forall>l \<in> set (resolve om (lessons c)). timeVars b' (lesson_id l) \<noteq> None"
    by blast
  from 1(4) 2(3) have
    "\<forall>l \<in> set (resolve om (lessons c)). timeVars b' (lesson_id l) \<noteq> None"
    by (simp add: extends_def)
  with 1(1,3) 2 show ?case
    by (auto intro: extends_trans)
qed

text \<open>
  Claim C6. On an input that keeps the invariants of the same-time groups, and before
  which no lesson has start-slot variables, the variable factory returns, and every
  lesson \<open>l\<close> of every course then has exactly \<open>timeslot_size\<close> start-slot variables. The
  domain of the \<open>i\<close>-th is the set of the ids of the timeslots that are among the filtered
  available timeslots of every lesson of the same-time group whose size is above \<open>i\<close>, and
  whose number in the day is at most \<open>TIMESLOTS_PER_DAY - max_size + i + 1\<close>, where
  \<open>max_size\<close> is the greatest size in the group. For every \<open>i\<close> the constraint
  \<open>t\<^bsub>i+1\<^esub> = t\<^bsub>i\<^esub> + 1\<close> is among the constraints of the model.
\<close>

theorem start_slot_variables:
  assumes wf: "wf_same_time om" and fresh: "\<forall>i. timeVars b i = None"
  shows "\<exists>b'. createLessonTimeAndRoomVariables b om = Inr b' \<and>
           (\<forall>c \<in> set (getCourses om). \<forall>l \<in> set (resolve om (lessons c)). \<exists>vs.
              timeVars b' (lesson_id l) = Some vs \<and>
              length vs = nat (timeslot_size l) \<and>
              (\<forall>i < length vs.
                 set (var_domains b' ! (vs ! i)) =
                   ts_id ` {t. (\<forall>m \<in> set (lessonsSameTime om l). int i < timeslot_size m \<longrightarrow>
                                   t \<in> set (availableTimeslotsFiltered m)) \<and>
                               number t \<le> TIMESLOTS_PER_DAY om
                                 - Max (timeslot_size ` set (lessonsSameTime om l)) + int i + 1}) \<and>
              (\<forall>i. Suc i < length vs \<longrightarrow>
                 LinEq (Lin [(1, vs ! Suc i)] 0) (Lin [(1, vs ! i)] 1) \<in> set (constraints b')))"
proof -
  from fresh have "timeVars_ok om b" by (simp add: timeVars_ok_def)
  from foldE_time_vars_courses [OF wf this, of "getCourses om"] obtain b' where
    run: "createLessonTimeAndRoomVariables b om = Inr b'" and
    ok: "timeVars_ok om b'" and
    all: "\<forall>c \<in> set (getCourses om). \<forall>l \<in> set (resolve om (lessons c)).
            timeVars b' (lesson_id l) \<noteq> None"
    unfolding createLessonTimeAndRoomVariables_def by blast
  have "\<exists>vs. timeVars b' (lesson_id l) = Some vs \<and>
              length vs = nat (timeslot_size l) \<and>
              (\<forall>i < length vs.
                 set (var_domains b' ! (vs ! i)) =
                   ts_id ` {t. (\<forall>m \<in> set (lessonsSameTime om l). int i < timeslot_size m \<longrightarrow>
                                   t \<in> set (availableTimeslotsFiltered m)) \<and>
                               number t \<le> TIMESLOTS_PER_DAY om
                                 - Max (timeslot_size ` set (lessonsSameTime om l)) + int i + 1}) \<and>
              (\<forall>i. Suc i < length vs \<longrightarrow>
                 LinEq (Lin [(1, vs ! Suc i)] 0) (Lin [(1, vs ! i)] 1) \<in> set (constraints b'))"
    if c: "c \<in> set (getCourses om)" and l: "l \<in> set (resolve om (lessons c))" for c l
  proof -
    from all c l obtain vs where vs: "timeVars b' (lesson_id l) = Some vs" by blast
    from l resolve_subset have "l \<in> set (getLessons om)" by blast
    with ok vs have "spec_timeVars om b' l vs" by (simp add: timeVars_ok_def)
    with vs show ?thesis
      by (simp add: spec_timeVars_def spec_time_domain_def group_domain_def)
  qed
  with run show ?thesis by blast
qed

lemma wf_orm_G: "wf_same_time orm_G"
  by code_simp



lemma members_orm_G:
  "group_course 1 \<in> set (getCourses orm_G)"
  "group_lesson 1 \<in> set (resolve orm_G (lessons (group_course 1)))"
  "group_course 2 \<in> set (getCourses orm_G)"
  "group_lesson 2 \<in> set (resolve orm_G (lessons (group_course 2)))"
  by code_simp+

theorem start_slot_variables_witness:
  "case createLessonTimeAndRoomVariables empty_build orm_G of
     Inl e \<Rightarrow> False
   | Inr b' \<Rightarrow>
       (\<exists>vs. timeVars b' 1 = Some vs \<and> length vs = 2 \<and>
             LinEq (Lin [(1, vs ! 1)] 0) (Lin [(1, vs ! 0)] 1) \<in> set (constraints b')) \<and>
       (\<exists>vs. timeVars b' 2 = Some vs \<and> length vs = 3)"
proof -
  have fresh: "\<forall>i. timeVars empty_build i = None"
    by (simp add: empty_build_def)
  from start_slot_variables [OF wf_orm_G fresh] obtain b' where
    run: "createLessonTimeAndRoomVariables empty_build orm_G = Inr b'" and
    all0: "\<forall>c \<in> set (getCourses orm_G). \<forall>l \<in> set (resolve orm_G (lessons c)). \<exists>vs.
              timeVars b' (lesson_id l) = Some vs \<and>
              length vs = nat (timeslot_size l) \<and>
              (\<forall>i < length vs.
                 set (var_domains b' ! (vs ! i)) =
                   ts_id ` {t. (\<forall>m \<in> set (lessonsSameTime orm_G l). int i < timeslot_size m \<longrightarrow>
                                   t \<in> set (availableTimeslotsFiltered m)) \<and>
                               number t \<le> TIMESLOTS_PER_DAY orm_G
                                 - Max (timeslot_size ` set (lessonsSameTime orm_G l)) + int i + 1}) \<and>
              (\<forall>i. Suc i < length vs \<longrightarrow>
                 LinEq (Lin [(1, vs ! Suc i)] 0) (Lin [(1, vs ! i)] 1) \<in> set (constraints b'))"
    by (elim exE conjE) (rule that)
  have all: "\<exists>vs. timeVars b' (lesson_id l) = Some vs \<and> length vs = nat (timeslot_size l) \<and>
             (\<forall>i. Suc i < length vs \<longrightarrow>
                 LinEq (Lin [(1, vs ! Suc i)] 0) (Lin [(1, vs ! i)] 1) \<in> set (constraints b'))"
    if "c \<in> set (getCourses orm_G)" "l \<in> set (resolve orm_G (lessons c))" for c l
  proof -
    from all0 that obtain vs where
      "timeVars b' (lesson_id l) = Some vs \<and>
              length vs = nat (timeslot_size l) \<and>
              (\<forall>i < length vs.
                 set (var_domains b' ! (vs ! i)) =
                   ts_id ` {t. (\<forall>m \<in> set (lessonsSameTime orm_G l). int i < timeslot_size m \<longrightarrow>
                                   t \<in> set (availableTimeslotsFiltered m)) \<and>
                               number t \<le> TIMESLOTS_PER_DAY orm_G
                                 - Max (timeslot_size ` set (lessonsSameTime orm_G l)) + int i + 1}) \<and>
              (\<forall>i. Suc i < length vs \<longrightarrow>
                 LinEq (Lin [(1, vs ! Suc i)] 0) (Lin [(1, vs ! i)] 1) \<in> set (constraints b'))"
      by (elim ballE exE) auto
    then show ?thesis by (intro exI [of _ vs]) simp
  qed
  from all [OF members_orm_G(1,2)] obtain vs1 where
    1: "timeVars b' 1 = Some vs1" "length vs1 = 2"
       "\<forall>i. Suc i < length vs1 \<longrightarrow>
          LinEq (Lin [(1, vs1 ! Suc i)] 0) (Lin [(1, vs1 ! i)] 1) \<in> set (constraints b')"
    by (auto simp: group_lesson_def)
  from 1(2,3) have "LinEq (Lin [(1, vs1 ! 1)] 0) (Lin [(1, vs1 ! 0)] 1) \<in> set (constraints b')"
    by (metis One_nat_def Suc_1 lessI)
  moreover from all [OF members_orm_G(3,4)] obtain vs2 where
    "timeVars b' 2 = Some vs2" "length vs2 = 3"
    by (auto simp: group_lesson_def)
  ultimately show ?thesis using run 1 by simp
qed

end
